(* ===== verification/Nixadmin_Prelude.thy ===== *)
theory Nixadmin_Prelude
  imports Complex_Main
begin

text \<open>
  What every theory of the development shares: the collections of rules the proofs are
  driven by, the generic contracts of state machines, and lemmas on lists and options that
  more than one component needs.

  Two kinds of machine occur in the program. A component driven by a sequence of calls
  (a session of the safety gate, a rate limiter, a store) is a step function folded over
  the calls; a component whose threads interleave (the privileged helper) is a step
  relation. Both contracts are locales: the provider proves that one step keeps the
  invariant, the client gets that every run does.
\<close>

named_theorems host_simps
  \<open>equations that evaluate the calls a component makes to the machine it runs on\<close>

named_theorems step_intros
  \<open>facts that one operation keeps a component's invariant\<close>

section \<open>Machines and their invariants\<close>

locale relation_machine =
  fixes init :: "'s \<Rightarrow> bool"
    and step :: "'s \<Rightarrow> 's \<Rightarrow> bool"
    and inv :: "'s \<Rightarrow> bool"
  assumes inv_init: "init s \<Longrightarrow> inv s"
    and inv_step: "step s t \<Longrightarrow> inv s \<Longrightarrow> inv t"
begin

lemma inv_run: "step\<^sup>*\<^sup>* s t \<Longrightarrow> inv s \<Longrightarrow> inv t"
  by (induction rule: rtranclp_induct) (auto intro: inv_step)

lemma inv_reachable: "init s \<Longrightarrow> step\<^sup>*\<^sup>* s t \<Longrightarrow> inv t"
  by (blast intro: inv_run inv_init)

end

locale event_machine =
  fixes apply_event :: "'s \<Rightarrow> 'e \<Rightarrow> 's"
    and inv :: "'s \<Rightarrow> bool"
  assumes inv_event: "inv s \<Longrightarrow> inv (apply_event s e)"
begin

lemma inv_events: "inv s \<Longrightarrow> inv (foldl apply_event s es)"
  by (induction es arbitrary: s) (auto intro: inv_event)

lemma inv_every_prefix: "inv s \<Longrightarrow> inv (foldl apply_event s (take n es))"
  by (rule inv_events)

end

text \<open>An event machine is a relation machine whose steps are the events.\<close>

sublocale event_machine \<subseteq> events_as_steps: relation_machine
  "inv" "\<lambda>s t. \<exists>e. t = apply_event s e" "inv"
  by unfold_locales (auto intro: inv_event)

section \<open>Lists and options\<close>

definition the_default :: "'a \<Rightarrow> 'a option \<Rightarrow> 'a" where
  "the_default d x = (case x of None \<Rightarrow> d | Some v \<Rightarrow> v)"

lemma the_default_simps [simp]:
  "the_default d None = d" "the_default d (Some v) = v"
  by (simp_all add: the_default_def)

lemma length_filter_take_le:
  "length (filter P (take n xs)) \<le> length (filter P xs)"
proof -
  have "length (filter P xs) = length (filter P (take n xs @ drop n xs))"
    by simp
  then show ?thesis by (simp only: filter_append length_append)
qed

lemma length_filter_mono:
  "(\<And>x. x \<in> set xs \<Longrightarrow> P x \<Longrightarrow> Q x) \<Longrightarrow> length (filter P xs) \<le> length (filter Q xs)"
  by (induction xs) (auto simp: le_SucI)

lemma foldl_snoc [simp]: "foldl f s (xs @ [x]) = f (foldl f s xs) x"
  by simp

text \<open>The splits of a list with a first element, for scans that try every position.\<close>

lemma all_splits_Cons:
  "(\<forall>u v. c # cs = u @ v \<longrightarrow> Q u v) \<longleftrightarrow> Q [] (c # cs) \<and> (\<forall>u v. cs = u @ v \<longrightarrow> Q (c # u) v)"
  by (auto simp: Cons_eq_append_conv)

lemma distinct_map_filter: "distinct (map f xs) \<Longrightarrow> distinct (map f (filter P xs))"
  by (induction xs) auto

lemma sorted_wrt_take: "sorted_wrt R xs \<Longrightarrow> sorted_wrt R (take n xs)"
  by (metis append_take_drop_id sorted_wrt_append)

lemma sorted_wrt_filter_pred: "sorted_wrt R xs \<Longrightarrow> sorted_wrt R (filter P xs)"
  by (induction xs) auto

end
