(* ===== verification/Py_String.thy ===== *)
theory Py_String
  imports Nixadmin_Prelude "HOL-Library.Sublist"
begin

text \<open>
  The operations of Python's \<^verbatim>\<open>str\<close> that the program uses, on lists of characters. A HOL
  character is one of 256 codes and stands for the code point with that number, so the
  model covers the Latin-1 range exactly: \<^verbatim>\<open>isspace\<close>, \<^verbatim>\<open>isalnum\<close>, \<^verbatim>\<open>lower\<close> and
  \<^verbatim>\<open>splitlines\<close> follow the Unicode tables on it. The program's own fixed texts use five
  code points outside the range (two dashes, ellipsis, two curly quotes); each is spelled with one
  reserved control code, so that lengths count code points as Python's \<^verbatim>\<open>len\<close> does.
\<close>

type_synonym pystr = string

abbreviation emdash :: char where "emdash \<equiv> CHR 0x97"
abbreviation endash :: char where "endash \<equiv> CHR 0x96"
abbreviation ellipsis :: char where "ellipsis \<equiv> CHR 0x8D"
abbreviation ldquote :: char where "ldquote \<equiv> CHR 0x93"
abbreviation rdquote :: char where "rdquote \<equiv> CHR 0x94"
abbreviation newline :: char where "newline \<equiv> CHR 0x0A"
abbreviation carriage_return :: char where "carriage_return \<equiv> CHR 0x0D"

section \<open>Character classes\<close>

definition code :: "char \<Rightarrow> nat" where
  "code c = of_char c"

definition is_space :: "char \<Rightarrow> bool" where
  "is_space c \<longleftrightarrow> (let n = code c in
     (9 \<le> n \<and> n \<le> 13) \<or> (28 \<le> n \<and> n \<le> 32) \<or> n = 133 \<or> n = 160)"

definition is_digit :: "char \<Rightarrow> bool" where
  "is_digit c \<longleftrightarrow> 48 \<le> code c \<and> code c \<le> 57"

definition is_upper_ascii :: "char \<Rightarrow> bool" where
  "is_upper_ascii c \<longleftrightarrow> 65 \<le> code c \<and> code c \<le> 90"

definition is_lower_ascii :: "char \<Rightarrow> bool" where
  "is_lower_ascii c \<longleftrightarrow> 97 \<le> code c \<and> code c \<le> 122"

definition is_alpha_ascii :: "char \<Rightarrow> bool" where
  "is_alpha_ascii c \<longleftrightarrow> is_upper_ascii c \<or> is_lower_ascii c"

text \<open>The class \<^verbatim>\<open>\w\<close> of the \<^verbatim>\<open>re\<close> module: alphanumeric in the sense of \<^verbatim>\<open>isalnum\<close>, or underscore.\<close>

definition is_word_char :: "char \<Rightarrow> bool" where
  "is_word_char c \<longleftrightarrow> is_alpha_ascii c \<or> is_digit c \<or> code c = 95 \<or>
     code c \<in> {170, 178, 179, 181, 185, 186, 188, 189, 190} \<or>
     (192 \<le> code c \<and> code c \<noteq> 215 \<and> code c \<noteq> 247)"

definition lower_char :: "char \<Rightarrow> char" where
  "lower_char c = (let n = code c in
     if (65 \<le> n \<and> n \<le> 90) \<or> (192 \<le> n \<and> n \<le> 222 \<and> n \<noteq> 215) then char_of (n + 32) else c)"

section \<open>Stripping, case, splitting, joining\<close>

definition lower :: "pystr \<Rightarrow> pystr" where
  "lower s = map lower_char s"

definition lstrip :: "pystr \<Rightarrow> pystr" where
  "lstrip s = dropWhile is_space s"

definition rstrip :: "pystr \<Rightarrow> pystr" where
  "rstrip s = rev (dropWhile is_space (rev s))"

definition strip :: "pystr \<Rightarrow> pystr" where
  "strip s = rstrip (lstrip s)"

text \<open>\<^verbatim>\<open>s.rstrip(chars)\<close>, which drops trailing characters of a given set.\<close>

definition rstrip_chars :: "char list \<Rightarrow> pystr \<Rightarrow> pystr" where
  "rstrip_chars cs s = rev (dropWhile (\<lambda>c. c \<in> set cs) (rev s))"

text \<open>\<^verbatim>\<open>s.split()\<close>: the maximal runs of non-space characters.\<close>

function split_ws :: "pystr \<Rightarrow> pystr list" where
  "split_ws s = (case lstrip s of [] \<Rightarrow> []
     | c # cs \<Rightarrow> takeWhile (\<lambda>x. \<not> is_space x) (c # cs)
                # split_ws (dropWhile (\<lambda>x. \<not> is_space x) (c # cs)))"
  by pat_completeness auto
termination
proof (relation "measure length")
  fix s :: pystr and c cs
  assume eq: "lstrip s = c # cs"
  then have "\<not> is_space c"
    using hd_dropWhile [of is_space s] by (simp add: lstrip_def)
  then have "length (dropWhile (\<lambda>x. \<not> is_space x) (c # cs)) \<le> length cs"
    by (simp add: length_dropWhile_le)
  also have "\<dots> < length s"
    using eq length_dropWhile_le [of is_space s] by (simp add: lstrip_def)
  finally show "(dropWhile (\<lambda>x. \<not> is_space x) (c # cs), s) \<in> measure length"
    by simp
qed simp

declare split_ws.simps [simp del]

text \<open>
  \<^verbatim>\<open>s.split(None, n)\<close>: at most \<open>n\<close> splits; what remains is one last field with leading
  white space removed and, as in CPython, trailing white space kept.
\<close>

fun split_ws_max :: "nat \<Rightarrow> pystr \<Rightarrow> pystr list" where
  "split_ws_max n s = (case lstrip s of [] \<Rightarrow> []
     | c # cs \<Rightarrow> (case n of 0 \<Rightarrow> [c # cs]
         | Suc m \<Rightarrow> takeWhile (\<lambda>x. \<not> is_space x) (c # cs)
                    # split_ws_max m (dropWhile (\<lambda>x. \<not> is_space x) (c # cs))))"

declare split_ws_max.simps [simp del]

fun join :: "pystr \<Rightarrow> pystr list \<Rightarrow> pystr" where
  "join sep [] = []"
| "join sep [x] = x"
| "join sep (x # y # zs) = x @ sep @ join sep (y # zs)"

definition startswith :: "pystr \<Rightarrow> pystr \<Rightarrow> bool" where
  "startswith p s \<longleftrightarrow> take (length p) s = p"

definition endswith :: "pystr \<Rightarrow> pystr \<Rightarrow> bool" where
  "endswith p s \<longleftrightarrow> length p \<le> length s \<and> drop (length s - length p) s = p"

text \<open>\<^verbatim>\<open>p in s\<close> on strings.\<close>

fun contains :: "pystr \<Rightarrow> pystr \<Rightarrow> bool" where
  "contains p [] = (p = [])"
| "contains p (c # cs) = (startswith p (c # cs) \<or> contains p cs)"

section \<open>Lines\<close>

text \<open>
  \<^verbatim>\<open>s.splitlines(keepends=True)\<close>. Besides line feed and carriage return (and the pair of
  them, one boundary) Python ends a line at vertical tab, form feed, the separators 28-30 and
  next-line (133).
\<close>

definition is_line_break :: "char \<Rightarrow> bool" where
  "is_line_break c \<longleftrightarrow> (let n = code c in (10 \<le> n \<and> n \<le> 13) \<or> (28 \<le> n \<and> n \<le> 30) \<or> n = 133)"

fun split_lines_acc :: "pystr \<Rightarrow> pystr \<Rightarrow> pystr list" where
  "split_lines_acc acc [] = (if acc = [] then [] else [rev acc])"
| "split_lines_acc acc (c # cs) =
     (if c = carriage_return then
        (case cs of d # ds \<Rightarrow>
           (if d = newline then rev (d # c # acc) # split_lines_acc [] ds
            else rev (c # acc) # split_lines_acc [] cs)
         | [] \<Rightarrow> [rev (c # acc)])
      else if is_line_break c then rev (c # acc) # split_lines_acc [] cs
      else split_lines_acc (c # acc) cs)"

definition splitlines_keep :: "pystr \<Rightarrow> pystr list" where
  "splitlines_keep s = split_lines_acc [] s"

text \<open>\<^verbatim>\<open>s.splitlines()\<close>: the same lines without their terminators.\<close>

definition drop_line_end :: "pystr \<Rightarrow> pystr" where
  "drop_line_end l = (if endswith [carriage_return, newline] l then butlast (butlast l)
     else if l \<noteq> [] \<and> is_line_break (last l) then butlast l else l)"

definition splitlines :: "pystr \<Rightarrow> pystr list" where
  "splitlines s = map drop_line_end (splitlines_keep s)"

section \<open>Numbers\<close>

text \<open>\<^verbatim>\<open>str(n)\<close> and \<^verbatim>\<open>f"{n}"\<close> on integers.\<close>

definition digit_char :: "nat \<Rightarrow> char" where
  "digit_char d = char_of (48 + d)"

fun show_nat :: "nat \<Rightarrow> pystr" where
  "show_nat n = (if n < 10 then [digit_char n] else show_nat (n div 10) @ [digit_char (n mod 10)])"

declare show_nat.simps [simp del]

definition show_int :: "int \<Rightarrow> pystr" where
  "show_int i = (if i < 0 then CHR ''-'' # show_nat (nat (- i)) else show_nat (nat i))"

text \<open>
  \<^verbatim>\<open>repr(s)\<close> (\<^verbatim>\<open>!r\<close> in a format): double quotes only when the text has a single quote and no
  double one; backslash, the chosen quote and unprintable characters are escaped.
\<close>

definition hex_digit :: "nat \<Rightarrow> char" where
  "hex_digit d = (if d < 10 then char_of (48 + d) else char_of (87 + d))"

definition is_printable :: "char \<Rightarrow> bool" where
  "is_printable c \<longleftrightarrow> c \<in> {emdash, endash, ellipsis, ldquote, rdquote} \<or>
     (32 \<le> code c \<and> code c \<le> 126) \<or> (161 \<le> code c \<and> code c \<noteq> 173)"

definition repr_char :: "char \<Rightarrow> char \<Rightarrow> pystr" where
  "repr_char q c =
     (if c = q \<or> c = CHR 0x5C then [CHR 0x5C, c]
      else if c = newline then [CHR 0x5C, CHR ''n'']
      else if c = carriage_return then [CHR 0x5C, CHR ''r'']
      else if c = CHR 0x09 then [CHR 0x5C, CHR ''t'']
      else if is_printable c then [c]
      else [CHR 0x5C, CHR ''x'', hex_digit (code c div 16), hex_digit (code c mod 16)])"

definition py_repr :: "pystr \<Rightarrow> pystr" where
  "py_repr s = (let q = (if CHR 0x27 \<in> set s \<and> CHR 0x22 \<notin> set s then CHR 0x22 else CHR 0x27)
     in q # concat (map (repr_char q) s) @ [q])"

text \<open>
  \<^verbatim>\<open>int(s)\<close> on strings, \<open>None\<close> for \<^verbatim>\<open>ValueError\<close>: surrounding white space, a sign, digits
  with single underscores between them, and CPython's limit of 4300 digits.
\<close>

fun int_digits :: "pystr \<Rightarrow> int \<Rightarrow> bool \<Rightarrow> int option" where
  "int_digits [] acc after_digit = (if after_digit then Some acc else None)"
| "int_digits (c # cs) acc after_digit =
     (if is_digit c then int_digits cs (acc * 10 + int (code c - 48)) True
      else if c = CHR ''_'' \<and> after_digit then int_digits cs acc False
      else None)"

definition py_int :: "pystr \<Rightarrow> int option" where
  "py_int s =
     (if 4300 < length (filter is_digit s) then None
      else (case strip s of
          [] \<Rightarrow> None
        | c # cs \<Rightarrow>
            (if c = CHR ''-'' then map_option uminus (int_digits cs 0 False)
             else if c = CHR ''+'' then int_digits cs 0 False
             else int_digits (c # cs) 0 False)))"

text \<open>\<^verbatim>\<open>list(dict.fromkeys(xs))\<close>: the first occurrence of each element, in order.\<close>

fun dedup_acc :: "'a list \<Rightarrow> 'a list \<Rightarrow> 'a list" where
  "dedup_acc seen [] = []"
| "dedup_acc seen (x # xs) =
     (if x \<in> set seen then dedup_acc seen xs else x # dedup_acc (x # seen) xs)"

definition dict_fromkeys :: "'a list \<Rightarrow> 'a list" where
  "dict_fromkeys xs = dedup_acc [] xs"

lemma set_dedup_acc: "set (dedup_acc seen xs) = set xs - set seen"
  by (induction seen xs rule: dedup_acc.induct) auto

lemma distinct_dedup_acc: "distinct (dedup_acc seen xs)"
  by (induction seen xs rule: dedup_acc.induct) (auto simp: set_dedup_acc)

lemma set_dict_fromkeys [simp]: "set (dict_fromkeys xs) = set xs"
  by (simp add: dict_fromkeys_def set_dedup_acc)

lemma distinct_dict_fromkeys [simp]: "distinct (dict_fromkeys xs)"
  by (simp add: dict_fromkeys_def distinct_dedup_acc)

section \<open>Facts the components share\<close>

lemma lower_append [simp]: "lower (s @ t) = lower s @ lower t"
  by (simp add: lower_def)

lemma lower_Nil [simp]: "lower [] = []"
  by (simp add: lower_def)

lemma length_lower [simp]: "length (lower s) = length s"
  by (simp add: lower_def)

lemma lstrip_no_space: "lstrip s = c # cs \<Longrightarrow> \<not> is_space c"
  using hd_dropWhile [of is_space s] by (simp add: lstrip_def)

lemma lstrip_id: "s = [] \<or> \<not> is_space (hd s) \<Longrightarrow> lstrip s = s"
  by (cases s) (auto simp: lstrip_def)

lemma strip_no_space: "list_all (\<lambda>c. \<not> is_space c) s \<Longrightarrow> strip s = s"
proof -
  have *: "list_all (\<lambda>c. \<not> is_space c) t \<Longrightarrow> dropWhile is_space t = t" for t
    by (cases t) auto
  assume "list_all (\<lambda>c. \<not> is_space c) s"
  moreover from this have "list_all (\<lambda>c. \<not> is_space c) (rev s)" by (simp add: list_all_iff)
  ultimately show ?thesis
    by (simp add: strip_def rstrip_def lstrip_def *)
qed

lemma startswith_iff: "startswith p s \<longleftrightarrow> (\<exists>t. s = p @ t)"
proof
  assume "startswith p s"
  then have "s = p @ drop (length p) s"
    by (metis append_take_drop_id startswith_def)
  then show "\<exists>t. s = p @ t" ..
qed (auto simp: startswith_def)

lemma endswith_iff: "endswith p s \<longleftrightarrow> (\<exists>t. s = t @ p)"
proof
  assume "endswith p s"
  then have "s = take (length s - length p) s @ p"
    by (metis append_take_drop_id endswith_def)
  then show "\<exists>t. s = t @ p" ..
qed (auto simp: endswith_def)

lemma contains_iff: "contains p s \<longleftrightarrow> (\<exists>u v. s = u @ p @ v)"
proof (induction s)
  case (Cons c s)
  show ?case
  proof
    assume "contains p (c # s)"
    then consider "startswith p (c # s)" | "contains p s" by auto
    then show "\<exists>u v. c # s = u @ p @ v"
    proof cases
      case 1
      then show ?thesis by (metis append_Nil startswith_iff)
    next
      case 2
      with Cons.IH obtain u v where "s = u @ p @ v" by blast
      then show ?thesis by (intro exI [of _ "c # u"] exI [of _ v]) simp
    qed
  next
    assume "\<exists>u v. c # s = u @ p @ v"
    then show "contains p (c # s)"
      by (auto simp: Cons_eq_append_conv Cons.IH startswith_iff)
  qed
qed auto

end
