(* ===== verification/Observability.thy ===== *)
theory Observability
  imports Py_String
begin

text \<open>
  \<^verbatim>\<open>observability.py\<close>: bounded counters and the suppression of repeated warnings. The
  counters are a dictionary, the last-logged times an \<^verbatim>\<open>OrderedDict\<close>, that is a list of
  entries with the oldest first. The clock reading of a call is an argument of the call.
\<close>

definition MAX_COUNTER :: int where
  "MAX_COUNTER = 2 ^ 63 - 1"

definition MAX_RATE_KEYS :: nat where
  "MAX_RATE_KEYS = 128"

record operational_state =
  op_counters :: "pystr \<rightharpoonup> int"
  last_log :: "(pystr \<times> real) list"

definition new_operational_state :: operational_state where
  "new_operational_state = \<lparr>op_counters = Map.empty, last_log = []\<rparr>"

definition increment :: "pystr \<Rightarrow> operational_state \<Rightarrow> operational_state" where
  "increment name s = s\<lparr>op_counters :=
     (op_counters s)(name \<mapsto> min MAX_COUNTER (the_default 0 (op_counters s name) + 1))\<rparr>"

definition counters :: "operational_state \<Rightarrow> (pystr \<rightharpoonup> int)" where
  "counters s = op_counters s"

text \<open>\<^verbatim>\<open>while len(d) > MAX_RATE_KEYS: d.popitem(last=False)\<close>.\<close>

fun evict :: "('k \<times> 'v) list \<Rightarrow> ('k \<times> 'v) list" where
  "evict [] = []"
| "evict (e # es) = (if MAX_RATE_KEYS < length (e # es) then evict es else e # es)"

definition should_log :: "pystr \<Rightarrow> real \<Rightarrow> real \<Rightarrow> operational_state \<Rightarrow> bool \<times> operational_state" where
  "should_log key interval_s now s =
     (let previous = map_of (last_log s) key
      in if (case previous of Some t \<Rightarrow> now - t < interval_s | None \<Rightarrow> False) then (False, s)
         else (True, s\<lparr>last_log :=
                evict (filter (\<lambda>(k, t). k \<noteq> key) (last_log s) @ [(key, now)])\<rparr>))"

text \<open>The calls other components make, as events of one machine.\<close>

datatype op_call = Increment pystr | ShouldLog pystr real real

fun op_apply :: "operational_state \<Rightarrow> op_call \<Rightarrow> operational_state" where
  "op_apply s (Increment name) = increment name s"
| "op_apply s (ShouldLog key interval now) = snd (should_log key interval now s)"

section \<open>The bounds\<close>

definition op_bounded :: "operational_state \<Rightarrow> bool" where
  "op_bounded s \<longleftrightarrow>
     (\<forall>k n. op_counters s k = Some n \<longrightarrow> 0 \<le> n \<and> n \<le> MAX_COUNTER) \<and>
     length (last_log s) \<le> MAX_RATE_KEYS \<and> distinct (map fst (last_log s))"

lemma length_evict: "length (evict es) \<le> MAX_RATE_KEYS"
  by (induction es) (auto simp: MAX_RATE_KEYS_def)

lemma evict_suffix: "\<exists>ds. es = ds @ evict es"
  by (induction es) (auto intro: exI [of _ "_ # _"])

lemma evict_fits [simp]: "length es \<le> MAX_RATE_KEYS \<Longrightarrow> evict es = es"
  by (cases es) auto

lemma distinct_evict: "distinct (map fst es) \<Longrightarrow> distinct (map fst (evict es))"
  using evict_suffix [of es] by (metis distinct_append map_append)

lemma evict_keeps: "length ys < MAX_RATE_KEYS \<Longrightarrow> \<exists>xs'. evict (xs @ e # ys) = xs' @ e # ys"
proof (induction xs)
  case Nil
  then show ?case by (intro exI [of _ "[]"]) simp
next
  case (Cons x xs)
  then show ?case by (cases "MAX_RATE_KEYS < length ((x # xs) @ e # ys)") auto
qed

lemma should_log_bounded [step_intros]:
  "op_bounded s \<Longrightarrow> op_bounded (snd (should_log key i now s))"
proof -
  assume b: "op_bounded s"
  let ?l = "filter (\<lambda>(k, t). k \<noteq> key) (last_log s) @ [(key, now)]"
  from b have "distinct (map fst (filter (\<lambda>(k, t). k \<noteq> key) (last_log s)))"
    by (auto simp: op_bounded_def intro: distinct_map_filter)
  then have "distinct (map fst ?l)" by auto
  then have "distinct (map fst (evict ?l))" by (rule distinct_evict)
  with b show ?thesis
    by (auto simp: should_log_def Let_def op_bounded_def length_evict split: option.splits)
qed

lemma increment_bounded [step_intros]: "op_bounded s \<Longrightarrow> op_bounded (increment name s)"
  by (auto simp: op_bounded_def increment_def MAX_COUNTER_def the_default_def
      split: if_splits option.splits)

interpretation op_machine: event_machine op_apply op_bounded
proof
  fix s e
  assume "op_bounded s"
  then show "op_bounded (op_apply s e)" by (cases e) (auto intro: step_intros)
qed

lemma new_operational_state_bounded: "op_bounded new_operational_state"
  by (simp add: op_bounded_def new_operational_state_def)

section \<open>Repeated warnings\<close>

lemma should_log_recent:
  "map_of (last_log s) key = Some t \<Longrightarrow> now - t < i \<Longrightarrow> should_log key i now s = (False, s)"
  by (simp add: should_log_def)

text \<open>The position of a key's entry, counted from the young end, as other calls arrive.\<close>

definition logged_within :: "pystr \<Rightarrow> real \<Rightarrow> nat \<Rightarrow> operational_state \<Rightarrow> bool" where
  "logged_within key t n s \<longleftrightarrow>
     (\<exists>xs ys. last_log s = xs @ (key, t) # ys \<and> length ys \<le> n \<and> key \<notin> fst ` set xs)"

lemma logged_within_lookup: "logged_within key t n s \<Longrightarrow> map_of (last_log s) key = Some t"
proof -
  assume "logged_within key t n s"
  then obtain xs ys where l: "last_log s = xs @ (key, t) # ys" and "key \<notin> fst ` set xs"
    by (auto simp: logged_within_def)
  then have "map_of xs key = None" by (simp add: map_of_eq_None_iff)
  with l show ?thesis by (simp add: map_add_def)
qed

lemma should_log_logged:
  "op_bounded s \<Longrightarrow> fst (should_log key i now s) \<Longrightarrow>
     logged_within key now 0 (snd (should_log key i now s))"
proof -
  assume "fst (should_log key i now s)"
  then have s: "last_log (snd (should_log key i now s)) =
      evict (filter (\<lambda>(k, t). k \<noteq> key) (last_log s) @ [(key, now)])"
    by (auto simp: should_log_def Let_def split: if_splits)
  obtain ds where ds: "filter (\<lambda>(k, t). k \<noteq> key) (last_log s) @ [(key, now)] =
      ds @ evict (filter (\<lambda>(k, t). k \<noteq> key) (last_log s) @ [(key, now)])"
    using evict_suffix by blast
  obtain xs where xs: "evict (filter (\<lambda>(k, t). k \<noteq> key) (last_log s) @ [(key, now)]) = xs @ [(key, now)]"
    using evict_keeps [of "[]" _ "(key, now)"] MAX_RATE_KEYS_def by fastforce
  with ds have "filter (\<lambda>(k, t). k \<noteq> key) (last_log s) = ds @ xs" by simp
  then have "set xs \<subseteq> set (filter (\<lambda>(k, t). k \<noteq> key) (last_log s))" by simp
  then have "key \<notin> fst ` set xs" by auto
  with s xs show ?thesis by (auto simp: logged_within_def)
qed

definition other_call :: "pystr \<Rightarrow> op_call \<Rightarrow> bool" where
  "other_call key e \<longleftrightarrow> (case e of Increment _ \<Rightarrow> True | ShouldLog k _ _ \<Rightarrow> k \<noteq> key)"

lemma other_call_keeps:
  assumes "logged_within key t n s" and "other_call key e" and "Suc n < MAX_RATE_KEYS"
  shows "logged_within key t (Suc n) (op_apply s e)"
proof (cases e)
  case (Increment name)
  with assms(1) show ?thesis
    by (fastforce simp: logged_within_def increment_def)
next
  case (ShouldLog k i now)
  from assms(1) obtain xs ys where l: "last_log s = xs @ (key, t) # ys" "length ys \<le> n"
    and new: "key \<notin> fst ` set xs" by (auto simp: logged_within_def)
  show ?thesis
  proof (cases "fst (should_log k i now s)")
    case False
    then have "op_apply s e = s"
      using ShouldLog by (auto simp: should_log_def Let_def split: if_splits)
    with l new show ?thesis unfolding logged_within_def
      by (intro exI [of _ xs] exI [of _ ys]) simp
  next
    case True
    let ?f = "filter (\<lambda>(k', t). k' \<noteq> k)"
    from True l ShouldLog assms(2) have log: "last_log (op_apply s e) =
        evict (?f xs @ (key, t) # ?f ys @ [(k, now)])"
      by (auto simp: should_log_def Let_def other_call_def split: if_splits)
    have len: "length (?f ys @ [(k, now)]) \<le> Suc n"
      using le_trans [OF length_filter_le l(2)] by simp
    obtain xs' where xs': "evict (?f xs @ (key, t) # ?f ys @ [(k, now)]) = xs' @ (key, t) # ?f ys @ [(k, now)]"
      using evict_keeps [OF le_less_trans [OF len assms(3)], of "?f xs" "(key, t)"] by auto
    obtain ds where "?f xs @ (key, t) # ?f ys @ [(k, now)] = ds @ xs' @ (key, t) # ?f ys @ [(k, now)]"
      using evict_suffix [of "?f xs @ (key, t) # ?f ys @ [(k, now)]"] xs' by auto
    then have "?f xs = ds @ xs'" by simp
    then have "set xs' \<subseteq> set (?f xs)" by simp
    with new have "key \<notin> fst ` set xs'" by auto
    with log xs' len show ?thesis unfolding logged_within_def
      by (intro exI [of _ xs'] exI [of _ "?f ys @ [(k, now)]"]) simp
  qed
qed

lemma other_calls_keep:
  "logged_within key t n s \<Longrightarrow> list_all (other_call key) es \<Longrightarrow> n + length es < MAX_RATE_KEYS \<Longrightarrow>
     logged_within key t (n + length es) (foldl op_apply s es)"
proof (induction es arbitrary: s n)
  case (Cons e es)
  then have "logged_within key t (Suc n) (op_apply s e)" by (auto intro: other_call_keeps)
  with Cons.IH [of "Suc n" "op_apply s e"] Cons.prems show ?case by simp
qed simp


section \<open>Properties\<close>

text \<open>
   After any sequence of calls every counter lies between 0 and the largest 64-bit signed
  integer, and at most 128 warning keys are remembered, each once.
\<close>

theorem operational_state_bounded:
  "let s = foldl op_apply new_operational_state es
   in (\<forall>k. case counters s k of None \<Rightarrow> True | Some n \<Rightarrow> 0 \<le> n \<and> n \<le> 2 ^ 63 - 1) \<and>
      length (last_log s) \<le> 128 \<and> distinct (map fst (last_log s))"
  using op_machine.inv_events [OF new_operational_state_bounded, of es]
  by (simp add: Let_def op_bounded_def counters_def MAX_COUNTER_def MAX_RATE_KEYS_def split: option.split)

text \<open>
   A warning that was just logged is suppressed until its interval has passed, whatever
  other warnings and counters come in between, as long as fewer than 128 of them do: the
  eviction of old keys does not forget a recent one.
\<close>

theorem repeated_warning_suppressed:
  assumes "fst (should_log key i now s)" and "length (last_log s) \<le> 128" and "distinct (map fst (last_log s))"
    and "\<forall>k. case op_counters s k of None \<Rightarrow> True | Some n \<Rightarrow> 0 \<le> n \<and> n \<le> 2 ^ 63 - 1"
    and "list_all (other_call key) es" and "length es < 128" and "later - now < j"
  shows "fst (should_log key j later (foldl op_apply (snd (should_log key i now s)) es)) = False"
proof -
  have "op_bounded s" using assms(2-4)
    by (auto simp: op_bounded_def MAX_COUNTER_def MAX_RATE_KEYS_def split: option.splits)
  then have "logged_within key now 0 (snd (should_log key i now s))"
    using assms(1) by (rule should_log_logged)
  then have "logged_within key now (0 + length es) (foldl op_apply (snd (should_log key i now s)) es)"
    using assms(5,6) by (intro other_calls_keep) (simp_all add: MAX_RATE_KEYS_def)
  then show ?thesis using assms(7) by (simp add: logged_within_lookup should_log_recent)
qed

lemma repeated_warning_suppressed_witness:
  "fst (should_log ''disk'' 30 20 (foldl op_apply (snd (should_log ''disk'' 30 0 new_operational_state))
     [Increment ''errors'', ShouldLog ''net'' 30 5])) = False"
  by (rule repeated_warning_suppressed)
    (simp_all add: should_log_def new_operational_state_def other_call_def)

end
