(* ===== verification/Py_Regex.thy ===== *)
theory Py_Regex
  imports Py_String
begin

text \<open>
  The part of Python's \<^verbatim>\<open>re\<close> module the program uses. A position in a text is the pair of
  the characters before it (reversed) and the characters after it. The matcher returns every
  way a pattern can match from a position, in the order a backtracking engine tries them, so
  the head of the list is the match Python reports. The relation \<open>matches_rel\<close> is the
  declarative meaning of a pattern; \<open>set_matches\<close> says that the matcher computes it.
\<close>

type_synonym pos = "pystr \<times> pystr"

datatype regex =
    Sym "char \<Rightarrow> bool"
  | Eps
  | WordB
  | Bol
  | Eol
  | Seq regex regex
  | Alt regex regex
  | Star regex

section \<open>The matcher\<close>

definition word_boundary :: "pos \<Rightarrow> bool" where
  "word_boundary p \<longleftrightarrow>
     (fst p \<noteq> [] \<and> is_word_char (hd (fst p))) \<noteq> (snd p \<noteq> [] \<and> is_word_char (hd (snd p)))"

text \<open>
  Greedy repetition: one more iteration is tried before stopping, and an iteration has to
  consume something. The bound is the length of the remaining text, which such iterations
  cannot exceed (\<open>matches_Star\<close> below).
\<close>

fun star_iter :: "(pos \<Rightarrow> pos list) \<Rightarrow> nat \<Rightarrow> pos \<Rightarrow> pos list" where
  "star_iter f 0 p = [p]"
| "star_iter f (Suc n) p =
     concat (map (star_iter f n) (filter (\<lambda>q. length (snd q) < length (snd p)) (f p))) @ [p]"

primrec matches :: "regex \<Rightarrow> pos \<Rightarrow> pos list" where
  "matches (Sym P) p =
     (case snd p of [] \<Rightarrow> [] | c # cs \<Rightarrow> (if P c then [(c # fst p, cs)] else []))"
| "matches Eps p = [p]"
| "matches WordB p = (if word_boundary p then [p] else [])"
| "matches Bol p = (if fst p = [] then [p] else [])"
| "matches Eol p = (if snd p = [] \<or> snd p = [newline] then [p] else [])"
| "matches (Seq r s) p = concat (map (matches s) (matches r p))"
| "matches (Alt r s) p = matches r p @ matches s p"
| "matches (Star r) p = star_iter (matches r) (length (snd p)) p"

text \<open>The derived forms of the pattern language.\<close>

definition re_plus :: "regex \<Rightarrow> regex" where
  "re_plus r = Seq r (Star r)"

definition re_opt :: "regex \<Rightarrow> regex" where
  "re_opt r = Alt r Eps"

fun re_repeat :: "nat \<Rightarrow> regex \<Rightarrow> regex" where
  "re_repeat 0 r = Eps"
| "re_repeat (Suc n) r = Seq r (re_repeat n r)"

fun re_upto :: "nat \<Rightarrow> regex \<Rightarrow> regex" where
  "re_upto 0 r = Eps"
| "re_upto (Suc n) r = re_opt (Seq r (re_upto n r))"

fun seqs :: "regex list \<Rightarrow> regex" where
  "seqs [] = Eps"
| "seqs [r] = r"
| "seqs (r # s # rs) = Seq r (seqs (s # rs))"

fun alts :: "regex list \<Rightarrow> regex" where
  "alts [] = Sym (\<lambda>_. False)"
| "alts [r] = r"
| "alts (r # s # rs) = Alt r (alts (s # rs))"

definition chr :: "char \<Rightarrow> regex" where
  "chr c = Sym (\<lambda>x. x = c)"

definition chr_i :: "char \<Rightarrow> regex" where
  "chr_i c = Sym (\<lambda>x. lower_char x = c)"

fun lit :: "pystr \<Rightarrow> regex" where
  "lit [] = Eps"
| "lit (c # cs) = Seq (chr c) (lit cs)"

text \<open>A lower-case literal under \<^verbatim>\<open>re.IGNORECASE\<close>.\<close>

fun lit_i :: "pystr \<Rightarrow> regex" where
  "lit_i [] = Eps"
| "lit_i (c # cs) = Seq (chr_i c) (lit_i cs)"

definition re_dot :: regex where
  "re_dot = Sym (\<lambda>c. c \<noteq> newline)"

definition re_space :: regex where
  "re_space = Sym is_space"

definition re_spaces :: regex where
  "re_spaces = re_plus re_space"

section \<open>Matching, searching, substituting\<close>

definition match_at :: "regex \<Rightarrow> pos \<Rightarrow> pos option" where
  "match_at r p = (case matches r p of [] \<Rightarrow> None | q # _ \<Rightarrow> Some q)"

text \<open>\<^verbatim>\<open>r.match(s)\<close>: the pattern at the start of the text.\<close>

definition re_match :: "regex \<Rightarrow> pystr \<Rightarrow> bool" where
  "re_match r s \<longleftrightarrow> matches r ([], s) \<noteq> []"

text \<open>\<^verbatim>\<open>r.search(s)\<close>: the leftmost position where the pattern matches.\<close>

fun search_from :: "regex \<Rightarrow> pystr \<Rightarrow> pystr \<Rightarrow> (pos \<times> pos) option" where
  "search_from r b [] = map_option (\<lambda>q. ((b, []), q)) (match_at r (b, []))"
| "search_from r b (c # cs) =
     (case match_at r (b, c # cs) of
        Some q \<Rightarrow> Some ((b, c # cs), q)
      | None \<Rightarrow> search_from r (c # b) cs)"

definition re_search :: "regex \<Rightarrow> pystr \<Rightarrow> bool" where
  "re_search r s \<longleftrightarrow> search_from r [] s \<noteq> None"

text \<open>
  A search whose last element is a capturing group: the pattern is \<open>Seq p g\<close> and the result
  is the text \<open>g\<close> matched, on the first path of the backtracking search that succeeds.
\<close>

definition span_text :: "pos \<Rightarrow> pos \<Rightarrow> pystr" where
  "span_text p q = take (length (snd p) - length (snd q)) (snd p)"

fun first_group :: "regex \<Rightarrow> pos list \<Rightarrow> pystr option" where
  "first_group g [] = None"
| "first_group g (u # us) =
     (case match_at g u of Some q \<Rightarrow> Some (span_text u q) | None \<Rightarrow> first_group g us)"

fun search_group_from :: "regex \<Rightarrow> regex \<Rightarrow> pystr \<Rightarrow> pystr \<Rightarrow> pystr option" where
  "search_group_from p g b [] = first_group g (matches p (b, []))"
| "search_group_from p g b (c # cs) =
     (case first_group g (matches p (b, c # cs)) of
        Some t \<Rightarrow> Some t
      | None \<Rightarrow> search_group_from p g (c # b) cs)"

definition search_group :: "regex \<Rightarrow> regex \<Rightarrow> pystr \<Rightarrow> pystr option" where
  "search_group p g s = search_group_from p g [] s"

text \<open>
  \<^verbatim>\<open>r.subn(repl, s)\<close>: matches are replaced from left to right; after a match the scan goes on
  behind it. The number of characters left bounds the number of steps.
\<close>

fun subn_from :: "nat \<Rightarrow> regex \<Rightarrow> pystr \<Rightarrow> pystr \<Rightarrow> pystr \<Rightarrow> pystr \<times> nat" where
  "subn_from n r repl b [] =
     (case match_at r (b, []) of Some _ \<Rightarrow> (repl, 1) | None \<Rightarrow> ([], 0))"
| "subn_from 0 r repl b (c # cs) = (c # cs, 0)"
| "subn_from (Suc n) r repl b (c # cs) =
     (case match_at r (b, c # cs) of
        None \<Rightarrow> (let (out, k) = subn_from n r repl (c # b) cs in (c # out, k))
      | Some (b', a') \<Rightarrow>
          (if length a' < length (c # cs)
           then (let (out, k) = subn_from n r repl b' a' in (repl @ out, Suc k))
           else (let (out, k) = subn_from n r repl (c # b) cs in (repl @ c # out, Suc k))))"

definition subn :: "regex \<Rightarrow> pystr \<Rightarrow> pystr \<Rightarrow> pystr \<times> nat" where
  "subn r repl s = subn_from (length s) r repl [] s"

definition re_sub :: "regex \<Rightarrow> pystr \<Rightarrow> pystr \<Rightarrow> pystr" where
  "re_sub r repl s = fst (subn r repl s)"

section \<open>What a pattern means\<close>

text \<open>Positions are pairs; quantifiers over them stay quantifiers over positions.\<close>

declare split_paired_All [simp del] split_paired_Ex [simp del]

text \<open>
  The same patterns, declaratively: \<open>matches_rel r p q\<close> says that \<open>r\<close> matches the text
  between the positions \<open>p\<close> and \<open>q\<close>, with no order of choices.
\<close>

inductive matches_rel :: "regex \<Rightarrow> pos \<Rightarrow> pos \<Rightarrow> bool" where
  rel_Sym: "P c \<Longrightarrow> matches_rel (Sym P) (b, c # cs) (c # b, cs)"
| rel_Eps: "matches_rel Eps p p"
| rel_WordB: "word_boundary p \<Longrightarrow> matches_rel WordB p p"
| rel_Bol: "matches_rel Bol ([], a) ([], a)"
| rel_Eol: "a = [] \<or> a = [newline] \<Longrightarrow> matches_rel Eol (b, a) (b, a)"
| rel_Seq: "matches_rel r p q \<Longrightarrow> matches_rel s q t \<Longrightarrow> matches_rel (Seq r s) p t"
| rel_AltL: "matches_rel r p q \<Longrightarrow> matches_rel (Alt r s) p q"
| rel_AltR: "matches_rel s p q \<Longrightarrow> matches_rel (Alt r s) p q"
| rel_Star0: "matches_rel (Star r) p p"
| rel_Star1: "matches_rel r p q \<Longrightarrow> length (snd q) < length (snd p) \<Longrightarrow>
    matches_rel (Star r) q t \<Longrightarrow> matches_rel (Star r) p t"

inductive_cases rel_SymE [elim!]: "matches_rel (Sym P) p q"
inductive_cases rel_EpsE [elim!]: "matches_rel Eps p q"
inductive_cases rel_WordBE [elim!]: "matches_rel WordB p q"
inductive_cases rel_BolE [elim!]: "matches_rel Bol p q"
inductive_cases rel_EolE [elim!]: "matches_rel Eol p q"
inductive_cases rel_SeqE [elim!]: "matches_rel (Seq r s) p q"
inductive_cases rel_AltE [elim!]: "matches_rel (Alt r s) p q"
inductive_cases rel_StarE: "matches_rel (Star r) p q"

inductive_simps rel_Seq_iff: "matches_rel (Seq r s) p q"
inductive_simps rel_Alt_iff: "matches_rel (Alt r s) p q"
inductive_simps rel_Sym_iff: "matches_rel (Sym P) p q"
inductive_simps rel_WordB_iff: "matches_rel WordB p q"
inductive_simps rel_Bol_iff: "matches_rel Bol p q"
inductive_simps rel_Eol_iff: "matches_rel Eol p q"
inductive_simps rel_Eps_iff: "matches_rel Eps p q"

text \<open>A match only moves forward over the text.\<close>

definition advances :: "pos \<Rightarrow> pos \<Rightarrow> bool" where
  "advances p q \<longleftrightarrow> (\<exists>w. snd p = w @ snd q \<and> fst q = rev w @ fst p)"

lemma advances_refl [simp]: "advances p p"
  by (simp add: advances_def)

lemma advances_trans: "advances p q \<Longrightarrow> advances q t \<Longrightarrow> advances p t"
  by (auto simp: advances_def)

lemma matches_rel_advances: "matches_rel r p q \<Longrightarrow> advances p q"
  by (induction rule: matches_rel.induct) (auto simp: advances_def)

lemma star_iter_sound:
  assumes "\<And>p q. q \<in> set (f p) \<Longrightarrow> matches_rel r p q"
  shows "q \<in> set (star_iter f n p) \<Longrightarrow> matches_rel (Star r) p q"
  by (induction n arbitrary: p) (auto intro: assms rel_Star0 rel_Star1)

lemma matches_sound: "q \<in> set (matches r p) \<Longrightarrow> matches_rel r p q"
proof (induction r arbitrary: p q)
  case (Sym P)
  then show ?case
    by (cases p) (auto split: list.splits if_splits intro: rel_Sym)
next
  case (Star r)
  from Star.prems have "q \<in> set (star_iter (matches r) (length (snd p)) p)" by simp
  then show ?case by (rule star_iter_sound [rotated]) (rule Star.IH)
next
  case Bol
  then show ?case by (cases p) (auto split: if_splits intro: rel_Bol)
next
  case Eol
  then show ?case by (cases p) (auto split: if_splits intro: rel_Eol)
next
  case (Seq r s)
  from Seq.prems obtain x where "x \<in> set (matches r p)" "q \<in> set (matches s x)" by auto
  with Seq.IH show ?case by (blast intro: rel_Seq)
qed (auto split: if_splits intro: matches_rel.intros)

lemma star_iter_complete:
  assumes "matches_rel r' p q" and "r' = Star r"
    and "\<And>p q. matches_rel r p q \<Longrightarrow> q \<in> set (f p)"
  shows "length (snd p) \<le> n \<Longrightarrow> q \<in> set (star_iter f n p)"
  using assms(1,2)
proof (induction arbitrary: n rule: matches_rel.induct)
  case (rel_Star0 r' p)
  show ?case by (cases n) auto
next
  case (rel_Star1 r' p q t)
  then obtain m where n: "n = Suc m" by (cases n) auto
  with rel_Star1 have "t \<in> set (star_iter f m q)" by simp
  moreover from rel_Star1 assms(3) have "q \<in> set (f p)" by simp
  ultimately show ?case using n rel_Star1.hyps(2) by (auto intro!: bexI [of _ q])
qed simp_all

lemma matches_complete: "matches_rel r p q \<Longrightarrow> q \<in> set (matches r p)"
proof (induction r arbitrary: p q)
  case (Seq r s)
  then show ?case by fastforce
next
  case (Star r)
  then show ?case by (auto intro: star_iter_complete)
qed auto

lemma set_matches: "set (matches r p) = {q. matches_rel r p q}"
  by (auto dest: matches_sound matches_complete)

lemma matches_Nil_iff: "matches r p = [] \<longleftrightarrow> (\<nexists>q. matches_rel r p q)"
proof -
  have "matches r p = [] \<longleftrightarrow> set (matches r p) = {}" by simp
  then show ?thesis by (simp only: set_matches) blast
qed

lemma match_at_None: "match_at r p = None \<longleftrightarrow> (\<nexists>q. matches_rel r p q)"
proof -
  have "match_at r p = None \<longleftrightarrow> matches r p = []" by (simp add: match_at_def split: list.split)
  then show ?thesis by (simp only: matches_Nil_iff)
qed

lemma match_at_Some: "match_at r p = Some q \<Longrightarrow> matches_rel r p q"
  by (auto simp: match_at_def split: list.splits intro: matches_sound)

text \<open>Searching: a position of the text, given as a split of it.\<close>

lemma search_from_None:
  "search_from r b a = None \<longleftrightarrow> (\<forall>u v. a = u @ v \<longrightarrow> (\<nexists>q. matches_rel r (rev u @ b, v) q))"
proof (induction a arbitrary: b)
  case Nil
  then show ?case by (simp add: match_at_None)
next
  case (Cons c cs)
  show ?case
  proof (cases "match_at r (b, c # cs)")
    case None
    then have "\<nexists>q. matches_rel r (b, c # cs) q" by (simp add: match_at_None)
    with None show ?thesis by (simp add: all_splits_Cons Cons.IH)
  next
    case (Some q)
    then have "matches_rel r (b, c # cs) q" by (rule match_at_Some)
    with Some show ?thesis by (simp add: all_splits_Cons) blast
  qed
qed

lemma re_search_iff:
  "re_search r s \<longleftrightarrow> (\<exists>u v q. s = u @ v \<and> matches_rel r (rev u, v) q)"
  using search_from_None [of r "[]" s] by (auto simp: re_search_def)

lemma re_match_iff: "re_match r s \<longleftrightarrow> (\<exists>q. matches_rel r ([], s) q)"
  by (simp add: re_match_def matches_Nil_iff)

text \<open>Literals and character classes.\<close>

lemma matches_rel_lit:
  "matches_rel (lit w) (b, a) q \<longleftrightarrow> (\<exists>v. a = w @ v \<and> q = (rev w @ b, v))"
proof (induction w arbitrary: b a q)
  case Nil
  show ?case by (auto intro: rel_Eps)
next
  case (Cons c w)
  show ?case
    by (auto simp: rel_Seq_iff chr_def rel_Sym_iff Cons)
qed

lemma matches_rel_lit_i:
  "matches_rel (lit_i w) (b, a) q \<longleftrightarrow>
     (\<exists>u v. a = u @ v \<and> lower u = w \<and> q = (rev u @ b, v))"
proof (induction w arbitrary: b a q)
  case Nil
  show ?case by (auto simp: lower_def intro: rel_Eps)
next
  case (Cons c w)
  have "matches_rel (lit_i (c # w)) (b, a) q \<longleftrightarrow>
      (\<exists>d ds. a = d # ds \<and> lower_char d = c \<and> matches_rel (lit_i w) (d # b, ds) q)"
    by (auto simp: rel_Seq_iff chr_i_def rel_Sym_iff)
  also have "\<dots> \<longleftrightarrow> (\<exists>u v. a = u @ v \<and> lower u = c # w \<and> q = (rev u @ b, v))"
    unfolding Cons by (force simp: lower_def Cons_eq_map_conv)
  finally show ?case .
qed

lemma matches_rel_alts:
  "matches_rel (alts rs) p q \<longleftrightarrow> (\<exists>r \<in> set rs. matches_rel r p q)"
  by (induction rs rule: alts.induct) (auto simp: rel_Alt_iff rel_Sym_iff)

lemma matches_rel_Star_Sym:
  "matches_rel (Star (Sym P)) (b, a) q \<longleftrightarrow>
     (\<exists>u v. a = u @ v \<and> list_all P u \<and> q = (rev u @ b, v))"
proof
  assume "matches_rel (Star (Sym P)) (b, a) q"
  moreover have "matches_rel r p q \<Longrightarrow> r = Star (Sym P) \<Longrightarrow>
      \<exists>u v. snd p = u @ v \<and> list_all P u \<and> q = (rev u @ fst p, v)" for r p q
  proof (induction rule: matches_rel.induct)
    case (rel_Star0 r p)
    show ?case by (rule exI [of _ "[]"]) (cases p, simp)
  next
    case (rel_Star1 r p q t)
    then obtain c where "P c" and p: "snd p = c # snd q" and q: "fst q = c # fst p"
      by auto
    from rel_Star1 obtain u v where "snd q = u @ v" "list_all P u" "t = (rev u @ fst q, v)"
      by auto
    with \<open>P c\<close> p q show ?case by (intro exI [of _ "c # u"] exI [of _ v]) simp
  qed simp_all
  ultimately show "\<exists>u v. a = u @ v \<and> list_all P u \<and> q = (rev u @ b, v)"
    by fastforce
next
  assume "\<exists>u v. a = u @ v \<and> list_all P u \<and> q = (rev u @ b, v)"
  then obtain u v where "a = u @ v" "list_all P u" and q: "q = (rev u @ b, v)" by blast
  then show "matches_rel (Star (Sym P)) (b, a) q"
    unfolding q
  proof (induction u arbitrary: a b)
    case Nil
    then show ?case by (auto intro: rel_Star0)
  next
    case (Cons c u)
    then have "matches_rel (Sym P) (b, c # u @ v) (c # b, u @ v)"
      and "matches_rel (Star (Sym P)) (c # b, u @ v) (rev u @ c # b, v)"
      by (auto intro: rel_Sym)
    with Cons.prems show ?case by (auto intro!: rel_Star1 [where q = "(c # b, u @ v)"] rel_Sym)
  qed
qed

lemma matches_rel_plus_Sym:
  "matches_rel (re_plus (Sym P)) (b, a) q \<longleftrightarrow>
     (\<exists>u v. u \<noteq> [] \<and> a = u @ v \<and> list_all P u \<and> q = (rev u @ b, v))"
  (is "?L = ?R")
proof -
  have "?L \<longleftrightarrow> (\<exists>c cs u v. a = c # cs \<and> P c \<and> cs = u @ v \<and> list_all P u \<and> q = (rev u @ c # b, v))"
    by (auto simp: re_plus_def rel_Seq_iff rel_Sym_iff matches_rel_Star_Sym)
  also have "\<dots> \<longleftrightarrow> ?R"
    by (safe; force simp: neq_Nil_conv)
  finally show ?thesis .
qed

text \<open>The capturing search finds a group exactly when the whole pattern can match.\<close>

lemma first_group_None:
  "first_group g us = None \<longleftrightarrow> (\<forall>u \<in> set us. \<nexists>q. matches_rel g u q)"
proof (induction us)
  case (Cons u us)
  then show ?case
  proof (cases "match_at g u")
    case None
    then have "\<nexists>q. matches_rel g u q" by (simp add: match_at_None)
    with None Cons show ?thesis by simp
  next
    case (Some q)
    then have "matches_rel g u q" by (rule match_at_Some)
    with Some show ?thesis by (simp, blast)
  qed
qed simp

lemma first_group_Some:
  "first_group g us = Some t \<Longrightarrow> \<exists>u \<in> set us. \<exists>q. matches_rel g u q \<and> t = span_text u q"
  by (induction us) (auto split: option.splits dest: match_at_Some)

lemma search_group_from_Some:
  "search_group_from p g b a = Some t \<Longrightarrow>
     \<exists>u v x q. a = u @ v \<and> matches_rel p (rev u @ b, v) x \<and> matches_rel g x q \<and> t = span_text x q"
proof (induction a arbitrary: b)
  case Nil
  then show ?case
    by (fastforce dest: first_group_Some simp: set_matches)
next
  case (Cons c cs)
  show ?case
  proof (cases "first_group g (matches p (b, c # cs))")
    case None
    with Cons.prems have "search_group_from p g (c # b) cs = Some t" by simp
    from Cons.IH [OF this] obtain u v x q where
      "cs = u @ v" "matches_rel p (rev u @ c # b, v) x" "matches_rel g x q" "t = span_text x q"
      by blast
    then show ?thesis by (intro exI [of _ "c # u"] exI [of _ v] exI [of _ x] exI [of _ q]) simp
  next
    case (Some t')
    with Cons.prems obtain x q where "matches_rel p (b, c # cs) x" "matches_rel g x q" "t = span_text x q"
      by (auto dest!: first_group_Some simp: set_matches)
    then show ?thesis by (intro exI [of _ "[]"] exI [of _ "c # cs"] exI [of _ x] exI [of _ q]) simp
  qed
qed

lemma search_group_from_None:
  "search_group_from p g b a = None \<longleftrightarrow>
     (\<forall>u v. a = u @ v \<longrightarrow> (\<nexists>q. matches_rel (Seq p g) (rev u @ b, v) q))"
proof (induction a arbitrary: b)
  case Nil
  show ?case by (auto simp: first_group_None set_matches rel_Seq_iff)
next
  case (Cons c cs)
  have "first_group g (matches p (b, c # cs)) = None \<longleftrightarrow> (\<nexists>q. matches_rel (Seq p g) (b, c # cs) q)"
    by (auto simp: first_group_None set_matches rel_Seq_iff)
  then show ?case
  proof (cases "first_group g (matches p (b, c # cs))")
    case None
    with \<open>(first_group g _ = None) = _\<close> show ?thesis by (simp add: all_splits_Cons Cons.IH)
  next
    case (Some t)
    with \<open>(first_group g _ = None) = _\<close> show ?thesis by (simp add: all_splits_Cons)
  qed
qed

end
