(* ===== verification/Host.thy ===== *)
theory Host
  imports Py_Regex
begin

text \<open>
  The exception hierarchy (\<^verbatim>\<open>errors.py\<close>), external commands (\<^verbatim>\<open>util.py\<close>) and the machine the
  program runs on. The machine is a parameter: a record of the calls the program makes to
  it over an arbitrary type of worlds. Spawning a process, sleeping and reading the clock
  are the only primitives, besides whether a database call made now
  succeeds; everything the program derives from them is defined here and in
  the components.

  An operation with effects is a function from a world to a result and a new world; the
  result is an exception or a value. An exception keeps the effects made before it.
\<close>

section \<open>Exceptions\<close>

datatype external_kind = Timeout | Unavailable | PermissionDenied | CommandFailed

text \<open>
  \<open>NixadminError\<close> is the base class raised directly; \<open>Foreign\<close> stands for any exception
  outside the hierarchy, with its class name and text.
\<close>

datatype exn =
    NixadminError pystr
  | ConfigError pystr
  | ProtocolError pystr
  | ModuleError pystr
  | BackendError pystr
  | SafetyError pystr
  | ExternalProcessError external_kind "pystr list" "int option" pystr
  | Foreign pystr pystr

fun is_nixadmin :: "exn \<Rightarrow> bool" where
  "is_nixadmin (Foreign cls msg) = False"
| "is_nixadmin _ = True"

definition show_opt_int :: "int option \<Rightarrow> pystr" where
  "show_opt_int x = (case x of None \<Rightarrow> ''None'' | Some i \<Rightarrow> show_int i)"

definition external_message :: "external_kind \<Rightarrow> pystr list \<Rightarrow> int option \<Rightarrow> pystr \<Rightarrow> pystr" where
  "external_message kind command exit_code detail =
     (let label = (case command of [] \<Rightarrow> ''command'' | c # _ \<Rightarrow> c);
          message = (case kind of
              Timeout \<Rightarrow> label @ '' timed out''
            | Unavailable \<Rightarrow> label @ '' is unavailable''
            | PermissionDenied \<Rightarrow> ''permission denied running '' @ label
            | CommandFailed \<Rightarrow> label @ '' failed with exit '' @ show_opt_int exit_code)
      in if detail \<noteq> [] then message @ '': '' @ detail else message)"

text \<open>\<^verbatim>\<open>str(e)\<close>.\<close>

fun str_exn :: "exn \<Rightarrow> pystr" where
  "str_exn (NixadminError m) = m"
| "str_exn (ConfigError m) = m"
| "str_exn (ProtocolError m) = m"
| "str_exn (ModuleError m) = m"
| "str_exn (BackendError m) = m"
| "str_exn (SafetyError m) = m"
| "str_exn (ExternalProcessError k c x d) = external_message k c x d"
| "str_exn (Foreign cls m) = m"

text \<open>The exceptions that are an \<^verbatim>\<open>OSError\<close>.\<close>

definition is_os_error :: "exn \<Rightarrow> bool" where
  "is_os_error e = (case e of Foreign cls msg \<Rightarrow> cls \<in> set [''OSError'', ''TimeoutError'', ''FileNotFoundError'',
       ''PermissionError'', ''ConnectionRefusedError'', ''ConnectionResetError'', ''BrokenPipeError'']
     | _ \<Rightarrow> False)"

fun is_protocol_error :: "exn \<Rightarrow> bool" where
  "is_protocol_error (ProtocolError t) = True"
| "is_protocol_error _ = False"

section \<open>Effects\<close>

type_synonym ('w, 'a) act = "'w \<Rightarrow> (exn + 'a) \<times> 'w"

definition ret :: "'a \<Rightarrow> ('w, 'a) act" where
  "ret x w = (Inr x, w)"

definition raise :: "exn \<Rightarrow> ('w, 'a) act" where
  "raise e w = (Inl e, w)"

definition andthen :: "('w, 'a) act \<Rightarrow> ('a \<Rightarrow> ('w, 'b) act) \<Rightarrow> ('w, 'b) act" where
  "andthen m f w = (case m w of (Inl e, w') \<Rightarrow> (Inl e, w') | (Inr x, w') \<Rightarrow> f x w')"

text \<open>\<^verbatim>\<open>try: m  except NixadminError as e: h(e)\<close>.\<close>

definition try_nixadmin :: "('w, 'a) act \<Rightarrow> (exn \<Rightarrow> ('w, 'a) act) \<Rightarrow> ('w, 'a) act" where
  "try_nixadmin m h w =
     (case m w of
        (Inl e, w') \<Rightarrow> (if is_nixadmin e then h e w' else (Inl e, w'))
      | (Inr x, w') \<Rightarrow> (Inr x, w'))"

lemma act_simps [host_simps]:
  "ret x w = (Inr x, w)"
  "raise e w = (Inl e, w)"
  "andthen (ret x) f = f x"
  "andthen (raise e) f = raise e"
  by (auto simp: ret_def raise_def andthen_def)

lemma andthen_Inr [host_simps]: "m w = (Inr x, w') \<Longrightarrow> andthen m f w = f x w'"
  by (simp add: andthen_def)

lemma andthen_Inl [host_simps]: "m w = (Inl e, w') \<Longrightarrow> andthen m f w = (Inl e, w')"
  by (simp add: andthen_def)

lemma andthen_InrE:
  assumes "andthen m f w = (Inr y, w')"
  obtains x w1 where "m w = (Inr x, w1)" "f x w1 = (Inr y, w')"
  using assms by (auto simp: andthen_def split: prod.splits sum.splits)

lemma andthen_assoc: "andthen (andthen m f) g = andthen m (\<lambda>x. andthen (f x) g)"
  by (auto simp: andthen_def fun_eq_iff split: prod.split sum.split)

lemma try_nixadmin_Inr [host_simps]:
  "m w = (Inr x, w') \<Longrightarrow> try_nixadmin m h w = (Inr x, w')"
  by (simp add: try_nixadmin_def)

lemma try_nixadmin_Inl [host_simps]:
  "m w = (Inl e, w') \<Longrightarrow> try_nixadmin m h w = (if is_nixadmin e then h e w' else (Inl e, w'))"
  by (simp add: try_nixadmin_def)

section \<open>The machine\<close>

text \<open>
  What spawning a command can give: the file is missing, permission is denied, the system
  refuses for another reason, the deadline passes, or the process ends with a return code
  (\<^verbatim>\<open>None\<close> is possible in the type of \<^verbatim>\<open>proc.returncode\<close>) and its decoded output.
\<close>

datatype spawned = NotFound | Denied | SpawnRefused pystr | DeadlineHit | Exited "int option" pystr

record 'w host =
  spawn :: "pystr list \<Rightarrow> real option \<Rightarrow> 'w \<Rightarrow> spawned \<times> 'w"
  kill_group :: "'w \<Rightarrow> 'w"
  sleep :: "real \<Rightarrow> 'w \<Rightarrow> 'w"
  clock :: "'w \<Rightarrow> real"
  db_up :: "'w \<Rightarrow> bool"

definition run :: "'w host \<Rightarrow> pystr list \<Rightarrow> real option \<Rightarrow> ('w, int \<times> pystr) act" where
  "run h cmd deadline_s w =
     (case spawn h cmd deadline_s w of
        (NotFound, w') \<Rightarrow> (Inl (ExternalProcessError Unavailable cmd None []), w')
      | (Denied, w') \<Rightarrow> (Inl (ExternalProcessError PermissionDenied cmd None []), w')
      | (SpawnRefused msg, w') \<Rightarrow> (Inl (Foreign ''OSError'' msg), w')
      | (DeadlineHit, w') \<Rightarrow> (Inl (ExternalProcessError Timeout cmd None []), kill_group h w')
      | (Exited rc out, w') \<Rightarrow> (Inr (the_default 0 rc, out), w'))"

definition last_chars :: "nat \<Rightarrow> pystr \<Rightarrow> pystr" where
  "last_chars n s = drop (length s - n) s"

definition run_checked :: "'w host \<Rightarrow> pystr list \<Rightarrow> real option \<Rightarrow> ('w, pystr) act" where
  "run_checked h cmd deadline_s =
     andthen (run h cmd deadline_s) (\<lambda>(rc, output).
       if rc \<noteq> 0
       then raise (ExternalProcessError CommandFailed cmd (Some rc) (last_chars 1000 (strip output)))
       else ret output)"

lemma run_checked_Inr_iff:
  "run_checked h cmd d w = (Inr out, w') \<longleftrightarrow> run h cmd d w = (Inr (0, out), w')"
  by (auto simp: run_checked_def andthen_def ret_def raise_def split: prod.splits sum.splits if_splits)

lemma run_error_kinds:
  "run h cmd d w = (Inl e, w') \<Longrightarrow>
     e \<in> {ExternalProcessError k cmd None [] |k. True} \<union> {Foreign ''OSError'' m |m. True}"
  by (auto simp: run_def split: prod.splits spawned.splits)


section \<open>A machine given by its answers\<close>

text \<open>
  The machine that answers commands from a list and keeps what it was asked: with an
  arbitrary list it behaves as any machine may over one run, so a statement about every
  script is a statement about every sequence of answers. An exhausted script answers that
  the command is missing.
\<close>

record script =
  answers :: "spawned list"
  issued :: "pystr list list"
  time_now :: real

definition script_spawn :: "pystr list \<Rightarrow> real option \<Rightarrow> script \<Rightarrow> spawned \<times> script" where
  "script_spawn cmd d s =
     (let s' = s\<lparr>issued := issued s @ [cmd], answers := tl (answers s)\<rparr>
      in (if answers s = [] then NotFound else hd (answers s), s'))"

definition script_host :: "script host" where
  "script_host = \<lparr>spawn = script_spawn, kill_group = id,
     sleep = (\<lambda>t s. s\<lparr>time_now := time_now s + t\<rparr>), clock = time_now, db_up = (\<lambda>_. True)\<rparr>"

definition script_of :: "spawned list \<Rightarrow> script" where
  "script_of as = \<lparr>answers = as, issued = [], time_now = 0\<rparr>"

lemma script_host_simps [host_simps]:
  "spawn script_host = script_spawn" "kill_group script_host = id"
  "sleep script_host t s = s\<lparr>time_now := time_now s + t\<rparr>" "clock script_host = time_now"
  "db_up script_host s"
  by (simp_all add: script_host_def)

lemma run_script:
  "run script_host cmd d s = (r, s') \<Longrightarrow>
     s' = s\<lparr>issued := issued s @ [cmd], answers := tl (answers s)\<rparr>"
  by (auto simp: run_def host_simps script_spawn_def Let_def split: spawned.splits if_splits)

end
