(* ===== verification/Py_Json.thy ===== *)
theory Py_Json
  imports Host
begin

text \<open>
  Python's \<^verbatim>\<open>json\<close> module, as the program uses it: \<^verbatim>\<open>json.dumps(x)\<close> with its default
  settings and \<^verbatim>\<open>json.loads(s)\<close>. A \<^verbatim>\<open>dict\<close> is the list of its items in insertion order. The
  parser follows the library's scanner; its fuel is the length of the text, which is enough
  because every value takes at least one character (\<open>loads_dumps\<close> shows that no text the
  printer writes runs out).

  Characters of the alphabet keep their Unicode code point in \<^verbatim>\<open>\u\<close> escapes; an escape for a
  code point outside the alphabet gives the reserved character \<open>other_char\<close>. Floats are
  exact reals; their shortest printed form is a parameter (\<open>frepr\<close>). Not modelled: the
  interpreter's limits on nesting depth and on the number of digits of an integer.
\<close>

datatype json =
    JNull
  | JBool bool
  | JInt int
  | JFloat real
  | JNonFinite pystr
  | JStr pystr
  | JArr "json list"
  | JObj "(pystr \<times> json) list"

text \<open>\<^verbatim>\<open>type(raw).__name__\<close> of a decoded value.\<close>

fun type_name :: "json \<Rightarrow> pystr" where
  "type_name JNull = ''NoneType''"
| "type_name (JBool b) = ''bool''"
| "type_name (JInt i) = ''int''"
| "type_name (JFloat r) = ''float''"
| "type_name (JNonFinite s) = ''float''"
| "type_name (JStr s) = ''str''"
| "type_name (JArr xs) = ''list''"
| "type_name (JObj kvs) = ''dict''"

text \<open>Python's truth value of a decoded JSON value.\<close>

fun truthy :: "json \<Rightarrow> bool" where
  "truthy JNull = False"
| "truthy (JBool b) = b"
| "truthy (JInt i) = (i \<noteq> 0)"
| "truthy (JFloat r) = (r \<noteq> 0)"
| "truthy (JNonFinite s) = True"
| "truthy (JStr s) = (s \<noteq> [])"
| "truthy (JArr xs) = (xs \<noteq> [])"
| "truthy (JObj kvs) = (kvs \<noteq> [])"

text \<open>The error of \<^verbatim>\<open>x.get\<close> on a value that is no dictionary.\<close>

definition no_get :: "json \<Rightarrow> exn" where
  "no_get j = Foreign ''AttributeError'' (py_repr (type_name j) @ '' object has no attribute 'get''@ [CHR 0x27])"

section \<open>Dictionaries\<close>

text \<open>\<^verbatim>\<open>d[k] = v\<close> and \<^verbatim>\<open>d.get(k)\<close> on the list of items.\<close>

fun dict_put :: "'k \<Rightarrow> 'v \<Rightarrow> ('k \<times> 'v) list \<Rightarrow> ('k \<times> 'v) list" where
  "dict_put k v [] = [(k, v)]"
| "dict_put k v ((k', v') # d) = (if k' = k then (k, v) # d else (k', v') # dict_put k v d)"

definition dict_del :: "'k \<Rightarrow> ('k \<times> 'v) list \<Rightarrow> ('k \<times> 'v) list" where
  "dict_del k d = filter (\<lambda>(k', v). k' \<noteq> k) d"

lemma map_of_dict_put: "map_of (dict_put k v d) = (map_of d)(k \<mapsto> v)"
  by (induction k v d rule: dict_put.induct) auto

lemma keys_dict_put: "set (map fst (dict_put k v d)) = insert k (set (map fst d))"
  by (induction k v d rule: dict_put.induct) auto

lemma distinct_dict_put: "distinct (map fst d) \<Longrightarrow> distinct (map fst (dict_put k v d))"
proof (induction k v d rule: dict_put.induct)
  case (2 k v k' v' d)
  then show ?case using keys_dict_put [of k v d] by (auto simp: image_iff)
qed simp

lemma dict_put_new: "k \<notin> fst ` set d \<Longrightarrow> dict_put k v d = d @ [(k, v)]"
  by (induction k v d rule: dict_put.induct) auto

section \<open>Printing\<close>

definition other_char :: char where
  "other_char = CHR 0x81"

definition code_point :: "char \<Rightarrow> nat" where
  "code_point c = (if c = emdash then 0x2014 else if c = endash then 0x2013 else if c = ellipsis then 0x2026
     else if c = ldquote then 0x201C else if c = rdquote then 0x201D else code c)"

definition char_of_point :: "nat \<Rightarrow> char" where
  "char_of_point n = (if n = 0x2014 then emdash else if n = 0x2013 then endash else if n = 0x2026 then ellipsis
     else if n = 0x201C then ldquote else if n = 0x201D then rdquote
     else if n < 256 \<and> n \<notin> {0x97, 0x96, 0x8D, 0x93, 0x94} then char_of n else other_char)"

definition hex4 :: "nat \<Rightarrow> pystr" where
  "hex4 n = [hex_digit (n div 4096 mod 16), hex_digit (n div 256 mod 16),
             hex_digit (n div 16 mod 16), hex_digit (n mod 16)]"

definition quote :: char where "quote = CHR 0x22"
definition backslash :: char where "backslash = CHR 0x5C"

definition escape_char :: "char \<Rightarrow> pystr" where
  "escape_char c =
     (if c = quote then [backslash, quote]
      else if c = backslash then [backslash, backslash]
      else if c = CHR 0x0A then [backslash, CHR ''n'']
      else if c = CHR 0x0D then [backslash, CHR ''r'']
      else if c = CHR 0x09 then [backslash, CHR ''t'']
      else if c = CHR 0x08 then [backslash, CHR ''b'']
      else if c = CHR 0x0C then [backslash, CHR ''f'']
      else if 32 \<le> code c \<and> code c \<le> 126 then [c]
      else backslash # CHR ''u'' # hex4 (code_point c))"

definition dumps_str :: "pystr \<Rightarrow> pystr" where
  "dumps_str s = quote # concat (map escape_char s) @ [quote]"

fun dumps :: "(real \<Rightarrow> pystr) \<Rightarrow> json \<Rightarrow> pystr" where
  "dumps frepr JNull = ''null''"
| "dumps frepr (JBool b) = (if b then ''true'' else ''false'')"
| "dumps frepr (JInt i) = show_int i"
| "dumps frepr (JFloat r) = frepr r"
| "dumps frepr (JNonFinite s) = s"
| "dumps frepr (JStr s) = dumps_str s"
| "dumps frepr (JArr xs) = ''['' @ join '', '' (map (dumps frepr) xs) @ '']''"
| "dumps frepr (JObj kvs) =
     ''{'' @ join '', '' (map (\<lambda>(k, v). dumps_str k @ '': '' @ dumps frepr v) kvs) @ ''}''"

section \<open>Parsing\<close>

definition json_ws :: "char \<Rightarrow> bool" where
  "json_ws c \<longleftrightarrow> c = CHR 0x20 \<or> c = CHR 0x09 \<or> c = CHR 0x0A \<or> c = CHR 0x0D"

definition skip_ws :: "pystr \<Rightarrow> pystr" where
  "skip_ws s = dropWhile json_ws s"

definition hex_value :: "char \<Rightarrow> nat option" where
  "hex_value c = (let n = code c in
     if 48 \<le> n \<and> n \<le> 57 then Some (n - 48)
     else if 97 \<le> n \<and> n \<le> 102 then Some (n - 87)
     else if 65 \<le> n \<and> n \<le> 70 then Some (n - 55)
     else None)"

fun hex4_value :: "pystr \<Rightarrow> (nat \<times> pystr) option" where
  "hex4_value (a # b # c # d # rest) =
     (case (hex_value a, hex_value b, hex_value c, hex_value d) of
        (Some w, Some x, Some y, Some z) \<Rightarrow> Some (w * 4096 + x * 256 + y * 16 + z, rest)
      | _ \<Rightarrow> None)"
| "hex4_value _ = None"

definition simple_escape :: "char \<Rightarrow> char option" where
  "simple_escape c =
     (if c = quote then Some quote else if c = backslash then Some backslash
      else if c = CHR ''/'' then Some (CHR ''/'')
      else if c = CHR ''b'' then Some (CHR 0x08) else if c = CHR ''f'' then Some (CHR 0x0C)
      else if c = CHR ''n'' then Some (CHR 0x0A) else if c = CHR ''r'' then Some (CHR 0x0D)
      else if c = CHR ''t'' then Some (CHR 0x09) else None)"

text \<open>
  The low half of a surrogate pair behind a high half is part of the same code point.
\<close>

definition skip_low_surrogate :: "nat \<Rightarrow> pystr \<Rightarrow> pystr" where
  "skip_low_surrogate n s =
     (if 0xD800 \<le> n \<and> n \<le> 0xDBFF \<and> startswith [backslash, CHR ''u''] s then
        (case hex4_value (drop 2 s) of
           Some (m, rest) \<Rightarrow> (if 0xDC00 \<le> m \<and> m \<le> 0xDFFF then rest else s)
         | None \<Rightarrow> s)
      else s)"

text \<open>The body of a string, after its opening quote, with the text behind it.\<close>

fun parse_str :: "nat \<Rightarrow> pystr \<Rightarrow> (pystr \<times> pystr) option" where
  "parse_str 0 s = None"
| "parse_str (Suc n) [] = None"
| "parse_str (Suc n) (c # cs) =
     (if c = quote then Some ([], cs)
      else if c = backslash then
        (case cs of
           [] \<Rightarrow> None
         | e # es \<Rightarrow>
             (if e = CHR ''u'' then
                (case hex4_value es of
                   None \<Rightarrow> None
                 | Some (v, rest) \<Rightarrow>
                     map_option (\<lambda>(s, r). (char_of_point v # s, r))
                       (parse_str n (skip_low_surrogate v rest)))
              else (case simple_escape e of
                   None \<Rightarrow> None
                 | Some d \<Rightarrow> map_option (\<lambda>(s, r). (d # s, r)) (parse_str n es))))
      else if code c < 32 then None
      else map_option (\<lambda>(s, r). (c # s, r)) (parse_str n cs))"

definition digits_value :: "pystr \<Rightarrow> int" where
  "digits_value ds = foldl (\<lambda>acc c. acc * 10 + int (code c - 48)) 0 ds"

text \<open>
  The scanner's number pattern: a sign, an integer part without superfluous zeros, then an
  optional fraction and an optional exponent, each taken only when it has a digit.
\<close>

definition split_digits :: "pystr \<Rightarrow> pystr \<times> pystr" where
  "split_digits s = (takeWhile is_digit s, dropWhile is_digit s)"

definition parse_exponent :: "pystr \<Rightarrow> (int \<times> pystr) option" where
  "parse_exponent s = (case s of
       [] \<Rightarrow> None
     | e # es \<Rightarrow>
         (if e = CHR ''e'' \<or> e = CHR ''E'' then
            (let neg = startswith ''-'' es;
                 ds = (if startswith ''-'' es \<or> startswith ''+'' es then tl es else es);
                 (x, rest) = split_digits ds
             in if x = [] then None
                else Some (if neg then - digits_value x else digits_value x, rest))
          else None))"

definition scale10 :: "real \<Rightarrow> int \<Rightarrow> real" where
  "scale10 r e = (if 0 \<le> e then r * 10 ^ nat e else r / 10 ^ nat (- e))"

definition parse_number :: "pystr \<Rightarrow> (json \<times> pystr) option" where
  "parse_number s =
     (let neg = startswith ''-'' s;
          body = (if neg then tl s else s);
          (ip, after_int) =
             (if startswith ''0'' body then (''0'', tl body) else split_digits body);
          sgn = (if neg then -1 else 1 :: int)
      in if ip = [] then None
         else
           (let (frac, after_frac) =
                  (if startswith ''.'' after_int \<and> fst (split_digits (tl after_int)) \<noteq> []
                   then split_digits (tl after_int) else ([], after_int))
            in case parse_exponent after_frac of
                 Some (e, rest) \<Rightarrow>
                   Some (JFloat (scale10 (real_of_int (sgn * digits_value (ip @ frac)))
                                         (e - int (length frac))), rest)
               | None \<Rightarrow>
                   (if frac = [] then Some (JInt (sgn * digits_value ip), after_int)
                    else Some (JFloat (scale10 (real_of_int (sgn * digits_value (ip @ frac)))
                                               (- int (length frac))), after_frac))))"

definition constants :: "(pystr \<times> json) list" where
  "constants = [(''null'', JNull), (''true'', JBool True), (''false'', JBool False),
     (''NaN'', JNonFinite ''NaN''), (''Infinity'', JNonFinite ''Infinity''),
     (''-Infinity'', JNonFinite ''-Infinity'')]"

fun parse_constant :: "(pystr \<times> json) list \<Rightarrow> pystr \<Rightarrow> (json \<times> pystr) option" where
  "parse_constant [] s = None"
| "parse_constant ((w, j) # cs) s =
     (if startswith w s then Some (j, drop (length w) s) else parse_constant cs s)"

text \<open>
  Values. \<open>parse_items\<close> and \<open>parse_members\<close> run behind an element: they expect a comma and
  another element, or the closing bracket.
\<close>

fun parse_value :: "nat \<Rightarrow> pystr \<Rightarrow> (json \<times> pystr) option"
and parse_items :: "nat \<Rightarrow> pystr \<Rightarrow> (json list \<times> pystr) option"
and parse_member :: "nat \<Rightarrow> pystr \<Rightarrow> (pystr \<times> json \<times> pystr) option"
and parse_members :: "nat \<Rightarrow> (pystr \<times> json) list \<Rightarrow> pystr \<Rightarrow> ((pystr \<times> json) list \<times> pystr) option"
where
  "parse_value 0 s = None"
| "parse_value (Suc n) s = (case s of [] \<Rightarrow> None | c # cs \<Rightarrow>
     (if c = quote then map_option (\<lambda>(t, r). (JStr t, r)) (parse_str (Suc (length cs)) cs)
      else if c = CHR ''['' then
        (if startswith '']'' (skip_ws cs) then Some (JArr [], tl (skip_ws cs))
         else (case parse_value n (skip_ws cs) of
             None \<Rightarrow> None
           | Some (x, r) \<Rightarrow> map_option (\<lambda>(xs, r'). (JArr (x # xs), r')) (parse_items n (skip_ws r))))
      else if c = CHR ''{'' then
        (if startswith ''}'' (skip_ws cs) then Some (JObj [], tl (skip_ws cs))
         else (case parse_member n (skip_ws cs) of
             None \<Rightarrow> None
           | Some (k, v, r) \<Rightarrow>
               map_option (\<lambda>(d, r'). (JObj d, r')) (parse_members n [(k, v)] (skip_ws r))))
      else (case parse_constant constants s of
          Some p \<Rightarrow> Some p
        | None \<Rightarrow> parse_number s)))"
| "parse_items 0 s = None"
| "parse_items (Suc n) s = (case s of [] \<Rightarrow> None | c # cs \<Rightarrow>
     (if c = CHR '']'' then Some ([], cs)
      else if c = CHR '','' then
        (case parse_value n (skip_ws cs) of
           None \<Rightarrow> None
         | Some (x, r) \<Rightarrow> map_option (\<lambda>(xs, r'). (x # xs, r')) (parse_items n (skip_ws r)))
      else None))"
| "parse_member 0 s = None"
| "parse_member (Suc n) s = (case s of [] \<Rightarrow> None | c # cs \<Rightarrow>
     (if c = quote then
        (case parse_str (Suc (length cs)) cs of
           None \<Rightarrow> None
         | Some (k, r) \<Rightarrow>
             (if startswith '':'' (skip_ws r) then
                map_option (\<lambda>(v, r'). (k, v, r')) (parse_value n (skip_ws (tl (skip_ws r))))
              else None))
      else None))"
| "parse_members 0 d s = None"
| "parse_members (Suc n) d s = (case s of [] \<Rightarrow> None | c # cs \<Rightarrow>
     (if c = CHR ''}'' then Some (d, cs)
      else if c = CHR '','' then
        (case parse_member n (skip_ws cs) of
           None \<Rightarrow> None
         | Some (k, v, r) \<Rightarrow> parse_members n (dict_put k v d) (skip_ws r))
      else None))"

definition loads :: "pystr \<Rightarrow> json option" where
  "loads s =
     (case parse_value (Suc (2 * length s)) (skip_ws s) of
        None \<Rightarrow> None
      | Some (j, r) \<Rightarrow> (if skip_ws r = [] then Some j else None))"

section \<open>What is printed is parsed back\<close>

lemma code_char_of [simp]: "code (char_of n) = n mod 256"
  by (simp add: code_def)

lemma code_less [simp]: "code c < 256"
proof -
  have "code c = code c mod 256" by (simp add: code_def)
  then show ?thesis by (metis mod_less_divisor zero_less_numeral)
qed

lemma char_of_code [simp]: "char_of (code c) = c"
  by (simp add: code_def)

lemma code_inject: "code c = code d \<longleftrightarrow> c = d"
  by (metis char_of_code)

lemma code_neq: "256 \<le> k \<Longrightarrow> code c \<noteq> k"
  using code_less [of c] by linarith

lemma hex_value_digit: "d < 16 \<Longrightarrow> hex_value (hex_digit d) = Some d"
  by (auto simp: hex_value_def hex_digit_def Let_def)

lemma hex4_value_hex4: "n < 65536 \<Longrightarrow> hex4_value (hex4 n @ r) = Some (n, r)"
proof -
  assume "n < 65536"
  then have "n div 4096 < 16" by simp
  moreover have "n div 16 = n div 256 * 16 + n div 16 mod 16" "n div 256 = n div 4096 * 16 + n div 256 mod 16"
    using div_mult_mod_eq [of "n div 16" 16] div_mult_mod_eq [of "n div 256" 16]
    by (simp_all add: div_mult2_eq [symmetric])
  moreover have "n div 16 * 16 + n mod 16 = n" by (rule div_mult_mod_eq)
  ultimately have
    "n div 4096 * 4096 + n div 256 mod 16 * 256 + n div 16 mod 16 * 16 + n mod 16 = n"
    by linarith
  moreover from \<open>n div 4096 < 16\<close> have "n div 4096 mod 16 = n div 4096" "hex_value (hex_digit (n div 4096)) = Some (n div 4096)"
    by (simp_all add: hex_value_digit)
  ultimately show ?thesis by (simp add: hex4_def hex_value_digit)
qed

lemma code_point_bound: "code_point c < 0xD800"
proof -
  have "code c < 0xD800" using code_less [of c] by linarith
  then show ?thesis by (simp add: code_point_def)
qed

lemma char_of_point_code_point: "char_of_point (code_point c) = c"
proof (cases "c \<in> {emdash, endash, ellipsis, ldquote, rdquote}")
  case True
  then show ?thesis by (auto simp: code_point_def char_of_point_def)
next
  case False
  then have p: "code_point c = code c" by (simp add: code_point_def)
  have "code emdash = 0x97" "code endash = 0x96" "code ellipsis = 0x8D" "code ldquote = 0x93" "code rdquote = 0x94"
    by (simp_all add: code_def)
  with False have "code c \<notin> {0x97, 0x96, 0x8D, 0x93, 0x94}" by (metis code_inject insert_iff empty_iff)
  moreover have "code c \<notin> {0x2014, 0x2013, 0x2026, 0x201C, 0x201D}" by (simp add: code_neq)
  ultimately show ?thesis
    unfolding p char_of_point_def by simp
qed

text \<open>Strings: one character of fuel per character of the string.\<close>

lemma parse_str_escape:
  "parse_str (Suc n) (escape_char c @ r) = map_option (\<lambda>(s, t). (c # s, t)) (parse_str n r)"
proof -
  have u: "skip_low_surrogate (code_point c) r = r" for r
    using code_point_bound [of c] by (simp add: skip_low_surrogate_def)
  have b: "code_point c < 65536"
    using code_point_bound [of c] by simp
  consider "c = quote" | "c = backslash" | "c = CHR 0x0A" | "c = CHR 0x0D" | "c = CHR 0x09"
    | "c = CHR 0x08" | "c = CHR 0x0C"
    | "c \<notin> {quote, backslash, CHR 0x0A, CHR 0x0D, CHR 0x09, CHR 0x08, CHR 0x0C}"
    by blast
  then show ?thesis
  proof cases
    case 8
    then show ?thesis
      by (cases "32 \<le> code c \<and> code c \<le> 126")
        (auto simp: escape_char_def hex4_value_hex4 [OF b] u char_of_point_code_point
           quote_def backslash_def)
  qed (auto simp: escape_char_def simple_escape_def quote_def backslash_def)
qed

lemma parse_str_dumps:
  "length s < n \<Longrightarrow> parse_str n (concat (map escape_char s) @ quote # r) = Some (s, r)"
proof (induction s arbitrary: n)
  case Nil
  then show ?case by (cases n) auto
next
  case (Cons c s)
  then obtain m where n: "n = Suc m" "length s < m" by (cases n) auto
  with Cons.IH show ?case by (simp add: parse_str_escape del: parse_str.simps)
qed

lemma length_escape_char: "0 < length (escape_char c)"
  by (simp add: escape_char_def)

lemma length_escaped: "length s \<le> length (concat (map escape_char s))"
proof (induction s)
  case (Cons c s)
  have "Suc 0 \<le> length (escape_char c)" using length_escape_char [of c] by linarith
  with Cons show ?case by (simp only: list.map concat.simps length_append list.size)
qed simp

lemma parse_str_dumps_str:
  "parse_str (Suc (length (concat (map escape_char s) @ quote # r)))
     (concat (map escape_char s) @ quote # r) = Some (s, r)"
  using length_escaped [of s] by (intro parse_str_dumps) simp

text \<open>Integers.\<close>

lemma is_digit_digit_char: "d < 10 \<Longrightarrow> is_digit (digit_char d)"
  by (simp add: is_digit_def digit_char_def)

lemma show_nat_digits: "list_all is_digit (show_nat n)"
proof (induction n rule: show_nat.induct)
  case (1 n)
  then show ?case
    by (subst show_nat.simps) (auto simp: is_digit_digit_char)
qed

lemma show_nat_nonempty: "show_nat n \<noteq> []"
  by (subst show_nat.simps) simp

lemma digits_value_snoc:
  "digits_value (ds @ [c]) = digits_value ds * 10 + int (code c - 48)"
  by (simp add: digits_value_def)

lemma digits_value_show_nat: "digits_value (show_nat n) = int n"
proof (induction n rule: show_nat.induct)
  case (1 n)
  show ?case
  proof (cases "n < 10")
    case True
    then show ?thesis by (subst show_nat.simps) (simp add: digits_value_def digit_char_def)
  next
    case False
    with 1 have "digits_value (show_nat (n div 10)) = int (n div 10)" by simp
    with False show ?thesis
      by (subst show_nat.simps) (simp add: digits_value_snoc digit_char_def zmod_int zdiv_int)
  qed
qed

lemma show_nat_leading_zero: "startswith ''0'' (show_nat n) \<longleftrightarrow> n = 0"
proof (induction n rule: show_nat.induct)
  case (1 n)
  show ?case
  proof (cases "n < 10")
    case True
    have "code (digit_char n) = code CHR ''0'' \<longleftrightarrow> n = 0"
      using True by (simp add: digit_char_def code_def)
    then have "digit_char n = CHR ''0'' \<longleftrightarrow> n = 0" by (metis char_of_code)
    with True show ?thesis by (subst show_nat.simps) (simp add: startswith_def)
  next
    case False
    then have "startswith ''0'' (show_nat n) \<longleftrightarrow> startswith ''0'' (show_nat (n div 10))"
      using show_nat_nonempty [of "n div 10"]
      by (subst show_nat.simps) (cases "show_nat (n div 10)", auto simp: startswith_def)
    with False 1 show ?thesis by simp
  qed
qed

text \<open>The text behind a value: it must not continue a number.\<close>

definition ends_number :: "pystr \<Rightarrow> bool" where
  "ends_number r \<longleftrightarrow>
     (case r of [] \<Rightarrow> True | c # _ \<Rightarrow> \<not> is_digit c \<and> c \<notin> {CHR ''.'', CHR ''e'', CHR ''E''})"

lemma split_digits_append:
  "list_all is_digit ds \<Longrightarrow> ends_number r \<Longrightarrow> split_digits (ds @ r) = (ds, r)"
  by (induction ds) (auto simp: split_digits_def ends_number_def split: list.splits)

lemma ends_number_no_fraction:
  "ends_number r \<Longrightarrow> \<not> startswith ''.'' r" "ends_number r \<Longrightarrow> parse_exponent r = None"
  by (auto simp: ends_number_def startswith_def parse_exponent_def split: list.splits)

lemma parse_number_nat:
  assumes "ends_number r"
  shows "parse_number (show_nat n @ r) = Some (JInt (int n), r)"
proof (cases "n = 0")
  case True
  moreover have "digit_char 0 = CHR ''0''"
    by (simp add: code_inject [symmetric] digit_char_def, simp add: code_def)
  ultimately have "show_nat n = ''0''" by (subst show_nat.simps) simp
  with True ends_number_no_fraction [OF assms] show ?thesis
    by (simp add: parse_number_def startswith_def digits_value_def code_def)
next
  case False
  from show_nat_nonempty [of n] obtain d ds where d: "show_nat n = d # ds" by (cases "show_nat n") auto
  with show_nat_digits [of n] have "is_digit d" by simp
  then have "d \<noteq> CHR ''-''" by (auto simp: is_digit_def code_def)
  moreover from False d show_nat_leading_zero [of n] have "d \<noteq> CHR ''0''"
    by (auto simp: startswith_def)
  ultimately have "\<not> startswith ''-'' (show_nat n @ r)" "\<not> startswith ''0'' (show_nat n @ r)"
    by (auto simp: d startswith_def)
  with split_digits_append [OF show_nat_digits assms, of n] ends_number_no_fraction [OF assms]
    show_nat_nonempty [of n] show ?thesis
    by (simp add: parse_number_def digits_value_show_nat)
qed

lemma parse_number_neg:
  assumes "ends_number r" and "0 < n"
  shows "parse_number (CHR ''-'' # show_nat n @ r) = Some (JInt (- int n), r)"
proof -
  from assms(2) show_nat_leading_zero [of n] show_nat_nonempty [of n]
  have "\<not> startswith ''0'' (show_nat n @ r)"
    by (cases "show_nat n") (auto simp: startswith_def)
  moreover have "startswith ''-'' (CHR ''-'' # show_nat n @ r)" by (simp add: startswith_def)
  ultimately show ?thesis
    using split_digits_append [OF show_nat_digits assms(1), of n] show_nat_nonempty [of n]
      ends_number_no_fraction [OF assms(1)]
    by (simp add: parse_number_def digits_value_show_nat)
qed

lemma parse_value_int:
  assumes "ends_number r"
  shows "parse_value (Suc n) (show_int i @ r) = Some (JInt i, r)"
proof (cases "i < 0")
  case True
  from show_nat_nonempty [of "nat (- i)"] obtain d ds where d: "show_nat (nat (- i)) = d # ds"
    by (cases "show_nat (nat (- i))") auto
  with show_nat_digits [of "nat (- i)"] have "is_digit d" by simp
  then have "d \<noteq> CHR ''I''" by (auto simp: is_digit_def code_def)
  with True d parse_number_neg [OF assms, of "nat (- i)"] show ?thesis
    by (simp add: show_int_def constants_def startswith_def quote_def)
next
  case False
  from show_nat_nonempty [of "nat i"] obtain d ds where d: "show_nat (nat i) = d # ds"
    by (cases "show_nat (nat i)") auto
  with show_nat_digits [of "nat i"] have "is_digit d" by simp
  then have "d \<notin> {quote, CHR ''['', CHR ''{'', CHR ''n'', CHR ''t'', CHR ''f'', CHR ''N'', CHR ''I'', CHR ''-''}"
    by (auto simp: is_digit_def code_def quote_def)
  with False d parse_number_nat [OF assms, of "nat i"] show ?thesis
    by (simp add: show_int_def constants_def startswith_def)
qed

text \<open>
  Values without floats whose dictionaries have distinct keys. A \<^verbatim>\<open>dict\<close> always has distinct
  keys; the program writes no float into the texts it reads back.
\<close>

fun plain :: "json \<Rightarrow> bool" where
  "plain (JFloat r) = False"
| "plain (JNonFinite s) = False"
| "plain (JArr xs) = list_all plain xs"
| "plain (JObj kvs) = (distinct (map fst kvs) \<and> list_all (\<lambda>(k, v). plain v) kvs)"
| "plain j = True"

lemma join_Cons: "join sep (x # xs) = x @ concat (map (\<lambda>y. sep @ y) xs)"
  by (induction xs arbitrary: x) auto

lemma skip_ws_id: "c \<notin> {CHR 0x20, CHR 0x09, CHR 0x0A, CHR 0x0D} \<Longrightarrow> skip_ws (c # s) = c # s"
  by (simp add: skip_ws_def json_ws_def)

lemma skip_ws_space [simp]: "skip_ws (CHR '' '' # s) = skip_ws s"
  by (simp add: skip_ws_def json_ws_def)

lemma show_int_first:
  "\<exists>c cs. show_int i = c # cs \<and> (is_digit c \<or> c = CHR ''-'')"
proof -
  have "\<exists>c cs. show_nat n = c # cs \<and> is_digit c" for n
    using show_nat_nonempty [of n] show_nat_digits [of n] by (cases "show_nat n") auto
  from this [of "nat i"] this [of "nat (- i)"] show ?thesis by (auto simp: show_int_def)
qed

text \<open>No value starts with white space or a closing bracket.\<close>

lemma dumps_first:
  assumes "plain j"
  shows "\<exists>c cs. dumps frepr j = c # cs \<and>
    c \<notin> {CHR 0x20, CHR 0x09, CHR 0x0A, CHR 0x0D, CHR '']'', CHR ''}''}"
proof (cases j)
  case (JInt i)
  with show_int_first [of i] show ?thesis by (auto simp: is_digit_def code_def)
qed (use assms in \<open>auto simp: dumps_str_def quote_def\<close>)

lemma skip_ws_dumps: "plain j \<Longrightarrow> skip_ws (dumps frepr j @ r) = dumps frepr j @ r"
  using dumps_first [of j frepr] by (auto simp: skip_ws_id)

lemma skip_ws_dumps_str: "skip_ws (dumps_str s @ r) = dumps_str s @ r"
  by (simp add: dumps_str_def quote_def skip_ws_id)

definition parses :: "(real \<Rightarrow> pystr) \<Rightarrow> json \<Rightarrow> bool" where
  "parses frepr j \<longleftrightarrow> (\<forall>n r. length (dumps frepr j) \<le> n \<longrightarrow> ends_number r \<longrightarrow>
     parse_value (Suc n) (dumps frepr j @ r) = Some (j, r))"

lemma parse_items_dumps:
  assumes "\<And>x. x \<in> set xs \<Longrightarrow> plain x \<and> parses frepr x"
    and "length (concat (map (\<lambda>y. '', '' @ dumps frepr y) xs)) \<le> n"
  shows "parse_items (Suc n) (concat (map (\<lambda>y. '', '' @ dumps frepr y) xs) @ CHR '']'' # r)
    = Some (xs, r)"
  using assms
proof (induction xs arbitrary: n)
  case Nil
  then show ?case by simp
next
  case (Cons x xs)
  let ?rest = "concat (map (\<lambda>y. '', '' @ dumps frepr y) xs) @ CHR '']'' # r"
  from Cons.prems(2) obtain m where n: "n = Suc m" by (cases n) auto
  have "ends_number ?rest" by (cases xs) (auto simp: ends_number_def is_digit_def code_def)
  moreover from Cons.prems have x: "plain x" "parses frepr x" by auto
  ultimately have v: "parse_value (Suc m) (dumps frepr x @ ?rest) = Some (x, ?rest)"
    using Cons.prems(2) n by (simp add: parses_def)
  have s: "skip_ws ?rest = ?rest" by (cases xs) (auto simp: skip_ws_id)
  have "length (concat (map (\<lambda>y. '', '' @ dumps frepr y) xs)) \<le> m"
    using Cons.prems(2) n by simp
  with Cons have "parse_items (Suc m) ?rest = Some (xs, r)" by simp
  then show ?case
    using v s n skip_ws_dumps [OF x(1), of frepr ?rest]
    by (simp del: parse_value.simps parse_items.simps add: parse_items.simps(2) [of "Suc m"])
qed

lemma parse_member_dumps:
  assumes "plain v" and "parses frepr v" and "ends_number r"
    and "length (dumps_str k @ '': '' @ dumps frepr v) \<le> n"
  shows "parse_member n (dumps_str k @ '': '' @ dumps frepr v @ r) = Some (k, v, r)"
proof -
  from assms(4) obtain m where n: "n = Suc (Suc m)"
    by (cases n; cases "n - 1") (auto simp: dumps_str_def)
  with assms(4) have "length (dumps frepr v) \<le> m" by (simp add: dumps_str_def)
  with assms(2,3) have v: "parse_value (Suc m) (dumps frepr v @ r) = Some (v, r)"
    by (simp add: parses_def)
  let ?body = "concat (map escape_char k) @ quote # CHR '':'' # CHR '' '' # dumps frepr v @ r"
  have "parse_str (Suc (length ?body)) ?body = Some (k, CHR '':'' # CHR '' '' # dumps frepr v @ r)"
    by (rule parse_str_dumps_str)
  with v n skip_ws_dumps [OF assms(1), of frepr r] show ?thesis
    by (simp add: dumps_str_def skip_ws_id startswith_def
        del: parse_value.simps parse_member.simps add: parse_member.simps(2) [of "Suc m"])
qed

abbreviation member_text :: "(real \<Rightarrow> pystr) \<Rightarrow> pystr \<times> json \<Rightarrow> pystr" where
  "member_text frepr \<equiv> (\<lambda>(k, v). dumps_str k @ '': '' @ dumps frepr v)"

lemma parse_members_dumps:
  assumes "\<And>k v. (k, v) \<in> set kvs \<Longrightarrow> plain v \<and> parses frepr v"
    and "distinct (map fst (d @ kvs))"
    and "length (concat (map (\<lambda>y. '', '' @ member_text frepr y) kvs)) \<le> n"
  shows "parse_members (Suc n) d
      (concat (map (\<lambda>y. '', '' @ member_text frepr y) kvs) @ CHR ''}'' # r) = Some (d @ kvs, r)"
  using assms
proof (induction kvs arbitrary: d n)
  case Nil
  then show ?case by simp
next
  case (Cons kv kvs)
  obtain k v where kv: "kv = (k, v)" by (cases kv)
  let ?rest = "concat (map (\<lambda>y. '', '' @ member_text frepr y) kvs) @ CHR ''}'' # r"
  have e: "ends_number ?rest" by (cases kvs) (auto simp: ends_number_def is_digit_def code_def)
  have s: "skip_ws ?rest = ?rest" by (cases kvs) (auto simp: skip_ws_id)
  from Cons.prems(3) kv obtain m where n: "n = Suc m" by (cases n) auto
  from Cons.prems kv have v: "plain v" "parses frepr v" by auto
  have m: "parse_member n (dumps_str k @ '': '' @ dumps frepr v @ ?rest) = Some (k, v, ?rest)"
    by (rule parse_member_dumps [OF v e]) (use Cons.prems(3) kv in simp)
  have "dict_put k v d = d @ [(k, v)]"
    using Cons.prems(2) kv by (intro dict_put_new) auto
  moreover have "parse_members n (d @ [(k, v)]) ?rest = Some ((d @ [(k, v)]) @ kvs, r)"
    unfolding n using Cons.prems kv n by (intro Cons.IH) auto
  ultimately show ?case
    using m s skip_ws_dumps_str [of k "'': '' @ dumps frepr v @ ?rest"] kv
    by (simp del: parse_members.simps parse_member.simps add: parse_members.simps(2) [of n])
qed

lemma parses_array:
  assumes "\<And>x. x \<in> set xs \<Longrightarrow> plain x \<and> parses frepr x"
  shows "parses frepr (JArr xs)"
proof (cases xs)
  case Nil
  show ?thesis unfolding parses_def Nil
    by (simp add: quote_def skip_ws_id startswith_def)
next
  case (Cons y ys)
  show ?thesis unfolding parses_def
  proof (intro allI impI)
    fix n r
    assume len: "length (dumps frepr (JArr xs)) \<le> n" and "ends_number r"
    let ?rest = "concat (map (\<lambda>y. '', '' @ dumps frepr y) ys) @ CHR '']'' # r"
    from len Cons obtain m where n: "n = Suc m" by (cases n) auto
    from assms Cons have y: "plain y" "parses frepr y" by auto
    have "ends_number ?rest" by (cases ys) (auto simp: ends_number_def is_digit_def code_def)
    with y len n Cons have v: "parse_value (Suc m) (dumps frepr y @ ?rest) = Some (y, ?rest)"
      by (simp add: parses_def join_Cons)
    have i: "parse_items (Suc m) ?rest = Some (ys, r)"
      by (rule parse_items_dumps) (use assms len n Cons in \<open>auto simp: join_Cons comp_def\<close>)
    have s: "skip_ws ?rest = ?rest" by (cases ys) (auto simp: skip_ws_id)
    obtain c cs where c: "dumps frepr y = c # cs" "c \<noteq> CHR '']''"
      using dumps_first [OF y(1), of frepr] by auto
    have "dumps frepr (JArr xs) @ r = CHR ''['' # dumps frepr y @ ?rest"
      by (simp add: Cons join_Cons comp_def)
    moreover have "parse_value (Suc (Suc m)) (CHR ''['' # dumps frepr y @ ?rest) = Some (JArr xs, r)"
      using v i s skip_ws_dumps [OF y(1), of frepr ?rest] c
      by (simp add: Cons quote_def startswith_def
          del: parse_value.simps parse_items.simps add: parse_value.simps(2) [of "Suc m"])
    ultimately show "parse_value (Suc n) (dumps frepr (JArr xs) @ r) = Some (JArr xs, r)"
      by (simp only: n)
  qed
qed

lemma parses_object:
  assumes "\<And>k v. (k, v) \<in> set kvs \<Longrightarrow> plain v \<and> parses frepr v"
    and "distinct (map fst kvs)"
  shows "parses frepr (JObj kvs)"
proof (cases kvs)
  case Nil
  show ?thesis unfolding parses_def Nil
    by (simp add: quote_def skip_ws_id startswith_def)
next
  case (Cons kv ys)
  obtain k v where kv: "kv = (k, v)" by (cases kv)
  show ?thesis unfolding parses_def
  proof (intro allI impI)
    fix n r
    assume len: "length (dumps frepr (JObj kvs)) \<le> n" and "ends_number r"
    let ?rest = "concat (map (\<lambda>y. '', '' @ member_text frepr y) ys) @ CHR ''}'' # r"
    from len Cons kv obtain m where n: "n = Suc m" by (cases n) auto
    from assms Cons kv have v: "plain v" "parses frepr v" by auto
    have e: "ends_number ?rest" by (cases ys) (auto simp: ends_number_def is_digit_def code_def)
    have s: "skip_ws ?rest = ?rest" by (cases ys) (auto simp: skip_ws_id)
    have t: "dumps frepr (JObj kvs) = CHR ''{'' # dumps_str k @ '': '' @ dumps frepr v
        @ concat (map (\<lambda>y. '', '' @ member_text frepr y) ys) @ ''}''"
      by (simp add: Cons kv join_Cons comp_def)
    have p: "parse_member (Suc m) (dumps_str k @ '': '' @ dumps frepr v @ ?rest) = Some (k, v, ?rest)"
      by (rule parse_member_dumps [OF v e]) (use len n t in simp)
    have "parse_members (Suc m) [(k, v)] ?rest = Some ([(k, v)] @ ys, r)"
      by (rule parse_members_dumps) (use assms len n t Cons kv in auto)
    moreover have "dumps frepr (JObj kvs) @ r = CHR ''{'' # dumps_str k @ '': '' @ dumps frepr v @ ?rest"
      by (simp add: t del: dumps.simps)
    ultimately show "parse_value (Suc n) (dumps frepr (JObj kvs) @ r) = Some (JObj kvs, r)"
      using p s skip_ws_dumps_str [of k "'': '' @ dumps frepr v @ ?rest"]
      unfolding n by (simp add: Cons kv quote_def startswith_def dumps_str_def
          del: dumps.simps parse_value.simps parse_member.simps parse_members.simps
          add: parse_value.simps(2) [of "Suc m"])
  qed
qed

lemma parses_plain: "plain j \<Longrightarrow> parses frepr j"
proof (induction j)
  case (JInt i)
  show ?case by (simp add: parses_def parse_value_int del: parse_value.simps)
next
  case (JStr s)
  show ?case
    using parse_str_dumps_str [simplified]
    by (simp add: parses_def dumps_str_def del: parse_str.simps)
next
  case (JArr xs)
  then show ?case by (intro parses_array) (auto simp: list_all_iff)
next
  case (JObj kvs)
  then show ?case by (intro parses_object) (fastforce simp: list_all_iff)+
next
  case (JBool b)
  show ?case by (simp add: parses_def quote_def constants_def startswith_def)
qed (simp_all add: parses_def quote_def constants_def startswith_def)

lemma loads_dumps: "plain j \<Longrightarrow> loads (dumps frepr j) = Some j"
proof -
  assume p: "plain j"
  have "parse_value (Suc (2 * length (dumps frepr j))) (dumps frepr j @ []) = Some (j, [])"
    by (rule parses_plain [OF p, of frepr, unfolded parses_def, rule_format])
      (simp_all add: ends_number_def)
  with skip_ws_dumps [OF p, of frepr "[]"] show ?thesis
    by (simp add: loads_def skip_ws_def)
qed

text \<open>The printed text is one line of printable ASCII, whatever the value holds.\<close>

lemma hex_digit_ascii: "32 \<le> code (hex_digit (n mod 16)) \<and> code (hex_digit (n mod 16)) \<le> 126"
proof -
  have "n mod 16 < 16" by simp
  then show ?thesis by (auto simp: hex_digit_def)
qed

lemma escape_char_ascii: "d \<in> set (escape_char c) \<Longrightarrow> 32 \<le> code d \<and> code d \<le> 126"
  using hex_digit_ascii
  by (auto simp: escape_char_def hex4_def quote_def backslash_def code_def split: if_splits)

end
