(* ===== verification/Store.thy ===== *)
theory Store
  imports Py_Json
begin

text \<open>
  \<^verbatim>\<open>store.py\<close>: the persistent event timeline. The table \<^verbatim>\<open>events\<close> is the list of its rows in
  insertion order with the last id handed out (\<^verbatim>\<open>AUTOINCREMENT\<close> never reuses one). What
  SQLite does for the statements the program sends (insert, filtered select with an order
  and a limit, minimum, delete) is written out on that list. A call can meet an SQLite
  error; whether it does is an argument (\<open>db_ok\<close>), and the code's reaction is modelled.

  Floats are exact reals. Metadata is stored as JSON text and decoded on every read.
\<close>

record event =
  ev_id :: int
  ev_ts :: real
  ev_kind :: pystr
  ev_unit :: "pystr option"
  ev_scope :: "pystr option"
  ev_severity :: "pystr option"
  ev_text :: pystr
  ev_meta :: "(pystr \<times> json) list"

text \<open>A row as stored: the metadata column holds text.\<close>

record row =
  row_id :: int
  row_ts :: real
  row_kind :: pystr
  row_unit :: "pystr option"
  row_scope :: "pystr option"
  row_severity :: "pystr option"
  row_text :: pystr
  row_meta :: "pystr option"

record event_db =
  rows :: "row list"
  last_id :: int
  closed :: bool

definition empty_db :: event_db where
  "empty_db = \<lparr>rows = [], last_id = 0, closed = False\<rparr>"

text \<open>What a caller of \<^verbatim>\<open>append\<close> gives, its optional arguments included.\<close>

record new_event =
  new_kind :: pystr
  new_unit :: "pystr option"
  new_scope :: "pystr option"
  new_severity :: "pystr option"
  new_text :: pystr
  new_meta :: "(pystr \<times> json) list option"

section \<open>The two backends\<close>

text \<open>No value the daemon stores as metadata holds a float, so the float printer is idle.\<close>

definition meta_text :: "(pystr \<times> json) list option \<Rightarrow> pystr option" where
  "meta_text m = (case m of None \<Rightarrow> None
     | Some kvs \<Rightarrow> (if kvs = [] then None else Some (dumps (\<lambda>_. []) (JObj kvs))))"

definition insert_row :: "real \<Rightarrow> new_event \<Rightarrow> pystr option \<Rightarrow> event_db \<Rightarrow> int \<times> event_db" where
  "insert_row ts e meta_json db =
     (let i = last_id db + 1
      in (i, db\<lparr>rows := rows db @ [\<lparr>row_id = i, row_ts = ts, row_kind = new_kind e,
                row_unit = new_unit e, row_scope = new_scope e, row_severity = new_severity e,
                row_text = new_text e, row_meta = meta_json\<rparr>], last_id := i\<rparr>))"

definition append_event :: "bool \<Rightarrow> real \<Rightarrow> new_event \<Rightarrow> event_db \<Rightarrow> int \<times> event_db" where
  "append_event db_ok ts e db =
     (if closed db then (0, db)
      else if db_ok then insert_row ts e (meta_text (new_meta e)) db
      else (0, db))"

record query =
  q_unit :: "pystr option"
  q_kind :: "pystr option"
  q_since :: "real option"
  q_before :: "int option"

definition any_event :: query where
  "any_event = \<lparr>q_unit = None, q_kind = None, q_since = None, q_before = None\<rparr>"

text \<open>The \<^verbatim>\<open>WHERE\<close> clause. A comparison with a \<^verbatim>\<open>NULL\<close> column does not select the row.\<close>

definition selects :: "query \<Rightarrow> row \<Rightarrow> bool" where
  "selects q r \<longleftrightarrow>
     (case q_unit q of None \<Rightarrow> True | Some u \<Rightarrow> row_unit r = Some u) \<and>
     (case q_kind q of None \<Rightarrow> True | Some k \<Rightarrow> row_kind r = k) \<and>
     (case q_since q of None \<Rightarrow> True | Some t \<Rightarrow> t \<le> row_ts r) \<and>
     (case q_before q of None \<Rightarrow> True | Some i \<Rightarrow> row_id r < i)"

text \<open>\<^verbatim>\<open>ORDER BY ts DESC, id DESC\<close>: insertion into a list sorted by that order.\<close>

definition newer :: "row \<Rightarrow> row \<Rightarrow> bool" where
  "newer a b \<longleftrightarrow> row_ts b < row_ts a \<or> (row_ts a = row_ts b \<and> row_id b < row_id a)"

fun insert_newest :: "row \<Rightarrow> row list \<Rightarrow> row list" where
  "insert_newest r [] = [r]"
| "insert_newest r (x # xs) = (if newer x r then x # insert_newest r xs else r # x # xs)"

fun order_newest :: "row list \<Rightarrow> row list" where
  "order_newest [] = []"
| "order_newest (r # rs) = insert_newest r (order_newest rs)"

definition clamp_limit :: "int \<Rightarrow> int" where
  "clamp_limit limit = max 1 (min limit 1000)"

text \<open>\<^verbatim>\<open>_row\<close>: metadata that is no JSON object reads as the empty dictionary.\<close>

definition decode_meta :: "pystr option \<Rightarrow> (pystr \<times> json) list" where
  "decode_meta raw = (case raw of None \<Rightarrow> []
     | Some s \<Rightarrow> (if s = [] then []
         else (case loads s of Some (JObj kvs) \<Rightarrow> kvs | _ \<Rightarrow> [])))"

definition decode_row :: "row \<Rightarrow> event" where
  "decode_row r = \<lparr>ev_id = row_id r, ev_ts = row_ts r, ev_kind = row_kind r, ev_unit = row_unit r,
     ev_scope = row_scope r, ev_severity = row_severity r, ev_text = row_text r,
     ev_meta = decode_meta (row_meta r)\<rparr>"

definition query_rows :: "int \<Rightarrow> query \<Rightarrow> event_db \<Rightarrow> event list" where
  "query_rows limit q db =
     map decode_row (take (nat (clamp_limit limit)) (order_newest (filter (selects q) (rows db))))"

definition recent :: "bool \<Rightarrow> int \<Rightarrow> query \<Rightarrow> event_db \<Rightarrow> event list" where
  "recent db_ok limit q db =
     (if closed db then [] else if db_ok then query_rows limit q db else [])"

fun min_ts :: "row list \<Rightarrow> real option" where
  "min_ts [] = None"
| "min_ts (r # rs) = (case min_ts rs of None \<Rightarrow> Some (row_ts r) | Some t \<Rightarrow> Some (min (row_ts r) t))"

definition earliest :: "bool \<Rightarrow> event_db \<Rightarrow> real option" where
  "earliest db_ok db =
     (if closed db then None else if db_ok then min_ts (rows db) else None)"

definition prune :: "bool \<Rightarrow> real \<Rightarrow> event_db \<Rightarrow> int \<times> event_db" where
  "prune db_ok before db =
     (if closed db then (0, db)
      else if db_ok then
        (int (length (filter (\<lambda>r. row_ts r < before) (rows db))),
         db\<lparr>rows := filter (\<lambda>r. \<not> row_ts r < before) (rows db)\<rparr>)
      else (0, db))"

definition close_db :: "event_db \<Rightarrow> event_db" where
  "close_db db = db\<lparr>closed := True\<rparr>"

text \<open>The daemon's store is one of the two backends.\<close>

datatype store = NullStore | EventStore event_db

definition st_append :: "bool \<Rightarrow> real \<Rightarrow> new_event \<Rightarrow> store \<Rightarrow> int \<times> store" where
  "st_append db_ok ts e st = (case st of
       NullStore \<Rightarrow> (0, NullStore)
     | EventStore db \<Rightarrow> (let (i, db') = append_event db_ok ts e db in (i, EventStore db')))"

definition st_recent :: "bool \<Rightarrow> int \<Rightarrow> query \<Rightarrow> store \<Rightarrow> event list" where
  "st_recent db_ok limit q st = (case st of
       NullStore \<Rightarrow> [] | EventStore db \<Rightarrow> recent db_ok limit q db)"

definition st_earliest :: "bool \<Rightarrow> store \<Rightarrow> real option" where
  "st_earliest db_ok st = (case st of
       NullStore \<Rightarrow> None | EventStore db \<Rightarrow> earliest db_ok db)"

definition st_prune :: "bool \<Rightarrow> real \<Rightarrow> store \<Rightarrow> int \<times> store" where
  "st_prune db_ok before st = (case st of
       NullStore \<Rightarrow> (0, NullStore)
     | EventStore db \<Rightarrow> (let (n, db') = prune db_ok before db in (n, EventStore db')))"

text \<open>
  \<^verbatim>\<open>EventStore.__init__\<close> on a database file: its schema version and the table found there
  (empty in a new file, which has version 0).
\<close>

definition SCHEMA_VERSION :: int where
  "SCHEMA_VERSION = 1"

definition open_event_store :: "int \<Rightarrow> event_db \<Rightarrow> exn + event_db" where
  "open_event_store version db =
     (if SCHEMA_VERSION < version then
        Inl (ConfigError (''event store schema v'' @ show_int version
              @ '' is newer than supported v'' @ show_int SCHEMA_VERSION))
      else Inr (db\<lparr>closed := False\<rparr>))"

definition make_store :: "pystr \<Rightarrow> int \<Rightarrow> event_db \<Rightarrow> exn + store" where
  "make_store kind version db =
     (if kind = ''null'' then Inr NullStore
      else if kind = ''sqlite'' then map_sum id EventStore (open_event_store version db)
      else Inl (ConfigError (''unknown event store backend: '' @ py_repr kind)))"

section \<open>The table\<close>

text \<open>Ids grow along the table and none exceeds the last one handed out.\<close>

definition ids_grow :: "event_db \<Rightarrow> bool" where
  "ids_grow db \<longleftrightarrow> sorted_wrt (<) (map row_id (rows db)) \<and>
     (\<forall>r \<in> set (rows db). 0 < row_id r \<and> row_id r \<le> last_id db) \<and> 0 \<le> last_id db"

definition store_ok :: "store \<Rightarrow> bool" where
  "store_ok st = (case st of NullStore \<Rightarrow> True | EventStore db \<Rightarrow> ids_grow db)"

lemma ids_grow_insert_row: "ids_grow db \<Longrightarrow> ids_grow (snd (insert_row ts e m db))"
  by (force simp: ids_grow_def insert_row_def Let_def sorted_wrt_append)

lemma ids_grow_append_event [step_intros]: "ids_grow db \<Longrightarrow> ids_grow (snd (append_event b ts e db))"
  by (simp add: append_event_def ids_grow_insert_row)

lemma ids_grow_prune [step_intros]: "ids_grow db \<Longrightarrow> ids_grow (snd (prune b t db))"
  by (auto simp: ids_grow_def prune_def sorted_wrt_map intro: sorted_wrt_filter_pred)

lemma ids_grow_close [step_intros]: "ids_grow db \<Longrightarrow> ids_grow (close_db db)"
  by (simp add: ids_grow_def close_db_def)

lemma store_ok_append [step_intros]: "store_ok st \<Longrightarrow> store_ok (snd (st_append b ts e st))"
  by (auto simp: store_ok_def st_append_def Let_def split: store.splits prod.splits
      dest: ids_grow_append_event [of _ b ts e])

lemma store_ok_prune [step_intros]: "store_ok st \<Longrightarrow> store_ok (snd (st_prune b t st))"
  by (auto simp: store_ok_def st_prune_def Let_def split: store.splits prod.splits
      dest: ids_grow_prune [of _ b t])

section \<open>Newest first\<close>

lemma set_insert_newest [simp]: "set (insert_newest r rs) = insert r (set rs)"
  by (induction rs) auto

lemma set_order_newest [simp]: "set (order_newest rs) = set rs"
  by (induction rs) auto

lemma length_insert_newest [simp]: "length (insert_newest r rs) = Suc (length rs)"
  by (induction rs) auto

lemma length_order_newest [simp]: "length (order_newest rs) = length rs"
  by (induction rs) auto

lemma newer_trans: "newer a b \<Longrightarrow> newer b c \<Longrightarrow> newer a c"
  by (auto simp: newer_def)

lemma newer_total: "row_id a \<noteq> row_id b \<Longrightarrow> newer a b \<or> newer b a"
  by (auto simp: newer_def)

lemma sorted_insert_newest:
  "sorted_wrt newer rs \<Longrightarrow> (\<And>x. x \<in> set rs \<Longrightarrow> row_id x \<noteq> row_id r) \<Longrightarrow>
     sorted_wrt newer (insert_newest r rs)"
proof (induction rs)
  case (Cons x rs)
  show ?case
  proof (cases "newer x r")
    case True
    with Cons show ?thesis by auto
  next
    case False
    with Cons.prems(2) have "newer r x" using newer_total by fastforce
    with False Cons.prems(1) show ?thesis by (auto intro: newer_trans)
  qed
qed simp

lemma sorted_order_newest: "distinct (map row_id rs) \<Longrightarrow> sorted_wrt newer (order_newest rs)"
proof (induction rs)
  case (Cons r rs)
  then have "row_id x \<noteq> row_id r" if "x \<in> set rs" for x
    using that by (metis distinct.simps(2) image_eqI list.set_map list.simps(9))
  with Cons show ?case by (auto intro!: sorted_insert_newest)
qed simp

lemma distinct_ids: "ids_grow db \<Longrightarrow> distinct (map row_id (rows db))"
  by (simp add: ids_grow_def strict_sorted_iff)

text \<open>A newest row comes first.\<close>

lemma order_newest_snoc:
  "(\<And>x. x \<in> set rs \<Longrightarrow> newer r x) \<Longrightarrow> order_newest (rs @ [r]) = r # order_newest rs"
proof (induction rs)
  case (Cons y rs)
  then have "\<not> newer y r" and r: "newer r y" by (auto simp: newer_def) force+
  with Cons show ?case by simp
qed simp

section \<open>The contract of a timeline\<close>

text \<open>The filters on an event as a client sees it, and the order of a result.\<close>

definition selects_event :: "query \<Rightarrow> event \<Rightarrow> bool" where
  "selects_event q e \<longleftrightarrow>
     (case q_unit q of None \<Rightarrow> True | Some u \<Rightarrow> ev_unit e = Some u) \<and>
     (case q_kind q of None \<Rightarrow> True | Some k \<Rightarrow> ev_kind e = k) \<and>
     (case q_since q of None \<Rightarrow> True | Some t \<Rightarrow> t \<le> ev_ts e) \<and>
     (case q_before q of None \<Rightarrow> True | Some i \<Rightarrow> ev_id e < i)"

definition newer_event :: "event \<Rightarrow> event \<Rightarrow> bool" where
  "newer_event a b \<longleftrightarrow> ev_ts b < ev_ts a \<or> (ev_ts a = ev_ts b \<and> ev_id b < ev_id a)"

lemma selects_decode [simp]: "selects_event q (decode_row r) = selects q r"
  by (simp add: selects_event_def selects_def decode_row_def split: option.split)

lemma newer_decode [simp]: "newer_event (decode_row a) (decode_row b) = newer a b"
  by (simp add: newer_event_def newer_def decode_row_def)


text \<open>
  What the components that read and write the timeline rely on, whichever backend is
  configured: a read is bounded, selects what was asked for, comes newest first, and a
  larger limit only extends it; a write keeps the store well formed.
\<close>

locale event_timeline =
  fixes add :: "bool \<Rightarrow> real \<Rightarrow> new_event \<Rightarrow> 's \<Rightarrow> int \<times> 's"
    and look :: "bool \<Rightarrow> int \<Rightarrow> query \<Rightarrow> 's \<Rightarrow> event list"
    and ok :: "'s \<Rightarrow> bool"
  assumes look_bound: "length (look b l q s) \<le> nat (clamp_limit l)"
    and look_selected: "e \<in> set (look b l q s) \<Longrightarrow> selects_event q e"
    and look_sorted: "ok s \<Longrightarrow> sorted_wrt newer_event (look b l q s)"
    and look_extends: "l \<le> l' \<Longrightarrow> look b l q s = take (nat (clamp_limit l)) (look b l' q s)"
    and add_ok: "ok s \<Longrightarrow> ok (snd (add b ts ne s))"
begin

lemma look_at_most_1000: "length (look b l q s) \<le> 1000"
  using look_bound [of b l q s] by (simp add: clamp_limit_def)

lemma look_last_oldest:
  "ok s \<Longrightarrow> look b l q s = xs @ [e] \<Longrightarrow> x \<in> set xs \<Longrightarrow> newer_event x e"
  using look_sorted [of s b l q] by (simp add: sorted_wrt_append)

lemma look_below: "q_before q = Some i \<Longrightarrow> e \<in> set (look b l q s) \<Longrightarrow> ev_id e < i"
  using look_selected by (fastforce simp: selects_event_def)

lemma look_of_kind: "q_kind q = Some k \<Longrightarrow> e \<in> set (look b l q s) \<Longrightarrow> ev_kind e = k"
  using look_selected by (fastforce simp: selects_event_def)

lemma look_since: "q_since q = Some t \<Longrightarrow> e \<in> set (look b l q s) \<Longrightarrow> t \<le> ev_ts e"
  using look_selected by (fastforce simp: selects_event_def)

lemma look_of_unit: "q_unit q = Some u \<Longrightarrow> e \<in> set (look b l q s) \<Longrightarrow> ev_unit e = Some u"
  using look_selected by (fastforce simp: selects_event_def)

end

lemma length_query_rows: "length (query_rows l q db) \<le> nat (clamp_limit l)"
  by (simp add: query_rows_def)

lemma query_rows_selected: "e \<in> set (query_rows l q db) \<Longrightarrow> selects_event q e"
  by (auto simp: query_rows_def dest!: in_set_takeD)

lemma query_rows_sorted: "ids_grow db \<Longrightarrow> sorted_wrt newer_event (query_rows l q db)"
  by (auto simp: query_rows_def sorted_wrt_map
      intro!: sorted_wrt_take sorted_order_newest distinct_map_filter distinct_ids)

lemma query_rows_extends:
  "l \<le> l' \<Longrightarrow> query_rows l q db = take (nat (clamp_limit l)) (query_rows l' q db)"
  by (auto simp: query_rows_def take_map clamp_limit_def min_def)

interpretation st: event_timeline st_append st_recent store_ok
proof
  fix b l q s
  show "length (st_recent b l q s) \<le> nat (clamp_limit l)"
    by (cases s) (simp_all add: st_recent_def recent_def length_query_rows)
next
  fix e b l q s
  assume "e \<in> set (st_recent b l q s)"
  then show "selects_event q e"
    by (cases s) (auto simp: st_recent_def recent_def query_rows_selected split: if_splits)
next
  fix s b l q
  assume "store_ok s"
  then show "sorted_wrt newer_event (st_recent b l q s)"
    by (cases s) (auto simp: st_recent_def recent_def store_ok_def query_rows_sorted)
next
  fix l l' :: int and b q s
  assume "l \<le> l'"
  then show "st_recent b l q s = take (nat (clamp_limit l)) (st_recent b l' q s)"
    by (cases s) (auto simp: st_recent_def recent_def query_rows_extends)
qed (rule store_ok_append)

text \<open>Reading everything selected: no event is lost while the page is not full.\<close>

lemma query_rows_complete:
  assumes "r \<in> set (rows db)" and "selects q r"
    and "length (query_rows l q db) < nat (clamp_limit l)"
  shows "decode_row r \<in> set (query_rows l q db)"
proof -
  let ?all = "order_newest (filter (selects q) (rows db))"
  from assms(3) have "length ?all \<le> nat (clamp_limit l)" by (simp add: query_rows_def)
  then have "query_rows l q db = map decode_row ?all" by (simp add: query_rows_def)
  with assms(1,2) show ?thesis by simp
qed

text \<open>On a clock that does not step back the order is the reverse of the table.\<close>

definition ts_monotone :: "event_db \<Rightarrow> bool" where
  "ts_monotone db \<longleftrightarrow> sorted (map row_ts (rows db))"

lemma order_newest_rev:
  "sorted_wrt (\<lambda>a b. newer b a) rs \<Longrightarrow> order_newest rs = rev rs"
  by (induction rs rule: rev_induct) (auto simp: sorted_wrt_append order_newest_snoc)

lemma monotone_newer:
  assumes "ids_grow db" and "ts_monotone db"
  shows "sorted_wrt (\<lambda>a b. newer b a) (rows db)"
proof -
  have "sorted_wrt (\<lambda>a b. row_id a < row_id b) (rows db)"
    using assms(1) by (simp add: ids_grow_def sorted_wrt_map)
  moreover have "sorted_wrt (\<lambda>a b. row_ts a \<le> row_ts b) (rows db)"
    using assms(2) by (simp add: ts_monotone_def sorted_wrt_map)
  ultimately show ?thesis
    by (auto simp: newer_def sorted_wrt_iff_nth_less less_le)
qed

lemma query_rows_monotone:
  assumes "ids_grow db" and "ts_monotone db"
  shows "query_rows l q db =
     map decode_row (take (nat (clamp_limit l)) (rev (filter (selects q) (rows db))))"
  using monotone_newer [OF assms] by (simp add: query_rows_def order_newest_rev sorted_wrt_filter_pred)

section \<open>What was written is what is read\<close>

lemma dumps_nonempty: "dumps f (JObj kvs) \<noteq> []"
  by simp

lemma decode_meta_text:
  "plain (JObj kvs) \<Longrightarrow> decode_meta (meta_text (Some kvs)) = kvs"
  by (simp add: decode_meta_def meta_text_def loads_dumps dumps_nonempty del: plain.simps dumps.simps)

definition event_of :: "int \<Rightarrow> real \<Rightarrow> new_event \<Rightarrow> event" where
  "event_of i ts e = \<lparr>ev_id = i, ev_ts = ts, ev_kind = new_kind e, ev_unit = new_unit e,
     ev_scope = new_scope e, ev_severity = new_severity e, ev_text = new_text e,
     ev_meta = the_default [] (new_meta e)\<rparr>"

definition plain_event :: "new_event \<Rightarrow> bool" where
  "plain_event e \<longleftrightarrow> (case new_meta e of None \<Rightarrow> True | Some kvs \<Rightarrow> plain (JObj kvs))"

lemma decode_meta_event: "plain_event e \<Longrightarrow> decode_meta (meta_text (new_meta e)) = the_default [] (new_meta e)"
  by (cases "new_meta e") (auto simp: plain_event_def decode_meta_text simp del: plain.simps,
      simp add: decode_meta_def meta_text_def)

text \<open>An appended event is the newest one unless the clock stepped back.\<close>

lemma query_after_append:
  assumes "ids_grow db" and "plain_event e" and "\<And>r. r \<in> set (rows db) \<Longrightarrow> row_ts r \<le> ts"
    and "selects_event q (event_of (last_id db + 1) ts e)"
  shows "query_rows l q (snd (insert_row ts e (meta_text (new_meta e)) db)) =
     event_of (last_id db + 1) ts e # take (nat (clamp_limit l) - 1)
        (map decode_row (order_newest (filter (selects q) (rows db))))"
proof -
  let ?r = "\<lparr>row_id = last_id db + 1, row_ts = ts, row_kind = new_kind e, row_unit = new_unit e,
     row_scope = new_scope e, row_severity = new_severity e, row_text = new_text e,
     row_meta = meta_text (new_meta e)\<rparr>"
  have d: "decode_row ?r = event_of (last_id db + 1) ts e"
    using assms(2) by (simp add: decode_row_def event_of_def decode_meta_event)
  then have "selects q ?r" using assms(4) by (metis selects_decode)
  moreover have "newer ?r x" if "x \<in> set (rows db)" for x
    using that assms(1,3) by (fastforce simp: newer_def ids_grow_def)
  then have "order_newest (filter (selects q) (rows db) @ [?r]) =
      ?r # order_newest (filter (selects q) (rows db))"
    by (intro order_newest_snoc) simp
  moreover have "0 < nat (clamp_limit l)" by (simp add: clamp_limit_def)
  ultimately show ?thesis using d
    by (simp add: query_rows_def insert_row_def Let_def take_Cons' take_map)
qed


section \<open>Sequences of calls\<close>

datatype store_call = Append bool real new_event | Prune bool real | Close

fun store_apply :: "event_db \<Rightarrow> store_call \<Rightarrow> event_db" where
  "store_apply db (Append b ts e) = snd (append_event b ts e db)"
| "store_apply db (Prune b t) = snd (prune b t db)"
| "store_apply db Close = close_db db"

interpretation store_machine: event_machine store_apply ids_grow
proof
  fix db c
  assume "ids_grow db"
  then show "ids_grow (store_apply db c)" by (cases c) (auto intro: step_intros)
qed

lemma ids_grow_empty: "ids_grow empty_db"
  by (simp add: ids_grow_def empty_db_def)

section \<open>Properties\<close>

text \<open>
   Over any sequence of appends, prunes and closes on a new timeline, failing ones
  included, the stored ids grow strictly, and the next successful append gets an id above
  every id stored: pruning never makes an id come back.
\<close>

theorem store_ids_never_reused:
  "let db = foldl store_apply empty_db cs; i = fst (append_event True ts e db)
   in sorted_wrt (<) (map row_id (rows db)) \<and> (closed db \<and> i = 0 \<or> list_all (\<lambda>r. row_id r < i) (rows db))"
  using store_machine.inv_events [OF ids_grow_empty, of cs]
  by (fastforce simp: Let_def ids_grow_def append_event_def insert_row_def list_all_iff)

text \<open>
  C28: What a read returns: at most the clamped limit of events, each satisfying every filter
  given, newest first by time and then by id; and when fewer than the limit come back, every
  stored row that satisfies the filters is among them.
\<close>

theorem recent_contract:
  assumes "ids_grow db" and "\<not> closed db"
  shows "length (recent True l q db) \<le> nat (max 1 (min l 1000)) \<and>
     (\<forall>e \<in> set (recent True l q db). selects_event q e) \<and>
     sorted_wrt newer_event (recent True l q db) \<and>
     (length (recent True l q db) = nat (max 1 (min l 1000)) \<or>
      (\<forall>r \<in> set (rows db). \<not> selects q r \<or> decode_row r \<in> set (recent True l q db)))"
proof -
  let ?st = "EventStore db"
  have eq: "st_recent True l q ?st = recent True l q db" "recent True l q db = query_rows l q db"
    using assms(2) by (simp_all add: st_recent_def recent_def)
  have ok: "store_ok ?st" using assms(1) by (simp add: store_ok_def)
  show ?thesis
    using st.look_bound [of True l q ?st] st.look_selected [of _ True l q ?st]
      st.look_sorted [OF ok, of True l q] query_rows_complete [of _ db q l]
    unfolding eq clamp_limit_def by (metis le_neq_implies_less)
qed

definition sample_event :: "pystr \<Rightarrow> pystr \<Rightarrow> pystr \<Rightarrow> new_event" where
  "sample_event kind u action = \<lparr>new_kind = kind, new_unit = Some u, new_scope = Some ''user'',
     new_severity = Some ''info'', new_text = kind, new_meta = Some [(''action'', JStr action)]\<rparr>"

lemma recent_contract_witness:
  "let db = store_apply (store_apply empty_db (Append True 5 (sample_event ''autofix'' ''a.service'' ''inform'')))
              (Append True 3 (sample_event ''restart'' ''b.service'' ''restart''))
   in length (recent True 1 any_event db) \<le> 1 \<and> sorted_wrt newer_event (recent True 1 any_event db)"
  using recent_contract [of "store_apply (store_apply empty_db (Append True 5 (sample_event ''autofix'' ''a.service'' ''inform'')))
              (Append True 3 (sample_event ''restart'' ''b.service'' ''restart''))" 1 any_event]
  by (simp add: Let_def ids_grow_def append_event_def insert_row_def empty_db_def)

text \<open>
   An event appended at a time no earlier than the stored ones is the first event a read
  returns whose filters it satisfies, with the fields it was given: the metadata survives
  the trip through JSON text unchanged.
\<close>

theorem append_then_recent:
  assumes "ids_grow db" and "\<not> closed db" and "plain_event e"
    and "\<forall>r \<in> set (rows db). row_ts r \<le> ts"
    and "selects_event q (event_of (last_id db + 1) ts e)"
  shows "\<exists>older. recent True l q (snd (append_event True ts e db)) =
     event_of (fst (append_event True ts e db)) ts e # older"
proof -
  have "snd (append_event True ts e db) = snd (insert_row ts e (meta_text (new_meta e)) db)"
    and "fst (append_event True ts e db) = last_id db + 1"
    and "\<not> closed (snd (insert_row ts e (meta_text (new_meta e)) db))"
    using assms(2) by (simp_all add: append_event_def insert_row_def Let_def)
  with query_after_append [of db e ts q l] assms(1,3-5) show ?thesis by (simp add: recent_def)
qed

lemma append_then_recent_witness:
  "\<exists>older. recent True 100 any_event (snd (append_event True 7 (sample_event ''restart'' ''b.service'' ''restart'') empty_db)) =
     event_of 1 7 (sample_event ''restart'' ''b.service'' ''restart'') # older"
  using append_then_recent [OF ids_grow_empty, of "sample_event ''restart'' ''b.service'' ''restart''" 7 any_event 100]
  by (simp add: empty_db_def plain_event_def sample_event_def selects_event_def
      any_event_def append_event_def insert_row_def)

end
