(* ===== verification/Remediation.thy ===== *)
theory Remediation
  imports Host
begin

text \<open>
  \<^verbatim>\<open>remediation.py\<close>: restarting a unit and reporting what became of it. Commands are run
  through the machine record of theory \<open>Host\<close>; the confirmation, the status line and the
  privileged restart are the arguments the code has. The client gets the message and, from
  \<open>restart_resolved\<close>, the flag it is derived from.
\<close>

section \<open>Recognising a request\<close>

datatype remediation_kind = Restart_unit

record remediation =
  rem_kind :: remediation_kind
  rem_target :: pystr

definition words_i :: "pystr list \<Rightarrow> regex" where
  "words_i ws = alts (map lit_i ws)"

definition RESTART_RE :: regex where
  "RESTART_RE = seqs [WordB, words_i [''restart'', ''relaunch'', ''reload''], WordB, re_spaces]"

definition HOWTO_RE :: regex where
  "HOWTO_RE = seqs [Bol, Star re_space,
     words_i [''how'', ''what'', ''why'', ''when'', ''where'', ''who''], WordB]"

definition FILLER_RE :: regex where
  "FILLER_RE = seqs [WordB, words_i [''the'', ''a'', ''an'', ''please'', ''my'', ''service'', ''unit'',
     ''daemon'', ''app'', ''application'', ''can'', ''could'', ''would'', ''you'', ''for'', ''me''], WordB]"

definition normalize :: "pystr \<Rightarrow> pystr" where
  "normalize phrase =
     (let s = lower (rstrip_chars ''?.!'' (strip phrase));
          s = re_sub FILLER_RE '' '' s
      in strip (re_sub re_spaces '' '' s))"

definition parse :: "pystr \<Rightarrow> remediation option" where
  "parse txt =
     (if re_search HOWTO_RE txt then None
      else map_option (\<lambda>g. \<lparr>rem_kind = Restart_unit, rem_target = normalize g\<rparr>)
             (search_group RESTART_RE (re_plus re_dot) txt))"

section \<open>Matching units\<close>

type_synonym unit_info = "pystr \<times> pystr \<times> pystr"

definition unit_stem :: "pystr \<Rightarrow> pystr" where
  "unit_stem u = (if endswith ''.service'' u then take (length u - 8) u else u)"

definition unit_matches :: "pystr \<Rightarrow> unit_info \<Rightarrow> bool" where
  "unit_matches t ui = (case ui of (u, active, desc) \<Rightarrow>
     let hay = lower (unit_stem u @ '' '' @ desc)
     in contains t hay \<or> list_all (\<lambda>tok. contains tok hay) (split_ws t))"

definition match_unit :: "pystr \<Rightarrow> unit_info list \<Rightarrow> pystr list" where
  "match_unit target us =
     (let t = strip (lower target)
      in if t = [] then [] else map fst (filter (unit_matches t) us))"

definition choose_units :: "pystr list \<Rightarrow> unit_info list \<Rightarrow> pystr list" where
  "choose_units ms us =
     (let failed = set (map fst (filter (\<lambda>(u, active, d). active = ''failed'') us));
          failed_matches = filter (\<lambda>u. u \<in> failed) ms
      in if failed_matches \<noteq> [] then failed_matches else ms)"

section \<open>The live system\<close>

definition scoped :: "pystr \<Rightarrow> pystr list \<Rightarrow> pystr list" where
  "scoped scope args = [hd args] @ (if scope = ''user'' then [''--user''] else []) @ tl args"

definition parse_unit_line :: "pystr \<Rightarrow> unit_info option" where
  "parse_unit_line line =
     (let parts = split_ws_max 4 line
      in if 4 \<le> length parts \<and> endswith ''.service'' (parts ! 0)
         then Some (parts ! 0, parts ! 2, if 4 < length parts then parts ! 4 else [])
         else None)"

definition parse_units :: "pystr \<Rightarrow> unit_info list" where
  "parse_units out = List.map_filter parse_unit_line (splitlines out)"

definition list_units :: "'w host \<Rightarrow> pystr \<Rightarrow> ('w, unit_info list) act" where
  "list_units h scope =
     andthen (run h (scoped scope [''systemctl'', ''list-units'', ''--all'', ''--plain'',
                ''--no-legend'', ''--no-pager'']) None)
       (\<lambda>(rc, out). ret (parse_units out))"

definition is_failed :: "'w host \<Rightarrow> pystr \<Rightarrow> pystr \<Rightarrow> ('w, bool) act" where
  "is_failed h u scope =
     andthen (run h (scoped scope [''systemctl'', ''is-failed'', u]) None)
       (\<lambda>(rc, out). ret (strip out = ''failed''))"

definition unit_tail :: "'w host \<Rightarrow> pystr \<Rightarrow> pystr \<Rightarrow> ('w, pystr) act" where
  "unit_tail h u scope =
     andthen (run h (scoped scope [''journalctl'', ''-u'', u, ''-b'', ''--no-pager'',
                ''-n'', ''12'', ''-o'', ''cat'']) None)
       (\<lambda>(rc, out). ret (strip out))"

definition unit_journal :: "'w host \<Rightarrow> pystr \<Rightarrow> pystr \<Rightarrow> ('w, pystr) act" where
  "unit_journal h u scope = unit_tail h u scope"

record failed_unit =
  fu_unit :: pystr
  fu_scope :: pystr
  fu_description :: pystr

definition failed_of :: "pystr \<Rightarrow> unit_info list \<Rightarrow> failed_unit list" where
  "failed_of scope us =
     map (\<lambda>(u, active, desc). \<lparr>fu_unit = u, fu_scope = scope, fu_description = desc\<rparr>)
         (filter (\<lambda>(u, active, desc). active = ''failed'') us)"

definition failed_units :: "'w host \<Rightarrow> ('w, failed_unit list) act" where
  "failed_units h =
     andthen (list_units h ''system'') (\<lambda>sys.
     andthen (list_units h ''user'') (\<lambda>usr.
       ret (failed_of ''system'' sys @ failed_of ''user'' usr)))"

text \<open>
  A spawn refused for another reason than a missing file or a permission is an \<^verbatim>\<open>OSError\<close>,
  which \<^verbatim>\<open>except (NixadminError, ValueError)\<close> does not catch.
\<close>

definition restart_count :: "'w host \<Rightarrow> pystr \<Rightarrow> pystr \<Rightarrow> ('w, int) act" where
  "restart_count h u scope =
     try_nixadmin
       (andthen (run h (scoped scope [''systemctl'', ''show'', u, ''--property=NRestarts'', ''--value'']) None)
          (\<lambda>(rc, out). case py_int (strip out) of
               Some n \<Rightarrow> ret (max 0 n)
             | None \<Rightarrow> ret 0))
       (\<lambda>e. ret 0)"

section \<open>Restarting\<close>

record restart_outcome =
  out_ok :: bool
  out_message :: pystr

definition mk_outcome :: "bool \<Rightarrow> pystr \<Rightarrow> restart_outcome" where
  "mk_outcome b m = \<lparr>out_ok = b, out_message = m\<rparr>"

text \<open>The message when the unit failed again, with the journal it shows.\<close>

definition still_failing :: "pystr \<Rightarrow> pystr \<Rightarrow> pystr" where
  "still_failing u reason = ''I restarted '' @ u @ '', but it's still failing '' @ [emdash]
     @ '' this needs a real fix, not a restart:'' @ [newline] @ reason"

definition healthy_again :: "pystr \<Rightarrow> pystr" where
  "healthy_again u = ''Restarted '' @ u @ '' '' @ [emdash] @ '' it's healthy again.''"

text \<open>After the restart was issued: let it settle, then look.\<close>

definition verify_restart :: "'w host \<Rightarrow> pystr \<Rightarrow> pystr \<Rightarrow> ('w, restart_outcome) act" where
  "verify_restart h u scope w =
     andthen (is_failed h u scope) (\<lambda>failed.
       if \<not> failed then ret (mk_outcome True (healthy_again u))
       else andthen (unit_tail h u scope) (\<lambda>reason.
              ret (mk_outcome False (still_failing u reason))))
     (sleep h 1 w)"

text \<open>
  The \<^verbatim>\<open>try\<close> block: \<open>None\<close> when the restart was issued, an outcome when it was not. Exceptions
  outside the hierarchy pass.
\<close>

definition issue_restart ::
  "'w host \<Rightarrow> (pystr \<Rightarrow> ('w, pystr) act) option \<Rightarrow> pystr \<Rightarrow> pystr \<Rightarrow> ('w, restart_outcome option) act" where
  "issue_restart h restart_system u scope =
     try_nixadmin
       (if scope = ''system'' then
          (case restart_system of
             None \<Rightarrow> ret (Some (mk_outcome False ''I can't restart a system service in this context.''))
           | Some restart \<Rightarrow> andthen (restart u) (\<lambda>_. ret None))
        else andthen (run h [''systemctl'', ''--user'', ''restart'', u] None) (\<lambda>_. ret None))
       (\<lambda>e. ret (Some (mk_outcome False (''I couldn't restart '' @ u @ '' ('' @ str_exn e @ '').''))))"

definition restart_resolved ::
  "'w host \<Rightarrow> (pystr \<Rightarrow> ('w, unit) act) \<Rightarrow> (pystr \<Rightarrow> ('w, pystr) act) option \<Rightarrow>
     pystr \<Rightarrow> pystr \<Rightarrow> ('w, restart_outcome) act" where
  "restart_resolved h status restart_system u scope =
     andthen (status (''Restarting '' @ u @ [ellipsis])) (\<lambda>_.
     andthen (issue_restart h restart_system u scope) (\<lambda>early.
       case early of Some outcome \<Rightarrow> ret outcome | None \<Rightarrow> verify_restart h u scope))"

text \<open>\<^verbatim>\<open>run\<close>: find the unit, ask, restart, report.\<close>

definition scope_of :: "unit_info list \<Rightarrow> unit_info list \<Rightarrow> pystr \<Rightarrow> pystr" where
  "scope_of sys usr u =
     (if u \<in> fst ` set sys then ''system''
      else if u \<in> fst ` set usr then ''user'' else ''system'')"

definition candidates :: "pystr \<Rightarrow> unit_info list \<Rightarrow> pystr list" where
  "candidates target us = dict_fromkeys (choose_units (match_unit target us) us)"

definition run_remediation ::
  "'w host \<Rightarrow> (pystr \<Rightarrow> ('w, bool) act) \<Rightarrow> (pystr \<Rightarrow> ('w, unit) act) \<Rightarrow>
     (pystr \<Rightarrow> ('w, pystr) act) option \<Rightarrow> remediation \<Rightarrow> ('w, pystr) act" where
  "run_remediation h confirm status restart_system rem =
     andthen (list_units h ''system'') (\<lambda>sys.
     andthen (list_units h ''user'') (\<lambda>usr.
       case candidates (rem_target rem) (sys @ usr) of
         [] \<Rightarrow> ret (''I couldn't find a service matching '' @ [CHR 0x27] @ rem_target rem @ [CHR 0x27] @ ''.'')
       | [u] \<Rightarrow>
           andthen (confirm (''Restart '' @ u @ ''?'')) (\<lambda>yes.
             if \<not> yes then ret (''Cancelled '' @ [emdash] @ '' nothing changed.'')
             else andthen (restart_resolved h status restart_system u (scope_of sys usr u))
                    (\<lambda>out. ret (out_message out)))
       | cand \<Rightarrow> ret (''Several services match that '' @ [emdash] @ '' which one? '' @ join '', '' cand)))"


section \<open>What the request recogniser accepts\<close>

text \<open>A word of the list stands in the text, in any case, with word boundaries around it.\<close>

definition word_at :: "pystr list \<Rightarrow> pystr \<Rightarrow> pystr \<Rightarrow> pystr \<Rightarrow> bool" where
  "word_at ws b w a \<longleftrightarrow> lower w \<in> set ws \<and> word_boundary (b, w @ a) \<and> word_boundary (rev w @ b, a)"

lemma matches_rel_words_i:
  "matches_rel (words_i ws) (b, a) q \<longleftrightarrow>
     (\<exists>w v. a = w @ v \<and> lower w \<in> set ws \<and> q = (rev w @ b, v))"
  by (auto simp: words_i_def matches_rel_alts matches_rel_lit_i)

lemma matches_rel_RESTART_RE:
  assumes "matches_rel RESTART_RE (b, v) x"
  shows "\<exists>w sp y. v = w @ sp @ y \<and>
     word_at [''restart'', ''relaunch'', ''reload''] b w (sp @ y) \<and>
     sp \<noteq> [] \<and> list_all is_space sp \<and> x = (rev sp @ rev w @ b, y)"
proof -
  from assms obtain p where b: "word_boundary (b, v)"
    and p: "matches_rel (words_i [''restart'', ''relaunch'', ''reload'']) (b, v) p"
    and b': "word_boundary p" and sp: "matches_rel re_spaces p x"
    unfolding RESTART_RE_def seqs.simps rel_Seq_iff rel_WordB_iff by blast
  from p obtain w v' where w: "v = w @ v'" "lower w \<in> set [''restart'', ''relaunch'', ''reload'']"
    and p_eq: "p = (rev w @ b, v')" unfolding matches_rel_words_i by blast
  from sp [unfolded p_eq re_spaces_def re_space_def matches_rel_plus_Sym]
  obtain s y where "s \<noteq> []" "v' = s @ y" "list_all is_space s" "x = (rev s @ rev w @ b, y)" by blast
  with w p_eq b b' show ?thesis by (auto simp: word_at_def)
qed

lemma parse_restart:
  assumes "parse txt = Some r"
  shows "\<exists>u w sp g a. txt = u @ w @ sp @ g @ a \<and>
     word_at [''restart'', ''relaunch'', ''reload''] (rev u) w (sp @ g @ a) \<and>
     sp \<noteq> [] \<and> list_all is_space sp \<and> g \<noteq> [] \<and> newline \<notin> set g \<and>
     rem_target r = normalize g \<and> \<not> re_search HOWTO_RE txt"
proof -
  from assms obtain g where g: "search_group RESTART_RE (re_plus re_dot) txt = Some g"
    and r: "rem_target r = normalize g" and how: "\<not> re_search HOWTO_RE txt"
    by (auto simp: parse_def split: if_splits)
  from search_group_from_Some [OF g [unfolded search_group_def]]
  obtain u v x q where s: "txt = u @ v" and x: "matches_rel RESTART_RE (rev u, v) x"
    and q: "matches_rel (re_plus re_dot) x q" and gq: "g = span_text x q" by auto
  from matches_rel_RESTART_RE [OF x] obtain w sp y where v: "v = w @ sp @ y"
    and w: "word_at [''restart'', ''relaunch'', ''reload''] (rev u) w (sp @ y)"
    and sp: "sp \<noteq> []" "list_all is_space sp" and xx: "x = (rev sp @ rev w @ rev u, y)" by blast
  from q [unfolded xx re_dot_def matches_rel_plus_Sym]
  obtain g' a where ga: "g' \<noteq> []" "y = g' @ a" "list_all (\<lambda>c. c \<noteq> newline) g'" "snd q = a"
    by auto
  have gg: "g = g'" using gq ga xx by (simp add: span_text_def)
  have "newline \<notin> set g'" using ga(3) by (auto simp: list_all_iff)
  moreover have "txt = u @ w @ sp @ g' @ a" using s v ga(2) by simp
  moreover have "word_at [''restart'', ''relaunch'', ''reload''] (rev u) w (sp @ g' @ a)"
    using w ga(2) by simp
  ultimately show ?thesis using sp ga(1) r how unfolding gg by blast
qed

section \<open>Matching\<close>

lemma match_unit_subset: "set (match_unit t us) \<subseteq> fst ` set us"
  by (auto simp: match_unit_def Let_def)

lemma choose_units_subset: "set (choose_units ms us) \<subseteq> set ms"
  by (auto simp: choose_units_def Let_def)

lemma candidates_subset: "set (candidates t us) \<subseteq> fst ` set us"
  using match_unit_subset choose_units_subset by (fastforce simp: candidates_def)

lemma candidates_distinct: "distinct (candidates t us)"
  by (simp add: candidates_def)

text \<open>A failed match hides the healthy ones.\<close>

lemma candidates_failed:
  assumes "u \<in> set (match_unit t us)" and "(u, ''failed'', d) \<in> set us" and "c \<in> set (candidates t us)"
  shows "\<exists>d'. (c, ''failed'', d') \<in> set us"
  using assms by (force simp: candidates_def choose_units_def Let_def filter_empty_conv split: if_splits)

section \<open>Honest reports\<close>

lemma outcome_simps [simp]:
  "out_ok (mk_outcome b m) = b" "out_message (mk_outcome b m) = m"
  by (simp_all add: mk_outcome_def)

lemma healthy_message_distinct:
  "healthy_again u \<noteq> still_failing u r" "healthy_again u \<noteq> CHR ''I'' # r"
  by (simp_all add: healthy_again_def still_failing_def)

lemma restart_resolved_cases:
  assumes "restart_resolved h status rs u scope w = (Inr out, w')"
  obtains (refused) w1 w2 where "status (''Restarting '' @ u @ [ellipsis]) w = (Inr (), w1)"
      "issue_restart h rs u scope w1 = (Inr (Some out), w2)" "w' = w2"
    | (checked) w1 w2 where "status (''Restarting '' @ u @ [ellipsis]) w = (Inr (), w1)"
      "issue_restart h rs u scope w1 = (Inr None, w2)" "verify_restart h u scope w2 = (Inr out, w')"
  using assms by (auto simp: restart_resolved_def ret_def elim!: andthen_InrE split: option.splits)

lemma issue_restart_refused:
  "issue_restart h rs u scope w = (Inr (Some out), w') \<Longrightarrow>
     \<not> out_ok out \<and> (\<exists>r. out_message out = CHR ''I'' # r)"
  by (auto simp: issue_restart_def try_nixadmin_def ret_def raise_def andthen_def
      split: prod.splits sum.splits if_splits option.splits)

lemma verify_restart_ok:
  assumes "verify_restart h u scope w = (Inr out, w')"
  shows "if out_ok out
         then is_failed h u scope (sleep h 1 w) = (Inr False, w') \<and> out_message out = healthy_again u
         else \<exists>w1 reason. is_failed h u scope (sleep h 1 w) = (Inr True, w1) \<and>
                unit_tail h u scope w1 = (Inr reason, w') \<and> out_message out = still_failing u reason"
  using assms by (auto simp: verify_restart_def ret_def elim!: andthen_InrE split: if_splits)


section \<open>Properties\<close>

text \<open>A status line and a machine for examples: a quiet one, and scripted answers.\<close>

definition quiet :: "pystr \<Rightarrow> ('w, unit) act" where
  "quiet t = ret ()"



text \<open>
   A system unit is restarted through the privileged helper or not at all: issuing the
  restart runs no command of its own, so it does the same on any machine, and without a
  helper it refuses and changes nothing.
\<close>

theorem system_restart_only_via_helper:
  "issue_restart h rs u ''system'' = issue_restart h' rs u ''system'' \<and>
   (\<exists>r. issue_restart h None u ''system'' w = (Inr (Some r), w) \<and> \<not> out_ok r)"
  by (simp add: issue_restart_def ret_def try_nixadmin_def fun_eq_iff)

text \<open>
  C17: Nothing is restarted unless exactly one unit is found and the person agrees. With no
  match, several matches, or a refusal the world after the call is the one the listing (and
  the question) left, and the question names the unit found among the listed ones.
\<close>

theorem remediation_needs_consent:
  assumes "list_units h ''system'' w = (Inr sys, w1)" and "list_units h ''user'' w1 = (Inr usr, w2)"
  shows "case candidates (rem_target rem) (sys @ usr) of
       [u] \<Rightarrow> u \<in> fst ` set (sys @ usr) \<and>
         (case confirm (''Restart '' @ u @ ''?'') w2 of
            (Inr True, w3) \<Rightarrow> run_remediation h confirm status rs rem w =
               andthen (restart_resolved h status rs u (scope_of sys usr u)) (\<lambda>out. ret (out_message out)) w3
          | (Inr False, w3) \<Rightarrow> run_remediation h confirm status rs rem w =
               (Inr (''Cancelled '' @ [emdash] @ '' nothing changed.''), w3)
          | (Inl e, w3) \<Rightarrow> run_remediation h confirm status rs rem w = (Inl e, w3))
     | _ \<Rightarrow> snd (run_remediation h confirm status rs rem w) = w2"
proof -
  have r: "run_remediation h confirm status rs rem w =
    (case candidates (rem_target rem) (sys @ usr) of
         [] \<Rightarrow> ret (''I couldn't find a service matching '' @ [CHR 0x27] @ rem_target rem @ [CHR 0x27] @ ''.'')
       | [u] \<Rightarrow>
           andthen (confirm (''Restart '' @ u @ ''?'')) (\<lambda>yes.
             if \<not> yes then ret (''Cancelled '' @ [emdash] @ '' nothing changed.'')
             else andthen (restart_resolved h status rs u (scope_of sys usr u))
                    (\<lambda>out. ret (out_message out)))
       | cand \<Rightarrow> ret (''Several services match that '' @ [emdash] @ '' which one? '' @ join '', '' cand)) w2"
    using assms by (simp add: run_remediation_def host_simps)
  show ?thesis
    using candidates_subset [of "rem_target rem" "sys @ usr"] unfolding r
    by (auto simp: ret_def andthen_def split: list.splits prod.splits sum.splits bool.splits)
qed

lemma remediation_needs_consent_witness:
  "\<exists>w2. list_units script_host ''system'' (script_of [Exited (Some 0) ''a.service loaded failed failed A'', Exited (Some 0) []])
       = (Inr [(''a.service'', ''failed'', ''A'')], w2) \<and>
     snd (run_remediation script_host (\<lambda>q. ret True) quiet None \<lparr>rem_kind = Restart_unit, rem_target = ''zzz''\<rparr>
       (script_of [Exited (Some 0) ''a.service loaded failed failed A'', Exited (Some 0) []])) =
     snd (list_units script_host ''user'' w2)"
proof -
  let ?s = "script_of [Exited (Some 0) ''a.service loaded failed failed A'', Exited (Some 0) []]"
  let ?w1 = "\<lparr>answers = [Exited (Some 0) []], issued = [[''systemctl'', ''list-units'', ''--all'', ''--plain'',
                ''--no-legend'', ''--no-pager'']], time_now = 0\<rparr> :: script"
  have a: "list_units script_host ''system'' ?s = (Inr [(''a.service'', ''failed'', ''A'')], ?w1)"
    by code_simp
  have b: "fst (list_units script_host ''user'' ?w1) = Inr []" by code_simp
  then obtain w2 where b': "list_units script_host ''user'' ?w1 = (Inr [], w2)"
    by (metis surjective_pairing)
  have c: "candidates ''zzz'' ([(''a.service'', ''failed'', ''A'')] @ []) = []" by code_simp
  show ?thesis
    using remediation_needs_consent [OF a b', where rem = "\<lparr>rem_kind = Restart_unit, rem_target = ''zzz''\<rparr>"
        and confirm = "\<lambda>q. ret True" and status = quiet and rs = None] a b' c by simp
qed

text \<open>
   What is taken for a restart request: the text is no how-to question and has, with word
  boundaries around it, one of the three verbs in any case, then white space, then a phrase
  on the same line, which is the target once normalised.
\<close>

theorem parse_only_restart_requests:
  "case parse txt of None \<Rightarrow> True
   | Some r \<Rightarrow> \<not> re_search HOWTO_RE txt \<and>
       (\<exists>u w sp g a. txt = u @ w @ sp @ g @ a \<and>
         word_at [''restart'', ''relaunch'', ''reload''] (rev u) w (sp @ g @ a) \<and>
         sp \<noteq> [] \<and> list_all is_space sp \<and> g \<noteq> [] \<and> newline \<notin> set g \<and> rem_target r = normalize g)"
proof (cases "parse txt")
  case (Some r)
  with parse_restart [OF Some] show ?thesis unfolding Some option.case by blast
qed simp

text \<open>
   A restart of a user unit whose command fails is still reported as a success when the
  unit is not in the failed state afterwards (a masked or missing unit is inactive): the exit
  code of the restart command is not looked at.
\<close>

theorem user_restart_exit_code_ignored:
  "fst (restart_resolved script_host quiet None ''a.service'' ''user''
       (script_of [Exited (Some 1) ''Unit a.service is masked.'', Exited (Some 3) ''inactive''])) =
     Inr (mk_outcome True (healthy_again ''a.service''))"
  by code_simp

end
