(* ===== verification/Protocol.thy ===== *)
theory Protocol
  imports Host Py_Json
begin

text \<open>
  \<^verbatim>\<open>protocol.py\<close> and \<^verbatim>\<open>transport.py\<close>: the messages between daemon and clients, one JSON object
  per line. A dataclass checks no types when it is built from a decoded object, so a message
  is its class and the JSON value of each field, in the order the class declares them;
  \<^verbatim>\<open>None\<close> is \<open>JNull\<close>. Texts that CPython makes (of a JSON error, of a missing argument, of a
  \<^verbatim>\<open>repr\<close> or \<^verbatim>\<open>str\<close>) are arguments.
\<close>

section \<open>Message classes\<close>

datatype wire_class =
    Query | Cancel | Respond | Hello | Delta | Status | Done | Error
  | Confirm | Input | Ready | Event | ListFailures | Failures
  | RestartUnit | ExplainUnit | UnitJournal | Journal | GetTimeline | Timeline
  | GetLedger | Ledger | GetHealth | Health

definition VERSION :: int where "VERSION = 4"
definition MIN_VERSION :: int where "MIN_VERSION = 4"

fun wire_type :: "wire_class \<Rightarrow> pystr" where
  "wire_type Query = ''query''"
| "wire_type Cancel = ''cancel''"
| "wire_type Respond = ''respond''"
| "wire_type Hello = ''hello''"
| "wire_type Delta = ''delta''"
| "wire_type Status = ''status''"
| "wire_type Done = ''done''"
| "wire_type Error = ''error''"
| "wire_type Confirm = ''confirm''"
| "wire_type Input = ''input''"
| "wire_type Ready = ''ready''"
| "wire_type Event = ''event''"
| "wire_type ListFailures = ''list_failures''"
| "wire_type Failures = ''failures''"
| "wire_type RestartUnit = ''restart_unit''"
| "wire_type ExplainUnit = ''explain_unit''"
| "wire_type UnitJournal = ''unit_journal''"
| "wire_type Journal = ''journal''"
| "wire_type GetTimeline = ''get_timeline''"
| "wire_type Timeline = ''timeline''"
| "wire_type GetLedger = ''get_ledger''"
| "wire_type Ledger = ''ledger''"
| "wire_type GetHealth = ''get_health''"
| "wire_type Health = ''health''"

text \<open>
  The fields of a class with their defaults, \<open>None\<close> for a required field: the messages around a
  query, and those with which a client reads the state of the machine and acts on one unit.
\<close>

fun query_fields :: "wire_class \<Rightarrow> (pystr \<times> json option) list" where
  "query_fields Query = [(''id'', None), (''text'', None), (''session'', Some (JStr ''default'')),
     (''chain'', Some JNull)]"
| "query_fields Cancel = [(''id'', None)]"
| "query_fields Respond = [(''id'', None), (''confirmed'', Some JNull), (''value'', Some JNull)]"
| "query_fields Hello = [(''chains'', None), (''ready'', None), (''default_chain'', None),
     (''modules'', None), (''version'', Some (JInt VERSION)), (''min_version'', Some (JInt MIN_VERSION))]"
| "query_fields Delta = [(''id'', None), (''text'', None)]"
| "query_fields Status = [(''id'', None), (''text'', None)]"
| "query_fields Done = [(''id'', None), (''chain'', Some JNull), (''model'', Some JNull)]"
| "query_fields Error = [(''id'', None), (''text'', None)]"
| "query_fields Confirm = [(''id'', None), (''text'', None)]"
| "query_fields Input = [(''id'', None), (''prompt'', None)]"
| "query_fields Ready = [(''chain'', None)]"
| "query_fields Event = [(''source'', None), (''severity'', None), (''text'', None)]"
| "query_fields _ = []"

fun unit_fields :: "wire_class \<Rightarrow> (pystr \<times> json option) list" where
  "unit_fields ListFailures = [(''id'', None)]"
| "unit_fields Failures = [(''id'', None), (''units'', None)]"
| "unit_fields RestartUnit = [(''id'', None), (''unit'', None), (''scope'', None)]"
| "unit_fields ExplainUnit = [(''id'', None), (''unit'', None), (''scope'', None)]"
| "unit_fields UnitJournal = [(''id'', None), (''unit'', None), (''scope'', None)]"
| "unit_fields Journal = [(''id'', None), (''unit'', None), (''text'', None)]"
| "unit_fields GetTimeline = [(''id'', None), (''limit'', Some (JInt 100)), (''unit'', Some JNull),
     (''before_id'', Some JNull)]"
| "unit_fields Timeline = [(''id'', None), (''events'', None), (''next_cursor'', Some JNull)]"
| "unit_fields GetLedger = [(''id'', None)]"
| "unit_fields Ledger = [(''id'', None), (''data'', None)]"
| "unit_fields GetHealth = [(''id'', None)]"
| "unit_fields Health = [(''id'', None), (''data'', None)]"
| "unit_fields _ = []"

definition wire_fields :: "wire_class \<Rightarrow> (pystr \<times> json option) list" where
  "wire_fields c = query_fields c @ unit_fields c"

lemma wire_fields_cases [simp]:
  "wire_fields Query = query_fields Query"
  "wire_fields Cancel = query_fields Cancel"
  "wire_fields Respond = query_fields Respond"
  "wire_fields Hello = query_fields Hello"
  "wire_fields Delta = query_fields Delta"
  "wire_fields Status = query_fields Status"
  "wire_fields Done = query_fields Done"
  "wire_fields Error = query_fields Error"
  "wire_fields Confirm = query_fields Confirm"
  "wire_fields Input = query_fields Input"
  "wire_fields Ready = query_fields Ready"
  "wire_fields Event = query_fields Event"
  "wire_fields ListFailures = unit_fields ListFailures"
  "wire_fields Failures = unit_fields Failures"
  "wire_fields RestartUnit = unit_fields RestartUnit"
  "wire_fields ExplainUnit = unit_fields ExplainUnit"
  "wire_fields UnitJournal = unit_fields UnitJournal"
  "wire_fields Journal = unit_fields Journal"
  "wire_fields GetTimeline = unit_fields GetTimeline"
  "wire_fields Timeline = unit_fields Timeline"
  "wire_fields GetLedger = unit_fields GetLedger"
  "wire_fields Ledger = unit_fields Ledger"
  "wire_fields GetHealth = unit_fields GetHealth"
  "wire_fields Health = unit_fields Health"
  by (simp_all add: wire_fields_def)

definition wire_classes :: "wire_class list" where
  "wire_classes = [Query, Cancel, Respond, Hello, Delta, Status, Done, Error,
     Confirm, Input, Ready, Event, ListFailures, Failures,
     RestartUnit, ExplainUnit, UnitJournal, Journal, GetTimeline, Timeline,
     GetLedger, Ledger, GetHealth, Health]"

definition REGISTRY :: "(pystr \<times> wire_class) list" where
  "REGISTRY = map (\<lambda>c. (wire_type c, c)) wire_classes"

record message =
  msg_class :: wire_class
  msg_fields :: "(pystr \<times> json) list"

text \<open>\<^verbatim>\<open>cls(a, b, \<dots>)\<close> with every field given, and \<^verbatim>\<open>msg.name\<close>.\<close>

definition mk_message :: "wire_class \<Rightarrow> json list \<Rightarrow> message" where
  "mk_message c vs = \<lparr>msg_class = c, msg_fields = zip (map fst (wire_fields c)) vs\<rparr>"

definition get_field :: "message \<Rightarrow> pystr \<Rightarrow> json" where
  "get_field m f = the_default JNull (map_of (msg_fields m) f)"

section \<open>Encoding and decoding\<close>

definition encode :: "(real \<Rightarrow> pystr) \<Rightarrow> message \<Rightarrow> pystr" where
  "encode frepr m =
     (let data = (''type'', JStr (wire_type (msg_class m)))
                 # filter (\<lambda>(k, v). v \<noteq> JNull) (msg_fields m)
      in dumps frepr (JObj data) @ [newline])"

record py_texts =
  json_error :: "pystr \<Rightarrow> pystr"
  init_error :: "wire_class \<Rightarrow> pystr list \<Rightarrow> pystr"
  repr_json :: "json \<Rightarrow> pystr"
  str_json :: "json \<Rightarrow> pystr"

text \<open>\<^verbatim>\<open>cls(**fields)\<close>: defaults fill what is absent; an absent required field is an error.\<close>

definition missing_fields :: "wire_class \<Rightarrow> (pystr \<times> json) list \<Rightarrow> pystr list" where
  "missing_fields c raw =
     map fst (filter (\<lambda>(f, d). d = None \<and> map_of raw f = None) (wire_fields c))"

definition fill_fields :: "wire_class \<Rightarrow> (pystr \<times> json) list \<Rightarrow> (pystr \<times> json) list" where
  "fill_fields c raw =
     map (\<lambda>(f, d). (f, case map_of raw f of Some v \<Rightarrow> v | None \<Rightarrow> the_default JNull d)) (wire_fields c)"

definition build :: "py_texts \<Rightarrow> wire_class \<Rightarrow> (pystr \<times> json) list \<Rightarrow> exn + message" where
  "build py c raw =
     (if missing_fields c raw \<noteq> []
      then Inl (ProtocolError (''malformed '' @ py_repr (wire_type c) @ '' message: ''
                  @ init_error py c (missing_fields c raw)))
      else Inr \<lparr>msg_class = c, msg_fields = fill_fields c raw\<rparr>)"

text \<open>
  A dictionary is no key of a dictionary and neither is a list: the registry lookup of such
  a type raises \<^verbatim>\<open>TypeError\<close>, which \<^verbatim>\<open>decode\<close> does not catch there.
\<close>

definition decode_object :: "py_texts \<Rightarrow> (pystr \<times> json) list \<Rightarrow> exn + message" where
  "decode_object py raw =
     (case the_default JNull (map_of raw ''type'') of
        JArr xs \<Rightarrow> Inl (Foreign ''TypeError'' (''unhashable type: '' @ py_repr ''list''))
      | JObj kvs \<Rightarrow> Inl (Foreign ''TypeError'' (''unhashable type: '' @ py_repr ''dict''))
      | t \<Rightarrow>
          (case (case t of JStr s \<Rightarrow> map_of REGISTRY s | _ \<Rightarrow> None) of
             None \<Rightarrow> Inl (ProtocolError (''unknown message type: '' @ repr_json py t))
           | Some c \<Rightarrow> build py c (dict_del ''type'' raw)))"

definition decode :: "py_texts \<Rightarrow> pystr \<Rightarrow> exn + message" where
  "decode py line =
     (case loads line of
        None \<Rightarrow> Inl (ProtocolError (''invalid JSON: '' @ json_error py line))
      | Some (JObj raw) \<Rightarrow> decode_object py raw
      | Some j \<Rightarrow> Inl (ProtocolError (''expected a JSON object, got '' @ type_name j)))"

section \<open>Versions and framing\<close>

text \<open>The \<^verbatim>\<open>isinstance\<close> tests: a version is an \<^verbatim>\<open>int\<close> and no \<^verbatim>\<open>bool\<close>.\<close>

definition require_compatible :: "message \<Rightarrow> int \<Rightarrow> exn + unit" where
  "require_compatible hello client_version =
     (case (get_field hello ''min_version'', get_field hello ''version'') of
        (JInt lo, JInt hi) \<Rightarrow>
          (if hi < lo then Inl (ProtocolError ''daemon advertised an invalid protocol version range'')
           else if \<not> (lo \<le> client_version \<and> client_version \<le> hi)
           then Inl (ProtocolError (''incompatible nixadmin protocol: client v''
                  @ show_int client_version @ '', daemon supports v'' @ show_int lo
                  @ [endash] @ ''v'' @ show_int hi))
           else Inr ())
      | _ \<Rightarrow> Inl (ProtocolError ''daemon advertised an invalid protocol version range''))"

definition MAX_LINE_BYTES :: nat where "MAX_LINE_BYTES = 64 * 1024"

text \<open>The length of a text in UTF-8.\<close>

definition utf8_length :: "pystr \<Rightarrow> nat" where
  "utf8_length s = sum_list (map (\<lambda>c. if c \<in> {emdash, endash, ellipsis, ldquote, rdquote} then 3
                                    else if code c < 128 then 1 else 2) s)"

text \<open>\<^verbatim>\<open>decode_line\<close> on a text (the readers pass bytes; \<open>None\<close> stands for bytes that are no UTF-8).\<close>

definition decode_line :: "py_texts \<Rightarrow> nat \<Rightarrow> pystr option \<Rightarrow> exn + message" where
  "decode_line py nbytes raw =
     (if MAX_LINE_BYTES < nbytes then Inl (ProtocolError ''wire message exceeds size limit'')
      else (case raw of
          None \<Rightarrow> Inl (ProtocolError ''wire message is not valid UTF-8'')
        | Some s \<Rightarrow>
            (if strip s = [] then Inl (ProtocolError ''daemon disconnected before sending a message'')
             else decode py (strip s))))"

definition validate_hello :: "message \<Rightarrow> exn + message" where
  "validate_hello m =
     (if msg_class m \<noteq> Hello then Inl (ProtocolError ''daemon did not send Hello first'')
      else (case require_compatible m VERSION of Inl e \<Rightarrow> Inl e | Inr _ \<Rightarrow> Inr m))"

text \<open>The handshake of either client: read one line, decode it, check the range.\<close>

definition negotiate :: "py_texts \<Rightarrow> pystr \<Rightarrow> exn + message" where
  "negotiate py line =
     (case decode_line py (utf8_length line) (Some line) of
        Inl e \<Rightarrow> Inl e | Inr m \<Rightarrow> validate_hello m)"


section \<open>Round trip\<close>

text \<open>
  A message the program can send and get back: it has the fields of its class, a field is
  \<^verbatim>\<open>None\<close> only where that is the default, and the values hold no floats.
\<close>

definition wire_ready :: "message \<Rightarrow> bool" where
  "wire_ready m \<longleftrightarrow>
     list_all2 (\<lambda>(f, v) (g, d). f = g \<and> plain v \<and> (v = JNull \<longrightarrow> d = Some JNull))
       (msg_fields m) (wire_fields (msg_class m))"

lemma wire_fields_distinct: "distinct (map fst (wire_fields c))"
  by (cases c) simp_all

lemma wire_fields_no_type: "''type'' \<notin> fst ` set (wire_fields c)"
  by (cases c) simp_all

lemma REGISTRY_wire_type: "map_of REGISTRY (wire_type c) = Some c"
  by (cases c) (simp_all add: REGISTRY_def wire_classes_def)

lemma REGISTRY_only: "map_of REGISTRY t = Some c \<Longrightarrow> wire_type c = t"
  by (auto simp: REGISTRY_def dest!: map_of_SomeD)

lemma map_of_present:
  "distinct (map fst fs) \<Longrightarrow>
     map_of (filter (\<lambda>(k, v). v \<noteq> JNull) fs) k =
       (case map_of fs k of Some v \<Rightarrow> if v = JNull then None else Some v | None \<Rightarrow> None)"
  by (induction fs) (auto simp: map_of_eq_None_iff split: option.split)

lemma wire_ready_names: "wire_ready m \<Longrightarrow> map fst (msg_fields m) = map fst (wire_fields (msg_class m))"
  by (auto simp: wire_ready_def list_all2_conv_all_nth intro!: nth_equalityI)

lemma wire_ready_nth:
  assumes "wire_ready m" and "i < length (wire_fields (msg_class m))"
  shows "map_of (msg_fields m) (fst (wire_fields (msg_class m) ! i)) = Some (snd (msg_fields m ! i))"
    and "fst (msg_fields m ! i) = fst (wire_fields (msg_class m) ! i)"
    and "plain (snd (msg_fields m ! i))"
    and "snd (msg_fields m ! i) = JNull \<Longrightarrow> snd (wire_fields (msg_class m) ! i) = Some JNull"
proof -
  from assms have l: "length (msg_fields m) = length (wire_fields (msg_class m))"
    and r: "(\<lambda>(f, v) (g, d). f = g \<and> plain v \<and> (v = JNull \<longrightarrow> d = Some JNull))
      (msg_fields m ! i) (wire_fields (msg_class m) ! i)"
    by (simp_all add: wire_ready_def list_all2_conv_all_nth)
  from r show f: "fst (msg_fields m ! i) = fst (wire_fields (msg_class m) ! i)"
    and "plain (snd (msg_fields m ! i))"
    and "snd (msg_fields m ! i) = JNull \<Longrightarrow> snd (wire_fields (msg_class m) ! i) = Some JNull"
    by (auto split: prod.splits)
  have "distinct (map fst (msg_fields m))"
    using wire_ready_names [OF assms(1)] wire_fields_distinct by simp
  with l assms(2) f show "map_of (msg_fields m) (fst (wire_fields (msg_class m) ! i)) = Some (snd (msg_fields m ! i))"
    by (metis map_of_is_SomeI nth_mem prod.collapse)
qed

lemma fill_present:
  assumes "wire_ready m"
  defines "raw \<equiv> filter (\<lambda>(k, v). v \<noteq> JNull) (msg_fields m)"
  shows "missing_fields (msg_class m) raw = []" and "fill_fields (msg_class m) raw = msg_fields m"
proof -
  let ?ws = "wire_fields (msg_class m)"
  have "distinct (map fst (msg_fields m))"
    using wire_ready_names [OF assms(1)] wire_fields_distinct by simp
  note look = map_of_present [OF this]
  have at: "map_of raw (fst (?ws ! i)) = (let v = snd (msg_fields m ! i) in if v = JNull then None else Some v)"
    if "i < length ?ws" for i
    unfolding raw_def look using wire_ready_nth(1) [OF assms(1) that] by simp
  show "missing_fields (msg_class m) raw = []"
    unfolding missing_fields_def using at wire_ready_nth(4) [OF assms(1)]
    by (auto simp: filter_empty_conv in_set_conv_nth Let_def split: if_splits)
      (metis fst_conv option.distinct(1) snd_conv)
  have len: "length (msg_fields m) = length ?ws"
    using wire_ready_names [OF assms(1)] by (metis length_map)
  show "fill_fields (msg_class m) raw = msg_fields m"
  proof (rule nth_equalityI)
    fix i
    assume "i < length (fill_fields (msg_class m) raw)"
    then have i: "i < length ?ws" by (simp add: fill_fields_def)
    then show "fill_fields (msg_class m) raw ! i = msg_fields m ! i"
      using at [OF i] wire_ready_nth(2,4) [OF assms(1) i]
      by (cases "msg_fields m ! i"; cases "?ws ! i") (auto simp: fill_fields_def Let_def)
  qed (simp add: fill_fields_def len)
qed

lemma decode_object_present:
  assumes "wire_ready m"
  shows "decode_object py ((''type'', JStr (wire_type (msg_class m)))
       # filter (\<lambda>(k, v). v \<noteq> JNull) (msg_fields m)) = Inr m"
proof -
  let ?raw = "filter (\<lambda>(k, v). v \<noteq> JNull) (msg_fields m)"
  have "''type'' \<notin> fst ` set (msg_fields m)"
    using wire_ready_names [OF assms] wire_fields_no_type [of "msg_class m"] by (metis list.set_map)
  then have "dict_del ''type'' ((''type'', JStr (wire_type (msg_class m))) # ?raw) = ?raw"
    by (force simp: dict_del_def intro!: filter_cong)
  then show ?thesis
    using fill_present [OF assms] by (simp add: decode_object_def REGISTRY_wire_type build_def)
qed

definition encoded_object :: "message \<Rightarrow> json" where
  "encoded_object m = JObj ((''type'', JStr (wire_type (msg_class m)))
     # filter (\<lambda>(k, v). v \<noteq> JNull) (msg_fields m))"

lemma encode_object: "encode frepr m = dumps frepr (encoded_object m) @ [newline]"
  by (simp add: encode_def encoded_object_def)

lemma plain_encoded:
  assumes "wire_ready m"
  shows "plain (encoded_object m)"
proof -
  have "distinct (map fst (msg_fields m))" "''type'' \<notin> fst ` set (msg_fields m)"
    using wire_ready_names [OF assms] wire_fields_distinct wire_fields_no_type [of "msg_class m"]
    by (simp, metis list.set_map)
  moreover have "plain v" if "(f, v) \<in> set (msg_fields m)" for f v
    using that assms wire_ready_names [OF assms] wire_ready_nth(3) [OF assms]
    by (metis in_set_conv_nth length_map snd_conv)
  ultimately show ?thesis
    by (auto simp: encoded_object_def list_all_iff intro: distinct_map_filter)
qed

lemma decode_encoded: "wire_ready m \<Longrightarrow> decode py (dumps frepr (encoded_object m)) = Inr m"
  using loads_dumps [OF plain_encoded, of m frepr] decode_object_present [of m py]
  by (simp add: decode_def encoded_object_def)

lemma strip_encode: "strip (encode frepr m) = dumps frepr (encoded_object m)"
proof -
  have "\<exists>s. dumps frepr (encoded_object m) = CHR ''{'' # s @ ''}''"
    by (simp add: encoded_object_def)
  then show ?thesis
    by (auto simp: encode_object strip_def lstrip_def rstrip_def is_space_def code_def Let_def)
qed

text \<open>Framing: the printed line holds no line feed, so a stream splits where it was joined.\<close>

lemma show_nat_no_newline: "newline \<notin> set (show_nat n)"
proof
  assume "newline \<in> set (show_nat n)"
  with show_nat_digits [of n] have "is_digit newline" by (auto simp: list_all_iff)
  then show False by (simp add: is_digit_def code_def)
qed

lemma escape_char_no_newline: "newline \<notin> set (escape_char c)"
  using escape_char_ascii [of newline c] by (auto simp: code_def)

lemma dumps_str_no_newline: "newline \<notin> set (dumps_str s)"
  using escape_char_no_newline by (auto simp: dumps_str_def quote_def)

lemma set_join: "set (join sep xs) \<subseteq> set sep \<union> \<Union> (set ` set xs)"
  by (induction sep xs rule: join.induct) auto

lemma dumps_no_newline: "plain j \<Longrightarrow> newline \<notin> set (dumps frepr j)"
proof (induction j)
  case (JArr xs)
  then show ?case using set_join [of "'', ''" "map (dumps frepr) xs"] by (auto simp: list_all_iff)
next
  case (JObj kvs)
  then show ?case
    using set_join [of "'', ''" "map (\<lambda>(k, v). dumps_str k @ '': '' @ dumps frepr v) kvs"]
    by (fastforce simp: list_all_iff dumps_str_no_newline)
qed (auto simp: show_int_def show_nat_no_newline dumps_str_no_newline)

text \<open>Reading lines off a stream, as \<^verbatim>\<open>async for raw in reader\<close> does.\<close>

function stream_lines :: "pystr \<Rightarrow> pystr list" where
  "stream_lines s =
     (if newline \<in> set s
      then (takeWhile (\<lambda>c. c \<noteq> newline) s @ [newline])
           # stream_lines (tl (dropWhile (\<lambda>c. c \<noteq> newline) s))
      else if s = [] then [] else [s])"
  by pat_completeness auto
termination
proof (relation "measure length")
  fix s :: pystr
  assume "newline \<in> set s"
  then have "dropWhile (\<lambda>c. c \<noteq> newline) s \<noteq> []" by (auto simp: dropWhile_eq_Nil_conv)
  then show "(tl (dropWhile (\<lambda>c. c \<noteq> newline) s), s) \<in> measure length"
    using length_dropWhile_le [of "\<lambda>c. c \<noteq> newline" s]
    by (cases "dropWhile (\<lambda>c. c \<noteq> newline) s") auto
qed simp

declare stream_lines.simps [simp del]

lemma stream_lines_line:
  "newline \<notin> set l \<Longrightarrow> stream_lines (l @ newline # s) = (l @ [newline]) # stream_lines s"
  by (subst stream_lines.simps) (simp add: takeWhile_append dropWhile_append)

lemma stream_lines_encoded:
  "list_all wire_ready ms \<Longrightarrow> stream_lines (concat (map (encode frepr) ms)) = map (encode frepr) ms"
proof (induction ms)
  case Nil
  then show ?case by (simp add: stream_lines.simps [of "[]"])
next
  case (Cons m ms)
  then show ?case
    using dumps_no_newline [OF plain_encoded, of m frepr]
    by (simp add: encode_object stream_lines_line)
qed


lemma build_cases:
  "case build py c raw of
     Inr m \<Rightarrow> msg_class m = c \<and> map fst (msg_fields m) = map fst (wire_fields c)
   | Inl e \<Rightarrow> \<exists>t. e = ProtocolError t"
  by (auto simp: build_def fill_fields_def)

lemma decode_object_cases:
  "case decode_object py raw of
     Inr m \<Rightarrow> map_of raw ''type'' = Some (JStr (wire_type (msg_class m))) \<and>
       map fst (msg_fields m) = map fst (wire_fields (msg_class m))
   | Inl e \<Rightarrow> (\<exists>t. e = ProtocolError t) \<or>
       ((\<exists>t. e = Foreign ''TypeError'' t) \<and>
        (\<exists>xs kvs. map_of raw ''type'' = Some (JArr xs) \<or> map_of raw ''type'' = Some (JObj kvs)))"
proof (cases "map_of raw ''type''")
  case (Some t)
  show ?thesis
  proof (cases t)
    case (JStr s)
    show ?thesis
    proof (cases "map_of REGISTRY s")
      case (Some c)
      then show ?thesis
        using build_cases [where py = py and c = c and raw = "dict_del ''type'' raw"] REGISTRY_only [OF Some] \<open>map_of raw ''type'' = Some t\<close>
        by (auto simp: decode_object_def JStr split: sum.splits)
    qed (simp add: decode_object_def \<open>map_of raw ''type'' = Some t\<close> JStr)
  qed (simp_all add: decode_object_def Some)
qed (simp add: decode_object_def)

section \<open>Properties\<close>



text \<open>
   What \<^verbatim>\<open>decode\<close> can do with a line: give a message with exactly the fields of the class
  its type names, raise \<^verbatim>\<open>ProtocolError\<close>, or, only when the type is itself a list or an object,
  raise a foreign \<^verbatim>\<open>TypeError\<close>.
\<close>

theorem decode_outcomes:
  "case decode py line of
     Inr m \<Rightarrow> map fst (msg_fields m) = map fst (wire_fields (msg_class m)) \<and>
       (\<exists>raw. loads line = Some (JObj raw) \<and>
          map_of raw ''type'' = Some (JStr (wire_type (msg_class m))))
   | Inl e \<Rightarrow> (\<exists>t. e = ProtocolError t) \<or>
       ((\<exists>t. e = Foreign ''TypeError'' t) \<and> (\<exists>raw xs kvs. loads line = Some (JObj raw) \<and>
          (map_of raw ''type'' = Some (JArr xs) \<or> map_of raw ''type'' = Some (JObj kvs))))"
proof (cases "loads line")
  case (Some j)
  show ?thesis
  proof (cases j)
    case (JObj raw)
    show ?thesis
      using decode_object_cases [where py = py and raw = raw] by (auto simp: decode_def Some JObj split: sum.splits)
  qed (simp_all add: decode_def Some)
qed (simp add: decode_def)

text \<open>
   A line whose type is a list makes \<^verbatim>\<open>decode\<close> raise \<^verbatim>\<open>TypeError\<close>, which is outside the
  exception hierarchy callers catch, although \<^verbatim>\<open>decode\<close> promises \<^verbatim>\<open>ProtocolError\<close> for any
  malformed input.
\<close>

theorem decode_unhashable_type:
  "\<exists>t. decode py (dumps frepr (JObj [(''type'', JArr [])])) = Inl (Foreign ''TypeError'' t) \<and>
     \<not> is_nixadmin (Foreign ''TypeError'' t)"
proof -
  have "loads (dumps frepr (JObj [(''type'', JArr [])])) = Some (JObj [(''type'', JArr [])])"
    by (rule loads_dumps) simp
  then show ?thesis by (simp add: decode_def decode_object_def)
qed

text \<open>
   The handshake lets a client proceed only after a Hello within the size limit whose
  version range contains the client's version, with both ends real integers
  (no booleans, no floats).
\<close>

theorem handshake_compatible:
  "(case negotiate py line of
      Inr m \<Rightarrow> msg_class m = Hello \<and> utf8_length line \<le> 65536 \<and>
        (\<exists>lo hi. get_field m ''min_version'' = JInt lo \<and> get_field m ''version'' = JInt hi \<and>
           lo \<le> VERSION \<and> VERSION \<le> hi)
    | Inl e \<Rightarrow> True)"
  by (auto simp: negotiate_def decode_line_def validate_hello_def require_compatible_def MAX_LINE_BYTES_def
      split: sum.splits if_splits option.splits json.splits prod.splits)

end
