(* ===== verification/Daemon_State.thy ===== *)
theory Daemon_State
  imports Remediation Store Protocol
begin

text \<open>
  The state of the daemon object (\<^verbatim>\<open>server.py\<close>, class \<^verbatim>\<open>Daemon\<close>): the machine it runs on, the
  event store, the messages handed to the transport, the autofix engine's and the timeline
  service's sets of known failures and the sessions. Operations of the parts that only touch
  the machine are lifted to this state. \<open>dm_sent\<close> holds what was broadcast, \<open>dm_replies\<close> what
  was sent to the client whose request is handled. Between two awaits a handler runs alone; a handler is
  modelled as one sequence of steps.
\<close>

record session_state =
  last_test_ok :: bool
  last_test_at :: "real option"
  remembered :: "(pystr \<times> pystr) list"

definition new_session :: session_state where
  "new_session = \<lparr>last_test_ok = False, last_test_at = None, remembered = []\<rparr>"

type_synonym unit_key = "pystr \<times> pystr"

record 'w daemon =
  dm_world :: 'w
  dm_store :: store
  dm_sent :: "message list"
  dm_replies :: "message list"
  dm_seen :: "unit_key set"
  dm_seen_failures :: "unit_key set"
  dm_sessions :: "pystr \<rightharpoonup> session_state"
  dm_context :: "pystr \<rightharpoonup> pystr \<times> real"
  dm_names :: "pystr \<rightharpoonup> pystr list"

definition new_daemon :: "'w \<Rightarrow> store \<Rightarrow> 'w daemon" where
  "new_daemon w st = \<lparr>dm_world = w, dm_store = st, dm_sent = [], dm_replies = [],
     dm_seen = {}, dm_seen_failures = {}, dm_sessions = Map.empty, dm_context = Map.empty,
     dm_names = Map.empty\<rparr>"

definition lift :: "('w, 'a) act \<Rightarrow> ('w daemon, 'a) act" where
  "lift m d = (let (r, w) = m (dm_world d) in (r, d\<lparr>dm_world := w\<rparr>))"

text \<open>The machine as the daemon's own operations see it.\<close>

definition daemon_host :: "'w host \<Rightarrow> 'w daemon host" where
  "daemon_host h = \<lparr>
     spawn = (\<lambda>cmd t d. let (r, w) = spawn h cmd t (dm_world d) in (r, d\<lparr>dm_world := w\<rparr>)),
     kill_group = (\<lambda>d. d\<lparr>dm_world := kill_group h (dm_world d)\<rparr>),
     sleep = (\<lambda>t d. d\<lparr>dm_world := sleep h t (dm_world d)\<rparr>),
     clock = (\<lambda>d. clock h (dm_world d)),
     db_up = (\<lambda>d. db_up h (dm_world d))\<rparr>"

text \<open>\<^verbatim>\<open>store.append\<close>, \<^verbatim>\<open>store.recent\<close>, \<^verbatim>\<open>store.earliest\<close> on the daemon's store.\<close>

definition append_store :: "'w host \<Rightarrow> new_event \<Rightarrow> ('w daemon, int) act" where
  "append_store h e d =
     (let (i, st) = st_append (db_up h (dm_world d)) (clock h (dm_world d)) e (dm_store d)
      in (Inr i, d\<lparr>dm_store := st\<rparr>))"

definition recent_store :: "'w host \<Rightarrow> int \<Rightarrow> query \<Rightarrow> ('w daemon, event list) act" where
  "recent_store h limit q d = (Inr (st_recent (db_up h (dm_world d)) limit q (dm_store d)), d)"

definition earliest_store :: "'w host \<Rightarrow> ('w daemon, real option) act" where
  "earliest_store h d = (Inr (st_earliest (db_up h (dm_world d)) (dm_store d)), d)"

definition now :: "'w host \<Rightarrow> ('w daemon, real) act" where
  "now h d = (Inr (clock h (dm_world d)), d)"

text \<open>Handing a message to the transport.\<close>

definition send :: "message \<Rightarrow> ('w daemon, unit) act" where
  "send m d = (Inr (), d\<lparr>dm_sent := dm_sent d @ [m]\<rparr>)"

definition send_event :: "pystr \<Rightarrow> pystr \<Rightarrow> pystr \<Rightarrow> ('w daemon, unit) act" where
  "send_event source severity txt =
     send (mk_message Event [JStr source, JStr severity, JStr txt])"

lemma lift_simps [host_simps]:
  "m (dm_world d) = (r, w) \<Longrightarrow> lift m d = (r, d\<lparr>dm_world := w\<rparr>)"
  by (simp add: lift_def)

lemma store_act_simps [host_simps]:
  "recent_store h limit q d = (Inr (st_recent (db_up h (dm_world d)) limit q (dm_store d)), d)"
  "now h d = (Inr (clock h (dm_world d)), d)"
  "send m d = (Inr (), d\<lparr>dm_sent := dm_sent d @ [m]\<rparr>)"
  by (simp_all add: recent_store_def now_def send_def)

text \<open>What an operation on the machine alone leaves as it was.\<close>

lemma lift_keeps:
  "dm_store (snd (lift m d)) = dm_store d" "dm_sent (snd (lift m d)) = dm_sent d"
  "dm_seen (snd (lift m d)) = dm_seen d" "dm_seen_failures (snd (lift m d)) = dm_seen_failures d"
  "dm_sessions (snd (lift m d)) = dm_sessions d" "dm_world (snd (lift m d)) = snd (m (dm_world d))"
  "fst (lift m d) = fst (m (dm_world d))"
  by (simp_all add: lift_def split: prod.split)

end
