(* ===== verification/Autofix.thy ===== *)
theory Autofix
  imports Daemon_State
begin

text \<open>
  \<^verbatim>\<open>autofix.py\<close> and \<^verbatim>\<open>autofix_engine.py\<close>: the policy for a failed unit and the engine that polls,
  decides, acts and records. The engine is the daemon's: its emitter is the event broadcast
  and its privileged restart the safety gate's, given as an operation on the machine.
\<close>

section \<open>Policy\<close>

datatype autofix_decision = Do_restart | Do_inform | Do_skip

record autofix_config =
  af_enable :: bool
  af_system :: bool
  af_max_attempts :: int
  af_window_s :: real

definition default_config :: autofix_config where
  "default_config = \<lparr>af_enable = True, af_system = True, af_max_attempts = 1, af_window_s = 3600\<rparr>"

definition decide :: "pystr \<Rightarrow> int \<Rightarrow> autofix_config \<Rightarrow> autofix_decision" where
  "decide scope prior_attempts cfg =
     (if \<not> af_enable cfg then Do_skip
      else if scope = ''system'' \<and> \<not> af_system cfg then Do_inform
      else if af_max_attempts cfg \<le> prior_attempts then Do_inform
      else Do_restart)"

section \<open>Engine\<close>

definition action_of :: "event \<Rightarrow> json option" where
  "action_of e = map_of (ev_meta e) ''action''"

definition count_restarts :: "event list \<Rightarrow> int" where
  "count_restarts es = int (length (filter (\<lambda>e. action_of e = Some (JStr ''restart'')) es))"

definition prior_query :: "pystr \<Rightarrow> real \<Rightarrow> query" where
  "prior_query u since = \<lparr>q_unit = Some u, q_kind = Some ''autofix'', q_since = Some since, q_before = None\<rparr>"

definition inform_text :: "pystr \<Rightarrow> int \<Rightarrow> pystr" where
  "inform_text u attempts =
     (if attempts \<noteq> 0 then u @ '' keeps failing and needs a real fix.''
      else u @ '' stopped and needs attention.'')"

definition inform_event :: "pystr \<Rightarrow> pystr \<Rightarrow> pystr \<Rightarrow> int \<Rightarrow> int \<Rightarrow> new_event" where
  "inform_event u scope txt recorded systemd =
     \<lparr>new_kind = ''autofix'', new_unit = Some u, new_scope = Some scope, new_severity = Some ''warning'',
      new_text = txt, new_meta = Some [(''action'', JStr ''inform''),
        (''recorded_attempts'', JInt recorded), (''systemd_restarts'', JInt systemd)]\<rparr>"

definition restart_event :: "pystr \<Rightarrow> pystr \<Rightarrow> restart_outcome \<Rightarrow> int \<Rightarrow> new_event" where
  "restart_event u scope outcome attempts =
     \<lparr>new_kind = ''autofix'', new_unit = Some u, new_scope = Some scope,
      new_severity = Some (if out_ok outcome then ''info'' else ''warning''),
      new_text = out_message outcome, new_meta = Some [(''action'', JStr ''restart''),
        (''outcome'', JStr (if out_ok outcome then ''healthy'' else ''still_failing'')),
        (''attempt'', JInt (attempts + 1))]\<rparr>"

definition silent_status :: "pystr \<Rightarrow> ('w, unit) act" where
  "silent_status txt = ret ()"

definition emit_outcome :: "pystr \<Rightarrow> restart_outcome \<Rightarrow> ('w daemon, unit) act" where
  "emit_outcome u outcome =
     (if out_ok outcome
      then send_event ''autofix'' ''info''
        (u @ '' stopped, so I restarted it '' @ [emdash] @ '' it's healthy again.'')
      else send_event ''autofix'' ''warning''
        (u @ '' stopped and a restart didn't fix it '' @ [emdash] @ '' it needs attention.''))"

definition handle_unit ::
  "'w host \<Rightarrow> autofix_config \<Rightarrow> (pystr \<Rightarrow> ('w, pystr) act) \<Rightarrow> pystr \<Rightarrow> pystr \<Rightarrow> ('w daemon, unit) act" where
  "handle_unit h cfg restart_system u scope =
     andthen (now h) (\<lambda>t.
     andthen (recent_store h 50 (prior_query u (t - af_window_s cfg))) (\<lambda>prior.
     andthen (lift (restart_count h u scope)) (\<lambda>systemd.
       let recorded = count_restarts prior;
           attempts = max recorded systemd
       in case decide scope attempts cfg of
            Do_skip \<Rightarrow> ret ()
          | Do_inform \<Rightarrow>
              andthen (append_store h (inform_event u scope (inform_text u attempts) recorded systemd)) (\<lambda>_.
                send_event ''autofix'' ''warning'' (inform_text u attempts))
          | Do_restart \<Rightarrow>
              andthen (lift (restart_resolved h silent_status (Some restart_system) u scope)) (\<lambda>outcome.
              andthen (append_store h (restart_event u scope outcome attempts)) (\<lambda>_.
                emit_outcome u outcome)))))"

text \<open>\<^verbatim>\<open>{(unit, scope): unit for unit in units}\<close>: the keys, each once, in order.\<close>

definition failed_keys :: "failed_unit list \<Rightarrow> unit_key list" where
  "failed_keys us = dict_fromkeys (map (\<lambda>f. (fu_unit f, fu_scope f)) us)"

definition seed :: "'w host \<Rightarrow> ('w daemon, unit) act" where
  "seed h = andthen (lift (failed_units h)) (\<lambda>us d. (Inr (), d\<lparr>dm_seen := set (failed_keys us)\<rparr>))"

fun handle_new ::
  "'w host \<Rightarrow> autofix_config \<Rightarrow> (pystr \<Rightarrow> ('w, pystr) act) \<Rightarrow> unit_key list \<Rightarrow> ('w daemon, unit) act" where
  "handle_new h cfg rs [] d = (Inr (), d)"
| "handle_new h cfg rs (k # ks) d =
     (if k \<in> dm_seen d then handle_new h cfg rs ks d
      else andthen (try_nixadmin (handle_unit h cfg rs (fst k) (snd k)) (\<lambda>e. ret ()))
             (\<lambda>_. handle_new h cfg rs ks) (d\<lparr>dm_seen := insert k (dm_seen d)\<rparr>))"

definition run_once ::
  "'w host \<Rightarrow> autofix_config \<Rightarrow> (pystr \<Rightarrow> ('w, pystr) act) \<Rightarrow> ('w daemon, unit) act" where
  "run_once h cfg restart_system =
     andthen (lift (failed_units h)) (\<lambda>us d.
       handle_new h cfg restart_system (failed_keys us) (d\<lparr>dm_seen := dm_seen d \<inter> set (failed_keys us)\<rparr>))"


section \<open>Time does not run backwards\<close>

text \<open>
  An operation on the machine that never sets the clock back; every operation of the
  remediation tier is one when the machine's primitives and the helper are.
\<close>

definition later :: "'w host \<Rightarrow> ('w, 'a) act \<Rightarrow> bool" where
  "later h m \<longleftrightarrow> (\<forall>w. clock h w \<le> clock h (snd (m w)))"

definition steady :: "'w host \<Rightarrow> (pystr \<Rightarrow> ('w, pystr) act) \<Rightarrow> bool" where
  "steady h restart_system \<longleftrightarrow>
     (\<forall>c t w. clock h w \<le> clock h (snd (spawn h c t w))) \<and>
     (\<forall>w. clock h w \<le> clock h (kill_group h w)) \<and>
     (\<forall>w. clock h w \<le> clock h (sleep h 1 w)) \<and>
     (\<forall>u. later h (restart_system u))"

lemma later_ret: "later h (ret x)" "later h (raise e)"
  by (simp_all add: later_def ret_def raise_def)

lemma later_andthen: "later h m \<Longrightarrow> (\<And>x. later h (f x)) \<Longrightarrow> later h (andthen m f)"
  unfolding later_def andthen_def
  by (auto split: prod.split sum.split) (metis order_trans snd_conv)+

lemma later_try: "later h m \<Longrightarrow> (\<And>e. later h (k e)) \<Longrightarrow> later h (try_nixadmin m k)"
  unfolding later_def try_nixadmin_def
  by (auto split: prod.split sum.split) (metis order_trans snd_conv)+

lemma later_run: "steady h rs \<Longrightarrow> later h (run h c t)"
  unfolding later_def
proof
  fix w
  assume s: "steady h rs"
  obtain r w' where r: "spawn h c t w = (r, w')" by fastforce
  with s have "clock h w \<le> clock h w'" by (metis snd_conv steady_def)
  moreover have "clock h w' \<le> clock h (kill_group h w')" using s by (simp add: steady_def)
  ultimately show "clock h w \<le> clock h (snd (run h c t w))"
    by (cases r) (simp_all add: run_def r)
qed

lemma later_cases:
  "(\<And>a b. later h (f a b)) \<Longrightarrow> later h (case p of (a, b) \<Rightarrow> f a b)"
  "later h m \<Longrightarrow> (\<And>x. later h (g x)) \<Longrightarrow> later h (case v of None \<Rightarrow> m | Some x \<Rightarrow> g x)"
  "later h m \<Longrightarrow> later h m' \<Longrightarrow> later h (if b then m else m')"
  by (simp_all split: prod.split option.split)

lemmas later_rules = later_ret later_andthen later_try later_run later_cases

lemma later_restart_count: "steady h rs \<Longrightarrow> later h (restart_count h u scope)"
  unfolding restart_count_def by (intro later_rules)

lemma later_issue_restart: "steady h rs \<Longrightarrow> later h (issue_restart h (Some rs) u scope)"
proof -
  assume s: "steady h rs"
  note r = later_run [OF s]
  show ?thesis unfolding issue_restart_def option.case
    by (intro later_ret later_andthen later_try later_cases r) (use s in \<open>simp add: steady_def\<close>)
qed

lemma later_verify_restart:
  assumes "steady h rs"
  shows "later h (verify_restart h u scope)"
proof -
  have "later h (andthen (is_failed h u scope) (\<lambda>failed.
       if \<not> failed then ret (mk_outcome True (healthy_again u))
       else andthen (unit_tail h u scope) (\<lambda>reason.
              ret (mk_outcome False (still_failing u reason)))))"
    unfolding is_failed_def unit_tail_def using assms by (intro later_rules)
  with assms show ?thesis
    unfolding later_def verify_restart_def steady_def by (meson order_trans)
qed

lemma later_restart_resolved:
  "steady h rs \<Longrightarrow> later h (restart_resolved h silent_status (Some rs) u scope)"
  unfolding restart_resolved_def silent_status_def
  by (intro later_rules later_issue_restart later_verify_restart)

section \<open>The loop guard\<close>

text \<open>The restarts of a unit the engine has on record, in a span of time.\<close>

definition is_restart_row :: "pystr \<Rightarrow> row \<Rightarrow> bool" where
  "is_restart_row u r \<longleftrightarrow> row_kind r = ''autofix'' \<and> row_unit r = Some u \<and>
     action_of (decode_row r) = Some (JStr ''restart'')"

definition restarts_in :: "pystr \<Rightarrow> real \<Rightarrow> real \<Rightarrow> event_db \<Rightarrow> int" where
  "restarts_in u a b db =
     int (length (filter (\<lambda>r. is_restart_row u r \<and> a \<le> row_ts r \<and> row_ts r \<le> b) (rows db)))"

text \<open>No window of the configured length holds more restarts of one unit than allowed.\<close>

definition rate_ok :: "autofix_config \<Rightarrow> event_db \<Rightarrow> bool" where
  "rate_ok cfg db \<longleftrightarrow> (\<forall>u t. restarts_in u t (t + af_window_s cfg) db \<le> max 0 (af_max_attempts cfg))"

lemma length_filter_insert_newest:
  "length (filter P (insert_newest r rs)) = length (filter P (r # rs))"
  by (induction rs) auto

lemma length_filter_order_newest: "length (filter P (order_newest rs)) = length (filter P rs)"
  by (induction rs) (auto simp: length_filter_insert_newest)

text \<open>The engine's count is the true one while the window holds at most 50 autofix events.\<close>

lemma recorded_attempts_exact:
  assumes "length (filter (selects (prior_query u since)) (rows db)) \<le> 50"
  shows "count_restarts (query_rows 50 (prior_query u since) db) =
     int (length (filter (\<lambda>r. is_restart_row u r \<and> since \<le> row_ts r) (rows db)))"
proof -
  have "query_rows 50 (prior_query u since) db =
      map decode_row (order_newest (filter (selects (prior_query u since)) (rows db)))"
    using assms by (simp add: query_rows_def clamp_limit_def)
  moreover have "filter (\<lambda>r. selects (prior_query u since) r \<and> action_of (decode_row r) = Some (JStr ''restart'')) (rows db) =
      filter (\<lambda>r. is_restart_row u r \<and> since \<le> row_ts r) (rows db)"
    by (auto simp: selects_def prior_query_def is_restart_row_def intro: filter_cong)
  ultimately show ?thesis
    by (simp add: count_restarts_def filter_map comp_def length_filter_order_newest conj_commute)
qed

lemma meta_inform: "map_of (decode_meta (meta_text (new_meta (inform_event u s t a b)))) ''action'' = Some (JStr ''inform'')"
  by (simp add: inform_event_def decode_meta_text)

lemma append_event_rows:
  "rows (snd (append_event b ts e db)) = rows db \<or>
   (\<exists>r. rows (snd (append_event b ts e db)) = rows db @ [r] \<and> row_ts r = ts \<and>
     row_kind r = new_kind e \<and> row_unit r = new_unit e \<and> row_meta r = meta_text (new_meta e))"
  by (auto simp: append_event_def insert_row_def Let_def)

lemma rate_ok_inform:
  assumes "rate_ok cfg db"
  shows "rate_ok cfg (snd (append_event b ts (inform_event u s txt m n) db))"
proof -
  have "\<not> is_restart_row v r" if "row_meta r = meta_text (new_meta (inform_event u s txt m n))" for v r
    using that meta_inform by (simp add: is_restart_row_def action_of_def decode_row_def)
  then show ?thesis
    using append_event_rows [of b ts "inform_event u s txt m n" db] assms
    by (auto simp: rate_ok_def restarts_in_def)
qed

text \<open>A restart recorded at \<open>ts\<close> is allowed when the window before it has room.\<close>

lemma rate_ok_restart:
  assumes "rate_ok cfg db" and "new_unit e = Some u" and "since \<le> ts - af_window_s cfg"
    and "int (length (filter (\<lambda>r. is_restart_row u r \<and> since \<le> row_ts r) (rows db))) < af_max_attempts cfg"
  shows "rate_ok cfg (snd (append_event b ts e db))"
  unfolding rate_ok_def
proof (intro allI)
  fix v t
  let ?P = "\<lambda>r. is_restart_row v r \<and> t \<le> row_ts r \<and> row_ts r \<le> t + af_window_s cfg"
  consider (same) "rows (snd (append_event b ts e db)) = rows db"
    | (new) r where "rows (snd (append_event b ts e db)) = rows db @ [r]" "row_ts r = ts" "row_unit r = Some u"
    using append_event_rows [of b ts e db] assms(2) by metis
  then show "restarts_in v t (t + af_window_s cfg) (snd (append_event b ts e db)) \<le> max 0 (af_max_attempts cfg)"
  proof cases
    case same
    with assms(1) show ?thesis by (simp add: rate_ok_def restarts_in_def)
  next
    case new
    show ?thesis
    proof (cases "?P r")
      case False
      then have "filter ?P (rows db @ [r]) = filter ?P (rows db)" by simp
      with new(1) assms(1) show ?thesis unfolding rate_ok_def restarts_in_def by presburger
    next
      case True
      then have v: "v = u" and t: "since \<le> t" using new assms(3) by (auto simp: is_restart_row_def)
      have "length (filter ?P (rows db)) \<le> length (filter (\<lambda>r. is_restart_row u r \<and> since \<le> row_ts r) (rows db))"
        using v t by (intro length_filter_mono) auto
      with True new(1) assms(4) show ?thesis by (simp add: restarts_in_def)
    qed
  qed
qed


text \<open>What handling a unit can do to the store.\<close>

lemma handle_unit_store:
  assumes s: "steady h rs" and up: "\<forall>w. db_up h w"
    and db: "dm_store d = EventStore db" "\<not> closed db"
  obtains (same) "dm_store (snd (handle_unit h cfg rs u scope d)) = EventStore db"
    | (inform) ts tx k l where "dm_store (snd (handle_unit h cfg rs u scope d)) =
        EventStore (snd (append_event True ts (inform_event u scope tx k l) db))"
    | (restart) ts e where "dm_store (snd (handle_unit h cfg rs u scope d)) =
        EventStore (snd (append_event True ts e db))" "new_unit e = Some u"
        "clock h (dm_world d) \<le> ts"
        "count_restarts (query_rows 50 (prior_query u (clock h (dm_world d) - af_window_s cfg)) db)
           < af_max_attempts cfg"
proof -
  let ?t = "clock h (dm_world d)"
  let ?prior = "query_rows 50 (prior_query u (?t - af_window_s cfg)) db"
  obtain r w1 where c: "restart_count h u scope (dm_world d) = (r, w1)" by fastforce
  have t1: "?t \<le> clock h w1"
    using later_restart_count [OF s] unfolding later_def by (metis c snd_conv)
  have prior: "st_recent True 50 (prior_query u (?t - af_window_s cfg)) (EventStore db) = ?prior"
    using db by (simp add: st_recent_def recent_def)
  show ?thesis
  proof (cases r)
    case (Inl e)
    then have "dm_store (snd (handle_unit h cfg rs u scope d)) = EventStore db"
      using db by (simp add: handle_unit_def andthen_def now_def recent_store_def lift_def c)
    then show ?thesis by (rule same)
  next
    case (Inr systemd)
    let ?a = "max (count_restarts ?prior) systemd"
    note unfold = handle_unit_def andthen_def now_def recent_store_def lift_def Let_def
      append_store_def st_append_def send_event_def send_def
    show ?thesis
    proof (cases "decide scope ?a cfg")
      case Do_skip
      then have "dm_store (snd (handle_unit h cfg rs u scope d)) = EventStore db"
        using db up by (simp add: unfold c Inr prior ret_def)
      then show ?thesis by (rule same)
    next
      case Do_inform
      then have "dm_store (snd (handle_unit h cfg rs u scope d)) =
          EventStore (snd (append_event True (clock h w1)
            (inform_event u scope (inform_text u ?a) (count_restarts ?prior) systemd) db))"
        using db up by (simp add: unfold c Inr prior split: prod.split)
      then show ?thesis by (rule inform)
    next
      case Do_restart
      obtain o' w2 where r2: "restart_resolved h silent_status (Some rs) u scope w1 = (o', w2)" by fastforce
      have t2: "?t \<le> clock h w2"
        using t1 later_restart_resolved [OF s] unfolding later_def by (metis order_trans r2 snd_conv)
      show ?thesis
      proof (cases o')
        case (Inl e)
        then have "dm_store (snd (handle_unit h cfg rs u scope d)) = EventStore db"
          using db up Do_restart by (simp add: unfold c \<open>r = Inr systemd\<close> prior r2 Inl)
        then show ?thesis by (rule same)
      next
        case (Inr outcome)
        have "dm_store (snd (handle_unit h cfg rs u scope d)) =
            EventStore (snd (append_event True (clock h w2) (restart_event u scope outcome ?a) db))"
          using db up Do_restart
          by (simp add: unfold c \<open>r = Inr systemd\<close> prior r2 Inr emit_outcome_def split: prod.split)
        moreover have "count_restarts ?prior < af_max_attempts cfg"
          using Do_restart by (auto simp: decide_def split: if_splits)
        moreover have "new_unit (restart_event u scope outcome ?a) = Some u"
          by (simp add: restart_event_def)
        ultimately show ?thesis using t2 by (intro restart)
      qed
    qed
  qed
qed

section \<open>Episodes\<close>

lemma handle_unit_seen: "dm_seen (snd (handle_unit h cfg rs u scope d)) = dm_seen d"
  by (auto simp: handle_unit_def andthen_def now_def recent_store_def lift_def Let_def append_store_def
      send_event_def send_def emit_outcome_def ret_def split: prod.split sum.split autofix_decision.split)

lemma handle_unit_sent: "length (dm_sent (snd (handle_unit h cfg rs u scope d))) \<le> Suc (length (dm_sent d))"
  by (auto simp: handle_unit_def andthen_def now_def recent_store_def lift_def Let_def append_store_def
      send_event_def send_def emit_outcome_def ret_def split: prod.split sum.split autofix_decision.split)

lemma try_handle_unit:
  "snd (try_nixadmin (handle_unit h cfg rs u scope) (\<lambda>e. ret ()) d) = snd (handle_unit h cfg rs u scope d)"
  by (auto simp: try_nixadmin_def ret_def split: prod.split sum.split)

lemma handle_new_seen:
  "handle_new h cfg rs ks d = (Inr (), d') \<Longrightarrow> dm_seen d' = dm_seen d \<union> set ks"
proof (induction ks arbitrary: d)
  case (Cons k ks)
  show ?case
  proof (cases "k \<in> dm_seen d")
    case True
    with Cons show ?thesis by auto
  next
    case False
    let ?d = "d\<lparr>dm_seen := insert k (dm_seen d)\<rparr>"
    from Cons.prems False obtain x d1 where
      t: "try_nixadmin (handle_unit h cfg rs (fst k) (snd k)) (\<lambda>e. ret ()) ?d = (Inr x, d1)"
      and n: "handle_new h cfg rs ks d1 = (Inr (), d')" by (auto elim!: andthen_InrE)
    have "dm_seen d1 = dm_seen ?d"
      using try_handle_unit [of h cfg rs "fst k" "snd k" ?d] handle_unit_seen t by (metis snd_conv)
    with Cons.IH [OF n] show ?thesis by auto
  qed
qed simp

lemma handle_new_known: "set ks \<subseteq> dm_seen d \<Longrightarrow> handle_new h cfg rs ks d = (Inr (), d)"
  by (induction ks) auto

lemma handle_new_sent:
  "distinct ks \<Longrightarrow> length (dm_sent (snd (handle_new h cfg rs ks d))) \<le>
     length (dm_sent d) + length (filter (\<lambda>k. k \<notin> dm_seen d) ks)"
proof (induction ks arbitrary: d)
  case (Cons k ks)
  show ?case
  proof (cases "k \<in> dm_seen d")
    case True
    with Cons show ?thesis by simp
  next
    case False
    let ?d = "d\<lparr>dm_seen := insert k (dm_seen d)\<rparr>"
    let ?m = "try_nixadmin (handle_unit h cfg rs (fst k) (snd k)) (\<lambda>e. ret ())"
    obtain r d1 where t: "?m ?d = (r, d1)" by fastforce
    have d1: "d1 = snd (handle_unit h cfg rs (fst k) (snd k) ?d)"
      using try_handle_unit t by (metis snd_conv)
    then have seen: "dm_seen d1 = insert k (dm_seen d)" by (simp add: handle_unit_seen)
    have sent: "length (dm_sent d1) \<le> Suc (length (dm_sent d))"
      using handle_unit_sent [of h cfg rs "fst k" "snd k" ?d] unfolding d1 by simp
    have "filter (\<lambda>k'. k' \<notin> dm_seen d1) ks = filter (\<lambda>k'. k' \<notin> dm_seen d) ks"
      using Cons.prems seen by (auto intro!: filter_cong)
    then have "length (dm_sent (snd (handle_new h cfg rs ks d1))) \<le>
        length (dm_sent d1) + length (filter (\<lambda>k'. k' \<notin> dm_seen d) ks)"
      using Cons.IH [of d1] Cons.prems by simp
    with sent False t show ?thesis by (cases r) (simp_all add: andthen_def)
  qed
qed simp


section \<open>Properties\<close>



text \<open>
   Episodes. A poll handles only units that were not failed at the last poll: it sends at
  most one event for each of them, and when all failed units are known it does nothing but
  list them. When it ends the known set is exactly the failed set, so a unit that recovered
  is handled again when it fails again.
\<close>

theorem autofix_once_per_episode:
  assumes "failed_units h (dm_world d) = (Inr us, w1)"
  shows "length (dm_sent (snd (run_once h cfg rs d))) \<le>
      length (dm_sent d) + length (filter (\<lambda>k. k \<notin> dm_seen d) (failed_keys us)) \<and>
    (fst (run_once h cfg rs d) = Inr () \<longrightarrow> dm_seen (snd (run_once h cfg rs d)) = set (failed_keys us)) \<and>
    (set (failed_keys us) \<subseteq> dm_seen d \<longrightarrow>
      run_once h cfg rs d = (Inr (), d\<lparr>dm_world := w1, dm_seen := set (failed_keys us)\<rparr>))"
proof -
  let ?d = "d\<lparr>dm_world := w1, dm_seen := dm_seen d \<inter> set (failed_keys us)\<rparr>"
  have r: "run_once h cfg rs d = handle_new h cfg rs (failed_keys us) ?d"
    by (simp add: run_once_def andthen_def lift_def assms)
  have "distinct (failed_keys us)" by (simp add: failed_keys_def)
  from handle_new_sent [OF this, of h cfg rs ?d]
  have "length (dm_sent (snd (run_once h cfg rs d))) \<le>
      length (dm_sent d) + length (filter (\<lambda>k. k \<notin> dm_seen d) (failed_keys us))"
    unfolding r by (simp cong: filter_cong)
  moreover have "dm_seen (snd (run_once h cfg rs d)) = set (failed_keys us)"
    if "fst (run_once h cfg rs d) = Inr ()"
  proof -
    from that have "handle_new h cfg rs (failed_keys us) ?d = (Inr (), snd (run_once h cfg rs d))"
      unfolding r by (metis prod.collapse)
    from handle_new_seen [OF this] show ?thesis by auto
  qed
  moreover have "run_once h cfg rs d = (Inr (), d\<lparr>dm_world := w1, dm_seen := set (failed_keys us)\<rparr>)"
    if "set (failed_keys us) \<subseteq> dm_seen d"
  proof -
    from that have eq: "dm_seen d \<inter> set (failed_keys us) = set (failed_keys us)" by blast
    then show ?thesis unfolding r eq by (simp add: handle_new_known)
  qed
  ultimately show ?thesis by blast
qed

lemma autofix_once_per_episode_witness:
  "\<exists>w. failed_units script_host (script_of [Exited (Some 0) ''a.service loaded failed failed A'', Exited (Some 0) []])
         = (Inr [\<lparr>fu_unit = ''a.service'', fu_scope = ''system'', fu_description = ''A''\<rparr>], w) \<and>
     length (dm_sent (snd (run_once script_host default_config (\<lambda>u. ret [])
       (new_daemon (script_of [Exited (Some 0) ''a.service loaded failed failed A'', Exited (Some 0) []]) NullStore)))) \<le> 1"
proof -
  let ?s = "script_of [Exited (Some 0) ''a.service loaded failed failed A'', Exited (Some 0) []]"
  let ?us = "[\<lparr>fu_unit = ''a.service'', fu_scope = ''system'', fu_description = ''A''\<rparr>]"
  have "fst (failed_units script_host ?s) = Inr ?us" by code_simp
  then obtain w where w: "failed_units script_host ?s = (Inr ?us, w)" by (metis prod.collapse)
  let ?d = "new_daemon ?s NullStore"
  have "failed_units script_host (dm_world ?d) = (Inr ?us, w)" using w by (simp add: new_daemon_def)
  from autofix_once_per_episode [OF this, of default_config "\<lambda>u. ret []"]
  show ?thesis using w by (simp add: new_daemon_def failed_keys_def dict_fromkeys_def)
qed

text \<open>A restart on record, then reports of the same unit.\<close>

abbreviation flood_restart :: new_event where
  "flood_restart \<equiv> restart_event ''a.service'' ''user'' (mk_outcome True ''ok'') 0"

abbreviation flood_report :: new_event where
  "flood_report \<equiv> inform_event ''a.service'' ''user'' ''again'' 1 0"

definition restarted_db :: event_db where
  "restarted_db = store_apply empty_db (Append True 0 flood_restart)"

definition flooded :: "nat \<Rightarrow> event_db" where
  "flooded n = foldl store_apply restarted_db (map (\<lambda>i. Append True (real i) flood_report) [1..<Suc n])"

lemma restarted_db_rows:
  "\<exists>r. rows restarted_db = [r] \<and> is_restart_row ''a.service'' r \<and> row_ts r = 0 \<and> \<not> closed restarted_db \<and>
     selects (prior_query ''a.service'' 0) r"
proof -
  have "decode_meta (meta_text (new_meta flood_restart)) =
      [(''action'', JStr ''restart''), (''outcome'', JStr ''healthy''), (''attempt'', JInt 1)]"
    by (simp add: restart_event_def decode_meta_text)
  then show ?thesis
    by (simp add: restarted_db_def append_event_def empty_db_def insert_row_def Let_def is_restart_row_def
        restart_event_def action_of_def decode_row_def selects_def prior_query_def)
qed

lemma flooded_rows:
  "\<exists>rs. rows (flooded n) = rows restarted_db @ rs \<and> map row_ts rs = map real [1..<Suc n] \<and>
     \<not> closed (flooded n) \<and>
     (\<forall>r \<in> set rs. selects (prior_query ''a.service'' 0) r \<and> \<not> is_restart_row ''a.service'' r)"
proof (induction n)
  case 0
  then show ?case using restarted_db_rows by (auto simp: flooded_def)
next
  case (Suc n)
  then obtain rs where rs: "rows (flooded n) = rows restarted_db @ rs" "map row_ts rs = map real [1..<Suc n]"
    "\<not> closed (flooded n)" "\<forall>r \<in> set rs. selects (prior_query ''a.service'' 0) r \<and> \<not> is_restart_row ''a.service'' r"
    by blast
  have f: "flooded (Suc n) = snd (insert_row (real (Suc n)) flood_report (meta_text (new_meta flood_report)) (flooded n))"
    using rs(3) by (simp add: flooded_def append_event_def)
  define r where "r = \<lparr>row_id = last_id (flooded n) + 1, row_ts = real (Suc n), row_kind = ''autofix'',
    row_unit = Some ''a.service'', row_scope = Some ''user'', row_severity = Some ''warning'',
    row_text = ''again'', row_meta = meta_text (new_meta flood_report)\<rparr>"
  have "rows (flooded (Suc n)) = rows restarted_db @ (rs @ [r])" "\<not> closed (flooded (Suc n))"
    using rs(1,3) by (simp_all add: f insert_row_def Let_def inform_event_def r_def)
  moreover have "map row_ts (rs @ [r]) = map real [1..<Suc (Suc n)]"
    using rs(2) by (simp add: r_def)
  moreover have "selects (prior_query ''a.service'' 0) r"
    by (simp add: r_def selects_def prior_query_def)
  moreover have "\<not> is_restart_row ''a.service'' r"
    using meta_inform by (simp add: is_restart_row_def action_of_def decode_row_def r_def)
  ultimately show ?case using rs(4)
    by (intro exI [of _ "rs @ [r]"]) (auto simp del: map_append)
qed

lemma flooded_ids: "ids_grow (flooded n)"
  unfolding flooded_def restarted_db_def
  by (intro store_machine.inv_events) (metis foldl.simps store_machine.inv_events [OF ids_grow_empty])

text \<open>
   The engine reads only the 50 newest autofix events of a unit. A restart inside the
  window followed by 50 reports is not counted any more, so the guard lets the next failure
  of the unit be restarted although the window already holds the one restart allowed.
\<close>

theorem autofix_guard_forgets:
  "restarts_in ''a.service'' 0 3600 (flooded 50) = 1 \<and>
   count_restarts (recent True 50 (prior_query ''a.service'' 0) (flooded 50)) = 0 \<and>
   decide ''user'' 0 default_config = Do_restart \<and> decide ''user'' 1 default_config = Do_inform"
proof -
  obtain r where r: "rows restarted_db = [r]" "is_restart_row ''a.service'' r" "row_ts r = 0"
    "selects (prior_query ''a.service'' 0) r" using restarted_db_rows by blast
  obtain rs where rs: "rows (flooded 50) = r # rs" "map row_ts rs = map real [1..<51]" "\<not> closed (flooded 50)"
    "\<forall>r \<in> set rs. selects (prior_query ''a.service'' 0) r \<and> \<not> is_restart_row ''a.service'' r"
    using flooded_rows [of 50] r(1) by auto
  have len: "length rs = 50" using rs(2) by (metis length_map length_upt diff_Suc_1 numeral_eq_Suc eval_nat_numeral(3) diff_Suc_Suc)
  have none: "filter (is_restart_row ''a.service'') rs = []" using rs(4) by (simp add: filter_empty_conv)
  have "sorted (map real [1..<51])" by (simp add: sorted_map sorted_wrt_upt sorted_wrt_mono_rel [OF _ sorted_wrt_upt])
  moreover have "0 \<le> x" if "x \<in> set (map real [1..<51])" for x using that by auto
  ultimately have mono: "ts_monotone (flooded 50)"
    unfolding ts_monotone_def rs(1) list.map r(3) rs(2) sorted_simps(2) by blast
  have "filter (selects (prior_query ''a.service'' 0)) rs = rs" using rs(4) by (simp add: filter_id_conv)
  then have "recent True 50 (prior_query ''a.service'' 0) (flooded 50) = map decode_row (rev rs)"
    using query_rows_monotone [OF flooded_ids mono, of 50] rs(1,3) r(4) len
    by (simp add: recent_def clamp_limit_def)
  moreover have "filter (\<lambda>e. action_of e = Some (JStr ''restart'')) (map decode_row (rev rs)) = []"
    using rs(4) by (auto simp: filter_empty_conv is_restart_row_def selects_def prior_query_def)
  ultimately have "count_restarts (recent True 50 (prior_query ''a.service'' 0) (flooded 50)) = 0"
    by (simp add: count_restarts_def)
  moreover have "filter (\<lambda>r. is_restart_row ''a.service'' r \<and> 0 \<le> row_ts r \<and> row_ts r \<le> 3600) rs = []"
    using rs(4) by (auto simp: filter_empty_conv)
  then have "restarts_in ''a.service'' 0 3600 (flooded 50) = 1"
    using r(2,3) by (simp add: restarts_in_def rs(1))
  ultimately show ?thesis by (simp add: decide_def default_config_def)
qed

end
