(* ===== verification/Ledger_Model.thy ===== *)
theory Ledger_Model
  imports Store "HOL-Library.Multiset"
begin

text \<open>
  \<^verbatim>\<open>ledger.py\<close>: the kept-well ledger, folded from the timeline's events. The loop of
  \<^verbatim>\<open>summarize\<close> is a fold of one step over a record of its local variables; the lemmas give
  what each variable holds in the end and that the order of the events does not matter.
\<close>

definition DAY_S :: real where "DAY_S = 86400"
definition DEFAULT_WINDOW_DAYS :: int where "DEFAULT_WINDOW_DAYS = 30"
definition LEDGER_SCAN_LIMIT :: int where "LEDGER_SCAN_LIMIT = 1000"

definition meta_get :: "event \<Rightarrow> pystr \<Rightarrow> json option" where
  "meta_get e k = map_of (ev_meta e) k"

definition MANUAL_RESTART_SOURCES :: "pystr list" where
  "MANUAL_RESTART_SOURCES = [''tray'', ''query'']"

definition is_attention_moment :: "event \<Rightarrow> bool" where
  "is_attention_moment ev =
     (if ev_kind ev = ''autofix'' then
        meta_get ev ''action'' = Some (JStr ''inform'') \<or> meta_get ev ''outcome'' = Some (JStr ''still_failing'')
      else if ev_kind ev = ''restart'' then
        list_ex (\<lambda>s. meta_get ev ''source'' = Some (JStr s)) MANUAL_RESTART_SOURCES
      else False)"

definition healed :: "event \<Rightarrow> bool" where
  "healed ev \<longleftrightarrow> meta_get ev ''action'' = Some (JStr ''restart'') \<and> meta_get ev ''outcome'' = Some (JStr ''healthy'')"

record tally =
  last_attention :: "real option"
  earliest_seen :: "real option"
  n_auto_restarts :: int
  n_recoveries :: int
  n_attention :: int

definition tally0 :: tally where
  "tally0 = \<lparr>last_attention = None, earliest_seen = None, n_auto_restarts = 0, n_recoveries = 0, n_attention = 0\<rparr>"

text \<open>One turn of the loop, with the early \<^verbatim>\<open>continue\<close> for events before the window.\<close>

definition tally_step :: "real \<Rightarrow> tally \<Rightarrow> event \<Rightarrow> tally" where
  "tally_step window_start t ev =
     (let ts = ev_ts ev;
          attn = is_attention_moment ev;
          t = (if (case earliest_seen t of None \<Rightarrow> True | Some s \<Rightarrow> ts < s)
               then t\<lparr>earliest_seen := Some ts\<rparr> else t);
          t = (if attn \<and> (case last_attention t of None \<Rightarrow> True | Some a \<Rightarrow> a < ts)
               then t\<lparr>last_attention := Some ts\<rparr> else t)
      in if ts < window_start then t
         else
           (let t = (if ev_kind ev = ''autofix'' \<and> healed ev then t\<lparr>n_auto_restarts := n_auto_restarts t + 1\<rparr>
                     else if ev_kind ev = ''failure_cleared'' then t\<lparr>n_recoveries := n_recoveries t + 1\<rparr>
                     else t)
            in if attn then t\<lparr>n_attention := n_attention t + 1\<rparr> else t))"

record ledger =
  streak_days :: int
  healthy_now :: bool
  since_ts :: "real option"
  auto_restarts :: int
  recoveries :: int
  attention :: int
  headline :: pystr
  tally_items :: "pystr list"

definition plural :: "int \<Rightarrow> pystr \<Rightarrow> pystr" where
  "plural n noun = (if n = 1 then show_int n @ '' '' @ noun else show_int n @ '' '' @ noun @ ''s'')"

definition mk_headline :: "int \<Rightarrow> bool \<Rightarrow> real option \<Rightarrow> pystr" where
  "mk_headline days healthy since =
     (if since = None then ''Just getting started.''
      else if \<not> healthy then ''Something needs a hand right now.''
      else if days = 0 then ''Looking after itself today.''
      else ''Looked after itself for '' @ plural days ''day'' @ ''.'')"

definition mk_tally :: "int \<Rightarrow> pystr list" where
  "mk_tally n = (if n \<noteq> 0 then [''quietly restarted '' @ plural n ''service''] else [])"

definition streak :: "real \<Rightarrow> real \<Rightarrow> int" where
  "streak now since = max 0 \<lfloor>(now - since) / DAY_S\<rfloor>"

definition summarize :: "event list \<Rightarrow> real \<Rightarrow> int \<Rightarrow> real option \<Rightarrow> int \<Rightarrow> ledger" where
  "summarize evs now current_failures earliest_ts window_days =
     (let t = foldl (tally_step (now - of_int window_days * DAY_S)) tally0 evs;
          floor_ts = (if earliest_ts \<noteq> None then earliest_ts else earliest_seen t);
          healthy = (current_failures = 0);
          (since, days) =
            (if \<not> healthy then (Some now, 0)
             else (case last_attention t of
                 Some a \<Rightarrow> (Some a, streak now a)
               | None \<Rightarrow> (case floor_ts of
                     Some f \<Rightarrow> (Some f, streak now f)
                   | None \<Rightarrow> (None, 0))))
      in \<lparr>streak_days = days, healthy_now = healthy, since_ts = since,
          auto_restarts = n_auto_restarts t, recoveries = n_recoveries t, attention = n_attention t,
          headline = mk_headline days healthy since, tally_items = mk_tally (n_auto_restarts t)\<rparr>)"

section \<open>What the loop computes\<close>

fun max_opt :: "real list \<Rightarrow> real option" where
  "max_opt [] = None"
| "max_opt (x # xs) = (case max_opt xs of None \<Rightarrow> Some x | Some m \<Rightarrow> Some (max x m))"

fun min_opt :: "real list \<Rightarrow> real option" where
  "min_opt [] = None"
| "min_opt (x # xs) = (case min_opt xs of None \<Rightarrow> Some x | Some m \<Rightarrow> Some (min x m))"

definition count_ev :: "(event \<Rightarrow> bool) \<Rightarrow> event list \<Rightarrow> int" where
  "count_ev P evs = int (length (filter P evs))"

definition tally_spec :: "real \<Rightarrow> event list \<Rightarrow> tally" where
  "tally_spec w evs =
     \<lparr>last_attention = max_opt (map ev_ts (filter is_attention_moment evs)),
      earliest_seen = min_opt (map ev_ts evs),
      n_auto_restarts = count_ev (\<lambda>e. w \<le> ev_ts e \<and> ev_kind e = ''autofix'' \<and> healed e) evs,
      n_recoveries = count_ev (\<lambda>e. w \<le> ev_ts e \<and> ev_kind e = ''failure_cleared'') evs,
      n_attention = count_ev (\<lambda>e. w \<le> ev_ts e \<and> is_attention_moment e) evs\<rparr>"

lemma max_opt_snoc: "max_opt (xs @ [x]) = (case max_opt xs of None \<Rightarrow> Some x | Some m \<Rightarrow> Some (max m x))"
  by (induction xs) (auto split: option.split)

lemma min_opt_snoc: "min_opt (xs @ [x]) = (case min_opt xs of None \<Rightarrow> Some x | Some m \<Rightarrow> Some (min m x))"
  by (induction xs) (auto split: option.split)

lemma max_opt_eq: "xs \<noteq> [] \<Longrightarrow> max_opt xs = Some (Max (set xs))"
proof (induction xs)
  case (Cons x xs)
  then show ?case by (cases xs) auto
qed simp

lemma min_opt_eq: "xs \<noteq> [] \<Longrightarrow> min_opt xs = Some (Min (set xs))"
proof (induction xs)
  case (Cons x xs)
  then show ?case by (cases xs) auto
qed simp

lemma tally_eq_spec: "foldl (tally_step w) tally0 evs = tally_spec w evs"
proof (induction evs rule: rev_induct)
  case Nil
  show ?case by (simp add: tally0_def tally_spec_def count_ev_def)
next
  case (snoc e evs)
  show ?case
    unfolding foldl_snoc snoc
    by (auto simp: tally_step_def tally_spec_def Let_def max_opt_snoc min_opt_snoc count_ev_def max_def min_def
        not_less split: option.split)
qed

text \<open>The order in which the queries' results are concatenated does not matter.\<close>

lemma max_opt_set: "set xs = set ys \<Longrightarrow> max_opt xs = max_opt ys"
  by (cases "xs = []"; cases "ys = []") (simp_all add: max_opt_eq)

lemma min_opt_set: "set xs = set ys \<Longrightarrow> min_opt xs = min_opt ys"
  by (cases "xs = []"; cases "ys = []") (simp_all add: min_opt_eq)

lemma count_ev_mset: "mset xs = mset ys \<Longrightarrow> count_ev P xs = count_ev P ys"
  unfolding count_ev_def by (metis mset_filter size_mset)

lemma tally_spec_mset: "mset xs = mset ys \<Longrightarrow> tally_spec w xs = tally_spec w ys"
proof -
  assume m: "mset xs = mset ys"
  then have s: "set xs = set ys" by (rule mset_eq_setD)
  have "max_opt (map ev_ts (filter is_attention_moment xs)) = max_opt (map ev_ts (filter is_attention_moment ys))"
    using s by (intro max_opt_set) simp
  moreover have "min_opt (map ev_ts xs) = min_opt (map ev_ts ys)" using s by (intro min_opt_set) simp
  ultimately show ?thesis by (simp only: tally_spec_def count_ev_mset [OF m])
qed

section \<open>Properties\<close>

text \<open>
  C29: The ledger is honest. With anything failing now the streak is zero and counts from now;
  otherwise it counts whole days from the latest moment the machine needed a person, and only
  if there is none, from the store's first event (or the first one read). It is never
  negative, and the tallies count the restarts that stuck, the recoveries and the hand-backs
  inside the window.
\<close>

theorem ledger_honest:
  "let l = summarize evs now failing oldest days;
       w = now - of_int days * DAY_S;
       attn = map ev_ts (filter is_attention_moment evs);
       first = (if oldest \<noteq> None then oldest else min_opt (map ev_ts evs))
   in 0 \<le> streak_days l \<and> healthy_now l = (failing = 0) \<and>
      (if failing \<noteq> 0 then streak_days l = 0 \<and> since_ts l = Some now
       else if attn \<noteq> [] then since_ts l = Some (Max (set attn)) \<and> streak_days l = streak now (Max (set attn))
       else since_ts l = first \<and> streak_days l = (case first of None \<Rightarrow> 0 | Some f \<Rightarrow> streak now f)) \<and>
      auto_restarts l = count_ev (\<lambda>e. w \<le> ev_ts e \<and> ev_kind e = ''autofix'' \<and> healed e) evs \<and>
      recoveries l = count_ev (\<lambda>e. w \<le> ev_ts e \<and> ev_kind e = ''failure_cleared'') evs \<and>
      attention l = count_ev (\<lambda>e. w \<le> ev_ts e \<and> is_attention_moment e) evs"
proof -
  have "0 \<le> streak now s" for s by (simp add: streak_def)
  moreover have "max_opt (map ev_ts (filter is_attention_moment evs)) = None
      \<longleftrightarrow> filter is_attention_moment evs = []"
    by (cases "filter is_attention_moment evs") (auto split: option.split)
  ultimately show ?thesis
    by (auto simp: summarize_def tally_eq_spec tally_spec_def Let_def max_opt_eq split: option.split)
qed

text \<open> The ledger does not depend on the order of the events it is folded from.\<close>

theorem ledger_order_independent:
  assumes "mset xs = mset ys"
  shows "summarize xs now failing oldest days = summarize ys now failing oldest days"
  using tally_spec_mset [OF assms] by (simp add: summarize_def tally_eq_spec)

lemma ledger_order_independent_witness:
  "let a = event_of 1 5 (sample_event ''autofix'' ''a.service'' ''inform'');
       b = event_of 2 9 (sample_event ''failure_cleared'' ''a.service'' ''x'')
   in summarize [a, b] 100 0 None 30 = summarize [b, a] 100 0 None 30"
  unfolding Let_def by (rule ledger_order_independent) simp

end
