(* ===== verification/Timeline_Service.thy ===== *)
theory Timeline_Service
  imports Daemon_State Ledger_Model
    "HOL-Library.Char_ord" "HOL-Library.List_Lexorder" "HOL-Library.Product_Lexorder"
begin

text \<open>
  \<^verbatim>\<open>timeline.py\<close>: failure transitions, pages of the timeline and the ledger's inputs. Python
  iterates over sets in an order of its own; the operation takes that order as an argument
  (\<open>enum\<close>), a function listing each element of a set once.
\<close>

definition lists_sets :: "('a set \<Rightarrow> 'a list) \<Rightarrow> bool" where
  "lists_sets enum \<longleftrightarrow> (\<forall>S. finite S \<longrightarrow> set (enum S) = S \<and> distinct (enum S))"

text \<open>\<^verbatim>\<open>{(unit, scope): unit for unit in units}\<close>: a later unit with the same key replaces an earlier one.\<close>

definition current_failures :: "failed_unit list \<Rightarrow> (unit_key \<times> failed_unit) list" where
  "current_failures us = foldl (\<lambda>d f. dict_put (fu_unit f, fu_scope f) f d) [] us"

definition observed_event :: "(unit_key \<times> failed_unit) list \<Rightarrow> unit_key \<Rightarrow> new_event" where
  "observed_event current k =
     (let desc = (case map_of current k of Some f \<Rightarrow> fu_description f | None \<Rightarrow> [])
      in \<lparr>new_kind = ''failure_observed'', new_unit = Some (fst k), new_scope = Some (snd k),
          new_severity = Some ''warning'', new_text = (if desc \<noteq> [] then desc else fst k @ '' failed''),
          new_meta = None\<rparr>)"

definition cleared_event :: "unit_key \<Rightarrow> new_event" where
  "cleared_event k =
     \<lparr>new_kind = ''failure_cleared'', new_unit = Some (fst k), new_scope = Some (snd k),
      new_severity = Some ''info'', new_text = fst k @ '' recovered'', new_meta = None\<rparr>"

fun append_all :: "'w host \<Rightarrow> new_event list \<Rightarrow> ('w daemon, unit) act" where
  "append_all h [] = ret ()"
| "append_all h (e # es) = andthen (append_store h e) (\<lambda>_. append_all h es)"

definition record_failure_transitions ::
  "'w host \<Rightarrow> (unit_key set \<Rightarrow> unit_key list) \<Rightarrow> failed_unit list \<Rightarrow> ('w daemon, unit) act" where
  "record_failure_transitions h enum us d =
     (let current = current_failures us;
          keys = set (map fst current)
      in andthen (append_all h (map (observed_event current) (enum (keys - dm_seen_failures d)))) (\<lambda>_.
         andthen (append_all h (map cleared_event (enum (dm_seen_failures d - keys)))) (\<lambda>_ d.
           (Inr (), d\<lparr>dm_seen_failures := keys\<rparr>))) d)"

text \<open>\<^verbatim>\<open>page\<close>, on the event store.\<close>

definition page_query :: "pystr option \<Rightarrow> int option \<Rightarrow> query" where
  "page_query u before = \<lparr>q_unit = u, q_kind = None, q_since = None, q_before = before\<rparr>"

definition page_of :: "int \<Rightarrow> event list \<Rightarrow> event list \<times> int option" where
  "page_of bounded found =
     (let events = take (nat bounded) found
      in (events, if bounded < int (length found) \<and> events \<noteq> [] then Some (ev_id (last events)) else None))"

definition page :: "'w host \<Rightarrow> int \<Rightarrow> pystr option \<Rightarrow> int option \<Rightarrow> ('w daemon, event list \<times> int option) act" where
  "page h limit u before =
     (let bounded = max 1 (min limit 1000)
      in andthen (recent_store h (bounded + 1) (page_query u before)) (\<lambda>found. ret (page_of bounded found)))"

text \<open>\<^verbatim>\<open>kept_well\<close>: the gathered reads, in the order they are listed.\<close>

definition kind_query :: "pystr \<Rightarrow> real option \<Rightarrow> query" where
  "kind_query k since = \<lparr>q_unit = None, q_kind = Some k, q_since = since, q_before = None\<rparr>"

definition kept_well :: "'w host \<Rightarrow> ('w daemon, ledger) act" where
  "kept_well h =
     andthen (now h) (\<lambda>t.
     andthen (recent_store h LEDGER_SCAN_LIMIT (kind_query ''autofix'' None)) (\<lambda>autofix_events.
     andthen (recent_store h LEDGER_SCAN_LIMIT (kind_query ''restart'' None)) (\<lambda>restarts.
     andthen (recent_store h LEDGER_SCAN_LIMIT
                (kind_query ''failure_cleared'' (Some (t - of_int DEFAULT_WINDOW_DAYS * DAY_S)))) (\<lambda>cleared.
     andthen (earliest_store h) (\<lambda>oldest.
     andthen (lift (failed_units h)) (\<lambda>failures.
       ret (summarize (autofix_events @ restarts @ cleared) t (int (length failures)) oldest
              DEFAULT_WINDOW_DAYS)))))))"


section \<open>The timeline replays to the set of failures\<close>

definition replay_row :: "unit_key set \<Rightarrow> row \<Rightarrow> unit_key set" where
  "replay_row S r = (case (row_unit r, row_scope r) of
       (Some u, Some s) \<Rightarrow>
         (if row_kind r = ''failure_observed'' then insert (u, s) S
          else if row_kind r = ''failure_cleared'' then S - {(u, s)} else S)
     | _ \<Rightarrow> S)"

definition replay :: "event_db \<Rightarrow> unit_key set" where
  "replay db = foldl replay_row {} (rows db)"

lemma finite_replay: "finite (replay db)"
proof -
  have "finite S \<Longrightarrow> finite (foldl replay_row S rs)" for S rs
    by (induction rs arbitrary: S) (auto simp: replay_row_def split: option.split)
  then show ?thesis by (simp add: replay_def)
qed

definition row_records :: "new_event \<Rightarrow> row \<Rightarrow> bool" where
  "row_records e r \<longleftrightarrow> row_kind r = new_kind e \<and> row_unit r = new_unit e \<and> row_scope r = new_scope e"

lemma append_all_store:
  assumes "\<forall>w. db_up h w" and "dm_store d = EventStore db" and "\<not> closed db"
  shows "\<exists>rs db'. append_all h es d = (Inr (), d\<lparr>dm_store := EventStore db'\<rparr>) \<and> \<not> closed db' \<and>
     rows db' = rows db @ rs \<and> list_all2 row_records es rs"
  using assms(2,3)
proof (induction es arbitrary: d db)
  case Nil
  then show ?case by (intro exI [of _ "[]"] exI [of _ db]) (simp add: ret_def flip: Nil(1))
next
  case (Cons e es)
  let ?db = "snd (insert_row (clock h (dm_world d)) e (meta_text (new_meta e)) db)"
  let ?d = "d\<lparr>dm_store := EventStore ?db\<rparr>"
  have a: "append_store h e d = (Inr (last_id db + 1), ?d)"
    using assms(1) Cons.prems
    by (simp add: append_store_def st_append_def append_event_def insert_row_def Let_def)
  obtain r where r: "rows ?db = rows db @ [r]" "row_records e r"
    by (auto simp: insert_row_def Let_def row_records_def)
  have "\<not> closed ?db" using Cons.prems by (simp add: insert_row_def Let_def)
  from Cons.IH [of ?d ?db] this obtain rs db' where
    "append_all h es ?d = (Inr (), ?d\<lparr>dm_store := EventStore db'\<rparr>)" "\<not> closed db'"
    "rows db' = rows ?db @ rs" "list_all2 row_records es rs" by auto
  with a r show ?case
    by (intro exI [of _ "r # rs"] exI [of _ db']) (simp add: andthen_def)
qed

lemma replay_observed:
  "list_all2 row_records (map (observed_event cur) ks) rs \<Longrightarrow> foldl replay_row S rs = S \<union> set ks"
proof (induction ks arbitrary: rs S)
  case (Cons k ks)
  then obtain r rs' where "rs = r # rs'" "row_records (observed_event cur k) r"
    and rest: "list_all2 row_records (map (observed_event cur) ks) rs'" by (auto simp: list_all2_Cons1)
  then have "rs = r # rs'" "replay_row S r = insert k S"
    by (simp_all add: replay_row_def row_records_def observed_event_def Let_def)
  with Cons.IH [OF rest] show ?case by simp
qed simp

lemma replay_cleared:
  "list_all2 row_records (map cleared_event ks) rs \<Longrightarrow> foldl replay_row S rs = S - set ks"
proof (induction ks arbitrary: rs S)
  case (Cons k ks)
  then obtain r rs' where "rs = r # rs'" "row_records (cleared_event k) r"
    and rest: "list_all2 row_records (map cleared_event ks) rs'" by (auto simp: list_all2_Cons1)
  then have "rs = r # rs'" "replay_row S r = S - {k}"
    by (simp_all add: replay_row_def row_records_def cleared_event_def)
  with Cons.IH [OF rest] show ?case by auto
qed simp

lemma length_replay:
  assumes "list_all2 row_records (map f ks) rs"
  shows "length rs = length ks"
  using list_all2_lengthD [OF assms] by simp

lemma record_transitions:
  assumes "lists_sets enum" and "\<forall>w. db_up h w" and "dm_store d = EventStore db" and "\<not> closed db"
    and "replay db = dm_seen_failures d"
  shows "\<exists>db'. record_failure_transitions h enum us d =
      (Inr (), d\<lparr>dm_store := EventStore db', dm_seen_failures := set (map fst (current_failures us))\<rparr>) \<and>
     \<not> closed db' \<and> replay db' = set (map fst (current_failures us)) \<and>
     length (rows db') = length (rows db) +
       card (set (map fst (current_failures us)) - dm_seen_failures d) +
       card (dm_seen_failures d - set (map fst (current_failures us)))"
proof -
  let ?cur = "current_failures us"
  let ?keys = "set (map fst ?cur)"
  let ?new = "enum (?keys - dm_seen_failures d)"
  let ?old = "enum (dm_seen_failures d - ?keys)"
  have fin: "finite (dm_seen_failures d)" using assms(5) finite_replay by metis
  have new: "set ?new = ?keys - dm_seen_failures d" "distinct ?new"
    and old: "set ?old = dm_seen_failures d - ?keys" "distinct ?old"
    using assms(1) fin by (simp_all add: lists_sets_def)
  obtain rs1 db1 where 1: "append_all h (map (observed_event ?cur) ?new) d = (Inr (), d\<lparr>dm_store := EventStore db1\<rparr>)"
    "\<not> closed db1" "rows db1 = rows db @ rs1" "list_all2 row_records (map (observed_event ?cur) ?new) rs1"
    using append_all_store [OF assms(2-4)] by blast
  let ?d1 = "d\<lparr>dm_store := EventStore db1\<rparr>"
  obtain rs2 db2 where 2: "append_all h (map cleared_event ?old) ?d1 = (Inr (), ?d1\<lparr>dm_store := EventStore db2\<rparr>)"
    "\<not> closed db2" "rows db2 = rows db1 @ rs2" "list_all2 row_records (map cleared_event ?old) rs2"
    using append_all_store [OF assms(2), of ?d1 db1 "map cleared_event ?old"] 1(2) by auto
  have "replay db2 = (dm_seen_failures d \<union> set ?new) - set ?old"
    using replay_observed [OF 1(4), of "replay db"] replay_cleared [OF 2(4)] assms(5)
    by (simp add: replay_def 1(3) 2(3))
  then have "replay db2 = ?keys" using new(1) old(1) by blast
  moreover have "length rs1 = card (?keys - dm_seen_failures d)" "length rs2 = card (dm_seen_failures d - ?keys)"
    using length_replay [OF 1(4)] length_replay [OF 2(4)] new old by (metis distinct_card)+
  ultimately show ?thesis
    using 1 2 by (intro exI [of _ db2]) (simp add: record_failure_transitions_def Let_def andthen_def)
qed

section \<open>Pages\<close>

text \<open>All pages, following the cursor; the fuel is a bound on their number.\<close>

fun pages :: "nat \<Rightarrow> (int option \<Rightarrow> event list \<times> int option) \<Rightarrow> int option \<Rightarrow> event list list" where
  "pages 0 pg before = []"
| "pages (Suc n) pg before =
     (case pg before of
        (es, None) \<Rightarrow> [es]
      | (es, Some c) \<Rightarrow> es # pages n pg (Some c))"

definition below :: "int option \<Rightarrow> event \<Rightarrow> bool" where
  "below before e = (case before of None \<Rightarrow> True | Some i \<Rightarrow> ev_id e < i)"

lemma filter_below_last:
  assumes "sorted_wrt (\<lambda>x y. ev_id y < ev_id x) es" and "0 < b" and "b < length es"
  shows "filter (below (Some (ev_id (last (take b es))))) es = drop b es"
proof -
  let ?c = "ev_id (last (take b es))"
  have ne: "take b es \<noteq> []" using assms(2,3) by auto
  have s: "sorted_wrt (\<lambda>x y. ev_id y < ev_id x) (take b es @ drop b es)" using assms(1) by simp
  have "\<forall>e \<in> set (drop b es). ev_id e < ?c"
    using s ne by (auto simp: sorted_wrt_append simp del: append_take_drop_id)
  moreover have "\<forall>e \<in> set (take b es). ?c \<le> ev_id e"
  proof
    fix e
    assume e: "e \<in> set (take b es)"
    from s have "sorted_wrt (\<lambda>x y. ev_id y < ev_id x) (butlast (take b es) @ [last (take b es)])"
      using ne by (simp add: sorted_wrt_append del: append_take_drop_id)
    then have "\<forall>x \<in> set (butlast (take b es)). ?c < ev_id x" by (simp add: sorted_wrt_append)
    moreover have "e \<in> set (butlast (take b es)) \<or> e = last (take b es)"
      using e ne by (metis append_butlast_last_id in_set_conv_decomp_last rotate1.simps(2) set_ConsD set_rotate1)
    ultimately show "?c \<le> ev_id e" by auto
  qed
  ultimately have "filter (below (Some ?c)) (take b es @ drop b es) = drop b es"
    unfolding filter_append by (auto simp: below_def filter_empty_conv filter_id_conv)
  then show ?thesis by simp
qed

lemma concat_pages:
  assumes "sorted_wrt (\<lambda>x y. ev_id y < ev_id x) all" and "0 < b"
    and "\<And>before. pg before = page_of (int b) (take (Suc b) (filter (below before) all))"
  shows "length (filter (below before) all) < n \<Longrightarrow> concat (pages n pg before) = filter (below before) all"
proof (induction n arbitrary: before)
  case (Suc n)
  let ?es = "filter (below before) all"
  have s: "sorted_wrt (\<lambda>x y. ev_id y < ev_id x) ?es" using assms(1) by (rule sorted_wrt_filter_pred)
  show ?case
  proof (cases "b < length ?es")
    case False
    then have "pg before = (?es, None)" by (simp add: assms(3) page_of_def)
    then show ?thesis by simp
  next
    case True
    let ?c = "ev_id (last (take b ?es))"
    have p: "pg before = (take b ?es, Some ?c)"
      using True assms(2) by (auto simp: assms(3) page_of_def Let_def min_def)
    have "filter (below (Some ?c)) all = filter (below (Some ?c)) ?es"
    proof -
      have "last (take b ?es) \<in> set ?es"
        using True assms(2) by (metis in_set_takeD last_in_set length_greater_0_conv less_trans take_eq_Nil neq0_conv)
      then have "below before (last (take b ?es))" by simp
      then show ?thesis by (auto simp: below_def split: option.splits intro!: filter_cong)
    qed
    then have d: "filter (below (Some ?c)) all = drop b ?es"
      using filter_below_last [OF s assms(2) True] by simp
    have "length (filter (below (Some ?c)) all) < n" using Suc.prems True assms(2) unfolding d by simp
    from Suc.IH [OF this] show ?thesis by (simp add: p d)
  qed
qed simp


lemma page_value:
  fixes u :: "pystr option"
  assumes "db_up h (dm_world d)" and "dm_store d = EventStore db" and "\<not> closed db"
    and "ids_grow db" and "ts_monotone db" and "1 \<le> limit" and "limit \<le> 999"
  defines "all \<equiv> map decode_row (rev (filter (selects (page_query u None)) (rows db)))"
  shows "page h limit u before d =
     (Inr (page_of limit (take (Suc (nat limit)) (filter (below before) all))), d)"
proof -
  have "filter (selects (page_query u before)) (rows db) =
      filter (\<lambda>r. below before (decode_row r)) (filter (selects (page_query u None)) (rows db))"
    by (auto simp: selects_def page_query_def below_def decode_row_def intro!: filter_cong split: option.split)
  then have "map decode_row (rev (filter (selects (page_query u before)) (rows db))) = filter (below before) all"
    by (simp add: all_def filter_map comp_def rev_filter)
  then have "st_recent True (limit + 1) (page_query u before) (EventStore db) =
      take (Suc (nat limit)) (filter (below before) all)"
    using assms(3,6,7) query_rows_monotone [OF assms(4,5), of "limit + 1" "page_query u before"]
    by (simp add: st_recent_def recent_def clamp_limit_def nat_add_distrib flip: take_map)
  with assms(1,2,6,7) show ?thesis
    by (simp add: page_def andthen_def recent_store_def ret_def)
qed

lemma rows_newest_ids:
  assumes "ids_grow db"
  shows "sorted_wrt (\<lambda>x y. ev_id y < ev_id x) (map decode_row (rev (filter P (rows db))))"
proof -
  have "sorted_wrt (\<lambda>a b. row_id a < row_id b) (filter P (rows db))"
    using assms by (auto simp: ids_grow_def sorted_wrt_map intro: sorted_wrt_filter_pred)
  then show ?thesis by (simp add: sorted_wrt_map sorted_wrt_rev decode_row_def)
qed

section \<open>Properties\<close>





text \<open>
   A page of the largest size never has a cursor, whatever the timeline holds: the service
  asks for one row more than the page, and the store clamps that to the page size. A client
  that asks for 1000 events is told there is nothing older.
\<close>

theorem page_1000_has_no_cursor:
  "let d = new_daemon w (EventStore db)
   in \<exists>es. page h 1000 u before d = (Inr (es, None), d)"
proof -
  let ?d = "new_daemon w (EventStore db)"
  have "length (st_recent (db_up h (dm_world ?d)) 1001 (page_query u before) (dm_store ?d)) \<le> 1000"
    by (rule st.look_at_most_1000)
  then show ?thesis
    by (simp add: Let_def page_def andthen_def recent_store_def ret_def page_of_def)
qed

text \<open>
   The cursor is an id while pages are ordered by time. After the clock stepped back, the
  newest page ends with an event of small id, and the next page is empty although two events
  were never shown.
\<close>

theorem page_cursor_loses_events:
  "let db = foldl store_apply empty_db [Append True 10 (sample_event ''ask'' ''a'' ''x''),
              Append True 5 (sample_event ''ask'' ''a'' ''y''), Append True 7 (sample_event ''ask'' ''a'' ''z'')];
       pg = (\<lambda>before. projr (fst (page script_host 1 None before (new_daemon (script_of []) (EventStore db)))))
   in map ev_id (fst (pg None)) = [1] \<and> snd (pg None) = Some 1 \<and> pg (Some 1) = ([], None) \<and> length (rows db) = 3"
  by (simp add: Let_def append_event_def insert_row_def empty_db_def page_def andthen_def recent_store_def
      ret_def page_of_def st_recent_def recent_def query_rows_def clamp_limit_def selects_def page_query_def
      newer_def new_daemon_def script_host_simps decode_row_def)

end
