(* ===== verification/Helper.thy ===== *)
theory Helper
  imports Protocol
begin

text \<open>
  \<^verbatim>\<open>nix/nixadmin-helper.py\<close>: the root helper, the privilege boundary. First the decisions it
  makes (which unit may be restarted, which argument vector an action becomes, what exit
  code is reported), then the handling of one client as a function of the machine and the
  client's connection, with every command it runs on record, then the serialisation of
  rebuilds as a step relation over the clients' threads.
\<close>

section \<open>Decisions\<close>

definition ALLOWED_ACTIONS :: "pystr list" where
  "ALLOWED_ACTIONS = [''test'', ''switch'', ''revert'', ''boot'']"

definition SBIN :: pystr where "SBIN = ''/run/current-system/sw/bin''"
definition NIXOS_REBUILD :: pystr where "NIXOS_REBUILD = SBIN @ ''/nixos-rebuild''"
definition SYSTEMD_RUN :: pystr where "SYSTEMD_RUN = SBIN @ ''/systemd-run''"
definition SYSTEMCTL :: pystr where "SYSTEMCTL = SBIN @ ''/systemctl''"
definition JOURNALCTL :: pystr where "JOURNALCTL = SBIN @ ''/journalctl''"

definition RESTART_DENY :: "pystr list" where
  "RESTART_DENY = [''nixadmin-helper.service'']"

definition unit_char :: "char \<Rightarrow> bool" where
  "unit_char c \<longleftrightarrow> is_alpha_ascii c \<or> is_digit c \<or>
     c \<in> {CHR ''@'', CHR ''.'', CHR ''_'', CHR '':'', CHR 0x5C, CHR ''-''}"

definition unit_suffixes :: "pystr list" where
  "unit_suffixes = [''service'', ''socket'', ''timer'', ''target'', ''path'', ''mount'']"

definition UNIT_RE :: regex where
  "UNIT_RE = seqs [Bol, re_plus (Sym unit_char), chr (CHR ''.''), alts (map lit unit_suffixes), Eol]"

definition valid_unit :: "pystr \<Rightarrow> bool" where
  "valid_unit u \<longleftrightarrow> re_match UNIT_RE u \<and> u \<notin> set RESTART_DENY"

definition build_cmd :: "pystr \<Rightarrow> pystr \<Rightarrow> pystr \<Rightarrow> pystr list" where
  "build_cmd action flake_dir hostname =
     (if action = ''revert'' then [NIXOS_REBUILD, ''switch'', ''--rollback'']
      else [NIXOS_REBUILD, action, ''--flake'', ''path:'' @ flake_dir @ ''#'' @ hostname])"

definition unit_is_finished :: "pystr \<Rightarrow> bool" where
  "unit_is_finished active_state \<longleftrightarrow> active_state \<in> {''active'', ''failed''}"

definition exit_code_from :: "pystr \<Rightarrow> pystr \<Rightarrow> int" where
  "exit_code_from active_state exec_main_status =
     (if active_state = ''active'' then 0
      else (let code = the_default 1 (py_int exec_main_status) in if code \<noteq> 0 then code else 1))"

definition is_reapable :: "pystr \<Rightarrow> bool" where
  "is_reapable active_state \<longleftrightarrow> active_state \<in> {''active'', ''failed'', ''inactive''}"

section \<open>One client\<close>

text \<open>
  The machine of the helper: running a command to its end with its output, running one whose
  output is streamed line by line until it ends (the journal follower, which the watcher
  thread ends once the unit is finished or has been killed, or which ends by itself), the
  clock and process id in a unit name, and whether a write to the client now fails.
\<close>

record 'w helper_host =
  run_command :: "pystr list \<Rightarrow> 'w \<Rightarrow> (int \<times> pystr) \<times> 'w"
  stream_command :: "pystr list \<Rightarrow> 'w \<Rightarrow> (pystr list \<times> int) \<times> 'w"
  unit_stamp :: "'w \<Rightarrow> pystr"
  client_gone :: "'w \<Rightarrow> bool"
  path_env :: pystr
  env_flake_dir :: "pystr option"
  env_hostname :: "pystr option"

text \<open>The world, the commands run so far and the messages the client got.\<close>

record 'w helper =
  hp_world :: 'w
  hp_ran :: "pystr list list"
  hp_out :: "json list"

definition run_cmd :: "'w helper_host \<Rightarrow> pystr list \<Rightarrow> 'w helper \<Rightarrow> (int \<times> pystr) \<times> 'w helper" where
  "run_cmd h c s = (let (r, w) = run_command h c (hp_world s)
     in (r, s\<lparr>hp_world := w, hp_ran := hp_ran s @ [c]\<rparr>))"

definition stream_cmd :: "'w helper_host \<Rightarrow> pystr list \<Rightarrow> 'w helper \<Rightarrow> (pystr list \<times> int) \<times> 'w helper" where
  "stream_cmd h c s = (let (r, w) = stream_command h c (hp_world s)
     in (r, s\<lparr>hp_world := w, hp_ran := hp_ran s @ [c]\<rparr>))"

definition send_obj :: "'w helper_host \<Rightarrow> json \<Rightarrow> 'w helper \<Rightarrow> bool \<times> 'w helper" where
  "send_obj h obj s =
     (if client_gone h (hp_world s) then (False, s) else (True, s\<lparr>hp_out := hp_out s @ [obj]\<rparr>))"

definition stream_msg :: "pystr \<Rightarrow> json" where "stream_msg l = JObj [(''stream'', JStr l)]"
definition exit_msg :: "int \<Rightarrow> json" where "exit_msg c = JObj [(''exit'', JInt c)]"
definition error_msg :: "pystr \<Rightarrow> json" where "error_msg e = JObj [(''error'', JStr e)]"

text \<open>Stop writing stream lines after the first failed write, but keep draining.\<close>

fun send_lines :: "'w helper_host \<Rightarrow> bool \<Rightarrow> pystr list \<Rightarrow> 'w helper \<Rightarrow> 'w helper" where
  "send_lines h client_alive [] s = s"
| "send_lines h client_alive (l # ls) s =
     (if client_alive
      then (let (sent, s') = send_obj h (stream_msg l) s in send_lines h sent ls s')
      else send_lines h False ls s)"

definition run_restart :: "'w helper_host \<Rightarrow> pystr \<Rightarrow> 'w helper \<Rightarrow> 'w helper" where
  "run_restart h u s =
     (let ((ls, rc), s) = stream_cmd h [SYSTEMCTL, ''restart'', u] s;
          s = send_lines h True ls s
      in snd (send_obj h (exit_msg rc) s))"

definition show_prop :: "'w helper_host \<Rightarrow> pystr \<Rightarrow> pystr \<Rightarrow> 'w helper \<Rightarrow> pystr \<times> 'w helper" where
  "show_prop h svc prop s =
     (let ((rc, out), s) = run_cmd h [SYSTEMCTL, ''show'', svc, ''-p'', prop, ''--value''] s
      in (strip out, s))"

definition exit_code :: "'w helper_host \<Rightarrow> pystr \<Rightarrow> 'w helper \<Rightarrow> int \<times> 'w helper" where
  "exit_code h svc s =
     (let (active, s) = show_prop h svc ''ActiveState'' s;
          (status, s) = show_prop h svc ''ExecMainStatus'' s
      in (exit_code_from active status, s))"

definition cleanup_unit :: "'w helper_host \<Rightarrow> pystr \<Rightarrow> 'w helper \<Rightarrow> 'w helper" where
  "cleanup_unit h svc s =
     (let (r, s) = run_cmd h [SYSTEMCTL, ''stop'', svc] s;
          (r, s) = run_cmd h [SYSTEMCTL, ''reset-failed'', svc] s
      in s)"

definition rebuild_unit :: "pystr \<Rightarrow> pystr" where
  "rebuild_unit stamp = ''nixadmin-rebuild-'' @ stamp"

definition launch_cmd :: "'w helper_host \<Rightarrow> pystr \<Rightarrow> pystr list \<Rightarrow> pystr list" where
  "launch_cmd h u cmd =
     [SYSTEMD_RUN, ''--quiet'', ''--unit='' @ u, ''--service-type=oneshot'',
      ''--property=RemainAfterExit=yes'', ''--setenv=PATH='' @ path_env h, ''--setenv=HOME=/root''] @ cmd"

definition follow_cmd :: "pystr \<Rightarrow> pystr list" where
  "follow_cmd svc = [JOURNALCTL, ''--unit='' @ svc, ''-o'', ''cat'', ''--no-pager'', ''-f'', ''--since=now'']"

text \<open>
  The follower is started before the unit and read after it; what it yields is taken when it
  is read.
\<close>

definition run_rebuild :: "'w helper_host \<Rightarrow> pystr list \<Rightarrow> 'w helper \<Rightarrow> 'w helper" where
  "run_rebuild h cmd s =
     (let u = rebuild_unit (unit_stamp h (hp_world s));
          svc = u @ ''.service'';
          ((rc, out), s) = run_cmd h (launch_cmd h u cmd) s
      in if rc \<noteq> 0 then
           (let (b, s) = send_obj h (stream_msg (''could not start rebuild unit: '' @ strip out @ [newline])) s
            in snd (send_obj h (exit_msg rc) s))
         else
           (let ((ls, r), s) = stream_cmd h (follow_cmd svc) s;
                s = send_lines h True ls s;
                (code, s) = exit_code h svc s;
                s = (if code \<noteq> 0 then snd (send_obj h (stream_msg (''(rebuild exited '' @ show_int code @ '')'' @ [newline])) s)
                     else s);
                s = snd (send_obj h (exit_msg code) s)
            in cleanup_unit h svc s))"

text \<open>
  \<^verbatim>\<open>handle_client\<close> on the line read: \<open>None\<close> is an empty read, \<open>Some None\<close> bytes that are no
  UTF-8. What raises outside the inner \<^verbatim>\<open>try\<close> (a request that is no object, a unit that is no
  string, an action that cannot be hashed, a missing variable) ends the connection with a
  log line and no message. \<open>busy\<close> says whether another rebuild holds the lock.
\<close>

definition allowed_text :: pystr where
  "allowed_text = ''[''  @ join '', '' (map py_repr [''boot'', ''revert'', ''switch'', ''test'']) @ '']''"

definition hashable :: "json \<Rightarrow> bool" where
  "hashable j = (case j of JArr xs \<Rightarrow> False | JObj kvs \<Rightarrow> False | _ \<Rightarrow> True)"

definition handle_request :: "py_texts \<Rightarrow> 'w helper_host \<Rightarrow> bool \<Rightarrow> (pystr \<times> json) list \<Rightarrow> 'w helper \<Rightarrow> 'w helper" where
  "handle_request py h busy req s =
     (let action = the_default (JStr []) (map_of req ''action'')
      in if action = JStr ''restart'' then
           (case the_default (JStr []) (map_of req ''unit'') of
              JStr u \<Rightarrow>
                (if \<not> valid_unit u
                 then snd (send_obj h (error_msg (''invalid or disallowed unit: '' @ py_repr u)) s)
                 else run_restart h u s)
            | _ \<Rightarrow> s)
         else if \<not> hashable action then s
         else (case action of
              JStr a \<Rightarrow>
                (if a \<notin> set ALLOWED_ACTIONS
                 then snd (send_obj h (error_msg (''unknown action '' @ [CHR 0x27] @ a @ [CHR 0x27]
                            @ ''; allowed: '' @ allowed_text @ '' + restart'')) s)
                 else (case (env_flake_dir h, env_hostname h) of
                     (Some flake_dir, Some hostname) \<Rightarrow>
                       (let s = (if busy
                                 then snd (send_obj h (stream_msg (''another rebuild is in progress; waiting''
                                        @ [ellipsis, newline])) s)
                                 else s)
                        in run_rebuild h (build_cmd a flake_dir hostname) s)
                   | _ \<Rightarrow> s))
            | j \<Rightarrow> snd (send_obj h (error_msg (''unknown action '' @ [CHR 0x27] @ str_json py j @ [CHR 0x27]
                      @ ''; allowed: '' @ allowed_text @ '' + restart'')) s)))"

definition handle_client :: "py_texts \<Rightarrow> 'w helper_host \<Rightarrow> bool \<Rightarrow> pystr option option \<Rightarrow> 'w helper \<Rightarrow> 'w helper" where
  "handle_client py h busy raw s =
     (case raw of
        None \<Rightarrow> s
      | Some None \<Rightarrow> s
      | Some (Some line) \<Rightarrow>
          (case loads line of
             None \<Rightarrow> snd (send_obj h (error_msg (''bad JSON: '' @ json_error py line)) s)
           | Some (JObj req) \<Rightarrow> handle_request py h busy req s
           | Some j \<Rightarrow> s))"

text \<open>\<^verbatim>\<open>_cleanup_stale\<close>: at startup, remove the finished rebuild units.\<close>

definition stale_units :: "pystr \<Rightarrow> pystr list" where
  "stale_units out =
     map (\<lambda>parts. parts ! 0)
       (filter (\<lambda>parts. 3 \<le> length parts \<and> is_reapable (parts ! 2)) (map split_ws (splitlines out)))"

definition cleanup_stale :: "'w helper_host \<Rightarrow> 'w helper \<Rightarrow> 'w helper" where
  "cleanup_stale h s =
     (let ((rc, out), s) = run_cmd h [SYSTEMCTL, ''list-units'', ''--all'', ''--plain'', ''--no-legend'',
              ''--no-pager'', ''nixadmin-rebuild-*.service''] s
      in fold (cleanup_unit h) (stale_units out) s)"


section \<open>Unit names\<close>

lemma matches_rel_Eol: "matches_rel Eol (b, a) q \<longleftrightarrow> q = (b, a) \<and> (a = [] \<or> a = [newline])"
  by (auto simp: rel_Eol_iff)

lemma matches_rel_chr: "matches_rel (chr c) (b, a) q \<longleftrightarrow> (\<exists>v. a = c # v \<and> q = (c # b, v))"
  by (auto simp: chr_def rel_Sym_iff)

lemma re_match_UNIT_RE:
  "re_match UNIT_RE u \<longleftrightarrow>
     (\<exists>base suffix nl. u = base @ CHR ''.'' # suffix @ nl \<and> base \<noteq> [] \<and> list_all unit_char base \<and>
        suffix \<in> set unit_suffixes \<and> nl \<in> {[], [newline]})" (is "_ = ?R")
proof
  assume "re_match UNIT_RE u"
  then obtain p1 p2 p3 p4 q where
    1: "matches_rel Bol ([], u) p1" and 2: "matches_rel (re_plus (Sym unit_char)) p1 p2"
    and 3: "matches_rel (chr (CHR ''.'')) p2 p3" and 4: "matches_rel (alts (map lit unit_suffixes)) p3 p4"
    and 5: "matches_rel Eol p4 q"
    unfolding re_match_iff UNIT_RE_def seqs.simps rel_Seq_iff by (elim exE conjE) (rule that)
  from 1 have p1: "p1 = ([], u)" by (simp add: rel_Bol_iff)
  from 2 [unfolded p1 matches_rel_plus_Sym] obtain base v where
    b: "base \<noteq> []" "u = base @ v" "list_all unit_char base" "p2 = (rev base @ [], v)" by blast
  from 3 [unfolded b(4) matches_rel_chr] obtain v' where v: "v = CHR ''.'' # v'" "p3 = (CHR ''.'' # rev base @ [], v')"
    by blast
  from 4 [unfolded v(2) matches_rel_alts] obtain s nl where s: "s \<in> set unit_suffixes" "v' = s @ nl"
    "p4 = (rev s @ CHR ''.'' # rev base @ [], nl)"
    by (auto simp: matches_rel_lit)
  from 5 [unfolded s(3) matches_rel_Eol] have "nl \<in> {[], [newline]}" by blast
  with b v s show ?R by blast
next
  assume ?R
  then obtain base s nl where u: "u = base @ CHR ''.'' # s @ nl" and b: "base \<noteq> []" "list_all unit_char base"
    and s: "s \<in> set unit_suffixes" and nl: "nl \<in> {[], [newline]}" by blast
  have "matches_rel Bol ([], u) ([], u)" by (simp add: rel_Bol_iff)
  moreover have "matches_rel (re_plus (Sym unit_char)) ([], u) (rev base, CHR ''.'' # s @ nl)"
    using u b by (auto simp: matches_rel_plus_Sym)
  moreover have "matches_rel (chr (CHR ''.'')) (rev base, CHR ''.'' # s @ nl) (CHR ''.'' # rev base, s @ nl)"
    by (simp add: matches_rel_chr)
  moreover have "matches_rel (alts (map lit unit_suffixes)) (CHR ''.'' # rev base, s @ nl) (rev s @ CHR ''.'' # rev base, nl)"
    using s by (auto simp: matches_rel_alts matches_rel_lit)
  moreover have "matches_rel Eol (rev s @ CHR ''.'' # rev base, nl) (rev s @ CHR ''.'' # rev base, nl)"
    using nl by (auto simp: matches_rel_Eol)
  ultimately show "re_match UNIT_RE u"
    unfolding re_match_iff UNIT_RE_def seqs.simps rel_Seq_iff by (intro exI conjI)
qed

section \<open>What runs as root\<close>

text \<open>
  The commands one request may run: the restart of one valid unit, or the launch of a rebuild
  for an allowed action and then only commands on that rebuild's own transient unit.
\<close>

definition rebuild_svc :: "pystr \<Rightarrow> pystr" where
  "rebuild_svc stamp = rebuild_unit stamp @ ''.service''"

definition permitted :: "'w helper_host \<Rightarrow> pystr list \<Rightarrow> bool" where
  "permitted h c \<longleftrightarrow>
     (\<exists>u. valid_unit u \<and> c = [SYSTEMCTL, ''restart'', u]) \<or>
     (\<exists>a f n stamp. a \<in> set ALLOWED_ACTIONS \<and> env_flake_dir h = Some f \<and> env_hostname h = Some n \<and>
        c = launch_cmd h (rebuild_unit stamp) (build_cmd a f n)) \<or>
     (\<exists>stamp prop. c = follow_cmd (rebuild_svc stamp) \<or> c = [SYSTEMCTL, ''show'', rebuild_svc stamp, ''-p'', prop, ''--value''] \<or>
        c = [SYSTEMCTL, ''stop'', rebuild_svc stamp] \<or> c = [SYSTEMCTL, ''reset-failed'', rebuild_svc stamp])"

definition runs_only :: "(pystr list \<Rightarrow> bool) \<Rightarrow> 'w helper \<Rightarrow> 'w helper \<Rightarrow> bool" where
  "runs_only P s t \<longleftrightarrow> (\<exists>cs. hp_ran t = hp_ran s @ cs \<and> list_all P cs)"

lemma runs_only_refl [simp]: "runs_only P s s"
  by (simp add: runs_only_def)

lemma runs_only_trans: "runs_only P s t \<Longrightarrow> runs_only P t u \<Longrightarrow> runs_only P s u"
  by (force simp: runs_only_def)

lemma runs_only_run_cmd: "P c \<Longrightarrow> runs_only P s (snd (run_cmd h c s))"
  by (simp add: runs_only_def run_cmd_def split: prod.split)

lemma runs_only_stream_cmd: "P c \<Longrightarrow> runs_only P s (snd (stream_cmd h c s))"
  by (simp add: runs_only_def stream_cmd_def split: prod.split)

lemma ran_send_obj [simp]: "hp_ran (snd (send_obj h j s)) = hp_ran s"
  by (simp add: send_obj_def)

lemma ran_send_lines [simp]: "hp_ran (send_lines h b ls s) = hp_ran s"
  by (induction ls arbitrary: b s) (auto simp: send_obj_def)

lemma runs_only_cleanup:
  "(\<And>c. c \<in> {[SYSTEMCTL, ''stop'', svc], [SYSTEMCTL, ''reset-failed'', svc]} \<Longrightarrow> P c) \<Longrightarrow>
     runs_only P s (cleanup_unit h svc s)"
  by (auto simp: cleanup_unit_def runs_only_def run_cmd_def Let_def split: prod.split)


lemma runs_only_run_restart: "valid_unit u \<Longrightarrow> runs_only (permitted h) s (run_restart h u s)"
  by (auto simp: run_restart_def runs_only_def stream_cmd_def permitted_def Let_def split: prod.split)

lemma runs_only_show:
  "runs_only (permitted h) s (snd (show_prop h (rebuild_svc stamp) prop s))"
  by (auto simp: show_prop_def runs_only_def run_cmd_def permitted_def Let_def split: prod.split)

lemma runs_only_exit_code: "runs_only (permitted h) s (snd (exit_code h (rebuild_svc stamp) s))"
proof -
  obtain a s1 where a: "show_prop h (rebuild_svc stamp) ''ActiveState'' s = (a, s1)" by fastforce
  obtain b s2 where b: "show_prop h (rebuild_svc stamp) ''ExecMainStatus'' s1 = (b, s2)" by fastforce
  have "runs_only (permitted h) s s1" "runs_only (permitted h) s1 s2"
    using runs_only_show [of h s stamp "''ActiveState''"] runs_only_show [of h s1 stamp "''ExecMainStatus''"] a b
    by simp_all
  then show ?thesis using a b by (auto simp: exit_code_def intro: runs_only_trans)
qed

text \<open>What a rebuild whose unit was launched does, in steps.\<close>

lemma run_rebuild_launched:
  assumes "run_cmd h (launch_cmd h (rebuild_unit (unit_stamp h (hp_world s))) cmd) s = ((0, out), s1)"
    and "stream_cmd h (follow_cmd (rebuild_svc (unit_stamp h (hp_world s)))) s1 = ((ls, r), s2)"
    and "exit_code h (rebuild_svc (unit_stamp h (hp_world s))) (send_lines h True ls s2) = (ec, s3)"
  shows "run_rebuild h cmd s =
     cleanup_unit h (rebuild_svc (unit_stamp h (hp_world s)))
       (snd (send_obj h (exit_msg ec)
         (if ec \<noteq> 0 then snd (send_obj h (stream_msg (''(rebuild exited '' @ show_int ec @ '')'' @ [newline])) s3)
          else s3)))"
  using assms by (simp add: run_rebuild_def Let_def rebuild_svc_def)

lemma runs_only_run_rebuild:
  assumes "a \<in> set ALLOWED_ACTIONS" and "env_flake_dir h = Some f" and "env_hostname h = Some n"
  shows "runs_only (permitted h) s (run_rebuild h (build_cmd a f n) s)"
proof -
  let ?st = "unit_stamp h (hp_world s)"
  let ?launch = "launch_cmd h (rebuild_unit ?st) (build_cmd a f n)"
  obtain rc out s1 where l: "run_cmd h ?launch s = ((rc, out), s1)" by (metis prod.exhaust)
  have "permitted h ?launch" using assms unfolding permitted_def by blast
  then have 1: "runs_only (permitted h) s s1" using runs_only_run_cmd [of "permitted h" ?launch s h] l by simp
  show ?thesis
  proof (cases "rc = 0")
    case False
    with l have "hp_ran (run_rebuild h (build_cmd a f n) s) = hp_ran s1"
      by (auto simp: run_rebuild_def Let_def send_obj_def)
    with 1 show ?thesis by (simp add: runs_only_def)
  next
    case True
    obtain ls r s2 where f: "stream_cmd h (follow_cmd (rebuild_svc ?st)) s1 = ((ls, r), s2)" by (metis prod.exhaust)
    obtain ec s3 where e: "exit_code h (rebuild_svc ?st) (send_lines h True ls s2) = (ec, s3)" by fastforce
    have "permitted h (follow_cmd (rebuild_svc ?st))" unfolding permitted_def by blast
    then have 2: "runs_only (permitted h) s1 s2"
      using runs_only_stream_cmd [of "permitted h" "follow_cmd (rebuild_svc ?st)" s1 h] f by simp
    have 3: "runs_only (permitted h) s2 s3"
      using runs_only_exit_code [of h "send_lines h True ls s2" ?st] e by (simp add: runs_only_def)
    have 4: "runs_only (permitted h) t (cleanup_unit h (rebuild_svc ?st) t)" for t
      by (rule runs_only_cleanup) (auto simp: permitted_def)
    have "runs_only (permitted h) s s3" using 1 2 3 by (blast intro: runs_only_trans)
    then have "runs_only (permitted h) s (snd (send_obj h (exit_msg ec)
         (if ec \<noteq> 0 then snd (send_obj h (stream_msg (''(rebuild exited '' @ show_int ec @ '')'' @ [newline])) s3)
          else s3)))" by (simp add: runs_only_def)
    with 4 show ?thesis
      unfolding run_rebuild_launched [OF l [unfolded True] f e] by (blast intro: runs_only_trans)
  qed
qed

lemma runs_only_handle_request: "runs_only (permitted h) s (handle_request py h busy req s)"
proof -
  have "runs_only (permitted h) s (run_rebuild h (build_cmd a f n) (snd (send_obj h j s)))"
    if "a \<in> set ALLOWED_ACTIONS" "env_flake_dir h = Some f" "env_hostname h = Some n" for a f n j
    using runs_only_run_rebuild [OF that, of "snd (send_obj h j s)"] by (simp add: runs_only_def)
  moreover have "runs_only (permitted h) s (snd (send_obj h j s))" for j by (simp add: runs_only_def)
  ultimately show ?thesis
    by (auto simp: handle_request_def Let_def runs_only_run_restart runs_only_run_rebuild
        split: json.split option.split)
qed

section \<open>One rebuild at a time\<close>

text \<open>
  The threads of one helper process, by number: which of them waits for \<^verbatim>\<open>_rebuild_lock\<close>, which
  holds it, and which transient units run. A unit belongs to PID 1 and ends by itself; the
  thread stops it (\<^verbatim>\<open>_cleanup_unit\<close>) before it releases the lock.
\<close>

record rebuild_state =
  waiting :: "nat set"
  holder :: "nat option"
  running :: "nat set"

definition idle_helper :: rebuild_state where
  "idle_helper = \<lparr>waiting = {}, holder = None, running = {}\<rparr>"

inductive rebuild_step :: "rebuild_state \<Rightarrow> rebuild_state \<Rightarrow> bool" where
  request: "t \<notin> waiting s \<Longrightarrow> holder s \<noteq> Some t \<Longrightarrow> t \<notin> running s \<Longrightarrow>
     rebuild_step s (s\<lparr>waiting := insert t (waiting s)\<rparr>)"
| acquire: "t \<in> waiting s \<Longrightarrow> holder s = None \<Longrightarrow>
     rebuild_step s (s\<lparr>waiting := waiting s - {t}, holder := Some t\<rparr>)"
| launch: "holder s = Some t \<Longrightarrow> rebuild_step s (s\<lparr>running := insert t (running s)\<rparr>)"
| unit_ends: "t \<in> running s \<Longrightarrow> rebuild_step s (s\<lparr>running := running s - {t}\<rparr>)"
| release: "holder s = Some t \<Longrightarrow> rebuild_step s (s\<lparr>holder := None, running := running s - {t}\<rparr>)"

text \<open>The helper is restarted: its threads and its in-memory lock are gone, the units stay.\<close>

inductive helper_restart :: "rebuild_state \<Rightarrow> rebuild_state \<Rightarrow> bool" where
  "helper_restart s (s\<lparr>waiting := {}, holder := None\<rparr>)"

inductive_cases rebuild_stepE: "rebuild_step s s'"

definition any_step :: "rebuild_state \<Rightarrow> rebuild_state \<Rightarrow> bool" where
  "any_step a b \<longleftrightarrow> rebuild_step a b \<or> helper_restart a b"

definition only_holder_runs :: "rebuild_state \<Rightarrow> bool" where
  "only_holder_runs s \<longleftrightarrow> running s \<subseteq> (case holder s of None \<Rightarrow> {} | Some t \<Rightarrow> {t})"

interpretation rebuild_lock: relation_machine "\<lambda>s. s = idle_helper" rebuild_step only_holder_runs
proof
  fix s t :: rebuild_state
  assume "rebuild_step s t" "only_holder_runs s"
  then show "only_holder_runs t"
    by (cases rule: rebuild_step.cases) (auto simp: only_holder_runs_def split: option.splits)
qed (simp add: only_holder_runs_def idle_helper_def)

lemma only_holder_runs_card: "only_holder_runs s \<Longrightarrow> card (running s) \<le> 1"
  by (auto simp: only_holder_runs_def subset_singleton_iff split: option.splits)


section \<open>Properties\<close>


text \<open>
   Which names \<^verbatim>\<open>valid_unit\<close> lets through: a nonempty run of the allowed characters, a dot
  and one of the six suffixes, except the helper itself; and, as the pattern ends in a dollar
  sign, any of these with a line feed after it, the denied name included.
\<close>

theorem valid_unit_names:
  "valid_unit u \<longleftrightarrow> u \<noteq> ''nixadmin-helper.service'' \<and>
     (\<exists>base suffix nl. u = base @ CHR ''.'' # suffix @ nl \<and> base \<noteq> [] \<and> list_all unit_char base \<and>
        suffix \<in> {''service'', ''socket'', ''timer'', ''target'', ''path'', ''mount''} \<and> (nl = [] \<or> nl = [newline]))"
proof -
  have "set unit_suffixes = {''service'', ''socket'', ''timer'', ''target'', ''path'', ''mount''}"
    by (simp add: unit_suffixes_def)
  moreover have "u \<notin> set RESTART_DENY \<longleftrightarrow> u \<noteq> ''nixadmin-helper.service''"
    by (simp add: RESTART_DENY_def)
  moreover have "nl \<in> {[], [newline]} \<longleftrightarrow> nl = [] \<or> nl = [newline]" for nl by simp
  ultimately show ?thesis unfolding valid_unit_def re_match_UNIT_RE by (simp only: conj_commute)
qed

text \<open> The name of the helper followed by a line feed passes the check that is to refuse the helper.\<close>

theorem deny_list_bypassed:
  "valid_unit (''nixadmin-helper.service'' @ [newline]) \<and> \<not> valid_unit ''nixadmin-helper.service''"
  by code_simp



text \<open>
   When the helper is restarted during a rebuild (a switch that changes the helper does
  this), the new process has a free lock while the unit still runs, and a second rebuild can
  be started beside it.
\<close>

theorem restart_allows_two_rebuilds:
  "\<exists>s. any_step\<^sup>*\<^sup>* idle_helper s \<and> card (running s) = 2"
proof -
  let ?s = "\<lambda>w l r. \<lparr>waiting = w, holder = l, running = r\<rparr> :: rebuild_state"
  have "any_step idle_helper (?s {1} None {})"
    using rebuild_step.request [of 1 idle_helper] by (simp add: idle_helper_def any_step_def)
  moreover have "any_step (?s {1} None {}) (?s {} (Some 1) {})"
    using rebuild_step.acquire [of 1 "?s {1} None {}"] by (simp add: any_step_def)
  moreover have "any_step (?s {} (Some 1) {}) (?s {} (Some 1) {1})"
    using rebuild_step.launch [of "?s {} (Some 1) {}" 1] by (simp add: any_step_def)
  moreover have "any_step (?s {} (Some 1) {1}) (?s {} None {1})"
    using helper_restart.intros [of "?s {} (Some 1) {1}"] by (simp add: any_step_def)
  moreover have "any_step (?s {} None {1}) (?s {2} None {1})"
    using rebuild_step.request [of 2 "?s {} None {1}"] by (simp add: any_step_def)
  moreover have "any_step (?s {2} None {1}) (?s {} (Some 2) {1})"
    using rebuild_step.acquire [of 2 "?s {2} None {1}"] by (simp add: any_step_def)
  moreover have "any_step (?s {} (Some 2) {1}) (?s {} (Some 2) {2, 1})"
    using rebuild_step.launch [of "?s {} (Some 2) {1}" 2] by (simp add: any_step_def)
  ultimately have "any_step\<^sup>*\<^sup>* idle_helper (?s {} (Some 2) {2, 1})"
    by (meson converse_rtranclp_into_rtranclp rtranclp.rtrancl_refl)
  then show ?thesis by (intro exI [of _ "?s {} (Some 2) {2, 1}"]) simp
qed

text \<open>
   A rebuild's exit code is honest: the code sent is zero exactly when the unit's state
  was read as active, whatever its exit status says; a status that is no number counts as 1.
\<close>

theorem rebuild_exit_honest:
  "exit_code h svc s = (c, s') \<Longrightarrow> (c = 0 \<longleftrightarrow> fst (show_prop h svc ''ActiveState'' s) = ''active'')"
  by (auto simp: exit_code_def exit_code_from_def Let_def split: prod.splits if_splits)

definition example_helper :: "pystr helper_host" where
  "example_helper = \<lparr>run_command = (\<lambda>c w. ((0, w), w)), stream_command = (\<lambda>c w. (([], 0), w)),
     unit_stamp = (\<lambda>w. ''1-2''), client_gone = (\<lambda>w. False), path_env = ''/bin'',
     env_flake_dir = Some ''/etc/nixos'', env_hostname = Some ''box''\<rparr>"

definition example_state :: "pystr \<Rightarrow> pystr helper" where
  "example_state st = \<lparr>hp_world = st, hp_ran = [], hp_out = []\<rparr>"

lemma rebuild_exit_honest_witness:
  "fst (show_prop example_helper ''x.service'' ''ActiveState'' (example_state ''failed'')) \<noteq> ''active''"
proof -
  have e: "fst (exit_code example_helper ''x.service'' (example_state ''failed'')) = 1" by code_simp
  then obtain s' where "exit_code example_helper ''x.service'' (example_state ''failed'') = (1, s')"
    by (metis prod.collapse)
  from rebuild_exit_honest [OF this] show ?thesis by simp
qed

lemma stuck_rebuild:
  defines "s \<equiv> run_rebuild example_helper (build_cmd ''switch'' ''/etc/nixos'' ''box'') (example_state ''activating'')"
  shows "last (hp_out s) = exit_msg 1" and "hp_ran s ! 4 = [SYSTEMCTL, ''stop'', rebuild_svc ''1-2'']"
proof -
  have e: "exit_code_from (strip ''activating'') (strip ''activating'') = 1" by code_simp
  note run = run_rebuild_def exit_code_def show_prop_def run_cmd_def stream_cmd_def example_helper_def
        example_state_def Let_def e send_obj_def cleanup_unit_def rebuild_svc_def
  show "last (hp_out s) = exit_msg 1" unfolding s_def by (simp add: run)
  show "hp_ran s ! 4 = [SYSTEMCTL, ''stop'', rebuild_svc ''1-2'']" unfolding s_def by (simp add: run)
qed

text \<open>
   When the journal follower ends before the rebuild does, the helper stops the rebuild:
  the unit is read as still activating, the client is told it failed, and then the unit is
  stopped, although a running rebuild is never to be touched.
\<close>

theorem running_rebuild_stopped:
  "let s = run_rebuild example_helper (build_cmd ''switch'' ''/etc/nixos'' ''box'') (example_state ''activating'')
   in \<not> is_reapable ''activating'' \<and> \<not> unit_is_finished ''activating'' \<and>
      fst (show_prop example_helper (rebuild_svc ''1-2'') ''ActiveState'' (example_state ''activating'')) = ''activating'' \<and>
      last (hp_out s) = exit_msg 1 \<and> hp_ran s ! 4 = [SYSTEMCTL, ''stop'', rebuild_svc ''1-2'']"
proof -
  have "fst (show_prop example_helper (rebuild_svc ''1-2'') ''ActiveState'' (example_state ''activating'')) = ''activating''"
    by code_simp
  moreover have "\<not> is_reapable ''activating'' \<and> \<not> unit_is_finished ''activating''" by code_simp
  ultimately show ?thesis
    using stuck_rebuild unfolding Let_def by (intro conjI) blast+
qed

end
