(* ===== verification/Safety.thy ===== *)
theory Safety
  imports Daemon_State
begin

text \<open>
  \<^verbatim>\<open>session.py\<close> and \<^verbatim>\<open>safety.py\<close>: the sessions' scratch state and the gate in front of the root
  helper. What the helper's socket gives to one request is an argument: the connection is
  refused, or lines arrive (\<open>None\<close> where the bytes are no UTF-8) and then the stream ends,
  fails or the deadline passes.
\<close>

section \<open>Sessions\<close>

definition get_session :: "pystr \<Rightarrow> 'w daemon \<Rightarrow> session_state" where
  "get_session s d = the_default new_session (dm_sessions d s)"

text \<open>\<^verbatim>\<open>SessionRegistry.state\<close> creates the entry on first use.\<close>

definition touch_session :: "pystr \<Rightarrow> ('w daemon, unit) act" where
  "touch_session s d = (Inr (), d\<lparr>dm_sessions := (dm_sessions d)(s \<mapsto> get_session s d)\<rparr>)"

definition record_test :: "'w host \<Rightarrow> pystr \<Rightarrow> bool \<Rightarrow> ('w daemon, unit) act" where
  "record_test h s b d =
     (Inr (), d\<lparr>dm_sessions := (dm_sessions d)(s \<mapsto>
        (get_session s d)\<lparr>last_test_ok := b, last_test_at := Some (clock h (dm_world d))\<rparr>)\<rparr>)"

section \<open>Talking to the helper\<close>

datatype stream_end = Eof | Deadline | Stream_error pystr

datatype helper_reply = Cannot_connect pystr | Lines "pystr option list" stream_end

definition malformed_json :: exn where
  "malformed_json = SafetyError ''privileged helper returned malformed JSON''"

text \<open>One message of the helper, on the output collected and the exit code seen so far.\<close>

definition helper_stream :: "(pystr \<times> json) list \<Rightarrow> pystr list \<Rightarrow> exn + pystr list" where
  "helper_stream msg chunks =
     (case the_default JNull (map_of msg ''stream'') of
        JNull \<Rightarrow> Inr chunks
      | JStr s \<Rightarrow> Inr (chunks @ [s])
      | _ \<Rightarrow> Inl (SafetyError ''privileged helper returned a malformed stream''))"

definition helper_exit :: "(pystr \<times> json) list \<Rightarrow> int option \<Rightarrow> exn + int option" where
  "helper_exit msg exit_code =
     (case map_of msg ''exit'' of
        None \<Rightarrow> Inr exit_code
      | Some (JInt c) \<Rightarrow> Inr (Some c)
      | Some _ \<Rightarrow> Inl (SafetyError ''privileged helper returned an invalid exit code''))"

definition helper_message ::
  "py_texts \<Rightarrow> (pystr \<times> json) list \<Rightarrow> pystr list \<Rightarrow> int option \<Rightarrow> exn + pystr list \<times> int option" where
  "helper_message py msg chunks exit_code =
     (case map_of msg ''error'' of
        Some e \<Rightarrow> Inl (SafetyError (''privileged helper refused request: '' @ str_json py e))
      | None \<Rightarrow>
          (case helper_stream msg chunks of
             Inl e \<Rightarrow> Inl e
           | Inr chunks' \<Rightarrow> map_sum id (Pair chunks') (helper_exit msg exit_code)))"

fun read_lines ::
  "py_texts \<Rightarrow> pystr option list \<Rightarrow> pystr list \<Rightarrow> int option \<Rightarrow> exn + pystr list \<times> int option" where
  "read_lines py [] chunks exit_code = Inr (chunks, exit_code)"
| "read_lines py (None # ls) chunks exit_code = Inl malformed_json"
| "read_lines py (Some raw # ls) chunks exit_code =
     (if strip raw = [] then read_lines py ls chunks exit_code
      else (case loads (strip raw) of
          None \<Rightarrow> Inl malformed_json
        | Some (JObj msg) \<Rightarrow>
            (case helper_message py msg chunks exit_code of
               Inl e \<Rightarrow> Inl e
             | Inr (chunks', exit_code') \<Rightarrow> read_lines py ls chunks' exit_code')
        | Some _ \<Rightarrow> Inl (SafetyError ''privileged helper returned a malformed response'')))"

text \<open>\<open>timeout_g\<close> is the configured deadline as \<^verbatim>\<open>:g\<close> prints it.\<close>

definition helper_result :: "py_texts \<Rightarrow> pystr \<Rightarrow> helper_reply \<Rightarrow> exn + pystr \<times> int" where
  "helper_result py timeout_g reply =
     (case reply of
        Cannot_connect msg \<Rightarrow> Inl (SafetyError (''cannot reach privileged helper: '' @ msg))
      | Lines ls fin \<Rightarrow>
          (case read_lines py ls [] None of
             Inl e \<Rightarrow> Inl e
           | Inr (chunks, exit_code) \<Rightarrow>
               (case fin of
                  Deadline \<Rightarrow> Inl (SafetyError (''privileged helper timed out after '' @ timeout_g @ ''s''))
                | Stream_error msg \<Rightarrow> Inl (SafetyError (''cannot reach privileged helper: '' @ msg))
                | Eof \<Rightarrow>
                    (case exit_code of
                       None \<Rightarrow> Inl (SafetyError ''privileged helper disconnected without a final exit status'')
                     | Some c \<Rightarrow> Inr (strip (concat chunks), c)))))"

record 'w gate =
  talk :: "json \<Rightarrow> 'w \<Rightarrow> helper_reply \<times> 'w"
  texts :: py_texts
  timeout_g :: pystr

definition run_helper :: "'w gate \<Rightarrow> (pystr \<times> pystr) list \<Rightarrow> ('w, pystr \<times> int) act" where
  "run_helper g req w =
     (let (reply, w') = talk g (JObj (map (\<lambda>(k, v). (k, JStr v)) req)) w
      in (helper_result (texts g) (timeout_g g) reply, w'))"

section \<open>The gate\<close>

definition ACTIONS :: "pystr list" where
  "ACTIONS = [''test'', ''switch'', ''boot'', ''revert'']"

definition refused_text :: pystr where
  "refused_text = ''Refused: run a configuration `test` first and confirm it succeeds before switching.''"

definition cancelled_text :: pystr where
  "cancelled_text = ''Cancelled '' @ [emdash] @ '' no changes were made.''"

definition or_done :: "pystr \<Rightarrow> pystr" where
  "or_done output = (if output \<noteq> [] then output else ''(done)'')"

text \<open>The request to the helper, the record of a test, and the text for the caller.\<close>

definition dispatch_rebuild :: "'w host \<Rightarrow> 'w gate \<Rightarrow> pystr \<Rightarrow> pystr \<Rightarrow> ('w daemon, pystr) act" where
  "dispatch_rebuild h g session action =
     andthen (lift (run_helper g [(''action'', action)])) (\<lambda>(output, code).
     andthen (if action = ''test'' then record_test h session (code = 0) else ret ()) (\<lambda>_.
       if code \<noteq> 0
       then ret (strip (output @ [newline] @ ''(rebuild failed, exit '' @ show_int code @ '')''))
       else ret (or_done output)))"

definition confirm_text :: "pystr \<Rightarrow> pystr" where
  "confirm_text action = ''Confirm: '' @ (if action = ''switch'' then ''apply'' else ''stage for next boot'')
     @ '' the NixOS configuration change?''"

definition rebuild ::
  "'w host \<Rightarrow> 'w gate \<Rightarrow> pystr \<Rightarrow> (pystr \<Rightarrow> ('w daemon, bool) act) \<Rightarrow> pystr \<Rightarrow> ('w daemon, pystr) act" where
  "rebuild h g session confirm action d =
     (if action \<notin> set ACTIONS
      then raise (SafetyError (''unknown rebuild action: '' @ py_repr action)) d
      else if action = ''switch'' \<and> \<not> last_test_ok (get_session session d) then ret refused_text d
      else if action \<in> {''switch'', ''boot''} then
        andthen (confirm (confirm_text action)) (\<lambda>yes.
          if \<not> yes then ret cancelled_text else dispatch_rebuild h g session action) d
      else dispatch_rebuild h g session action d)"

text \<open>The direct operations of the deterministic tiers: a nonzero exit is an exception.\<close>

definition checked_helper :: "'w gate \<Rightarrow> pystr \<Rightarrow> (pystr \<times> pystr) list \<Rightarrow> ('w, pystr) act" where
  "checked_helper g what req =
     andthen (run_helper g req) (\<lambda>(output, code).
       if code \<noteq> 0
       then raise (SafetyError (strip (what @ '' failed (exit '' @ show_int code @ ''):'' @ [newline] @ output)))
       else ret (or_done output))"

definition apply_switch :: "'w gate \<Rightarrow> ('w, pystr) act" where
  "apply_switch g = checked_helper g ''rebuild'' [(''action'', ''switch'')]"

definition apply_revert :: "'w gate \<Rightarrow> ('w, pystr) act" where
  "apply_revert g = checked_helper g ''rollback'' [(''action'', ''revert'')]"

definition apply_restart :: "'w gate \<Rightarrow> pystr \<Rightarrow> ('w, pystr) act" where
  "apply_restart g u = checked_helper g (''restart '' @ u) [(''action'', ''restart''), (''unit'', u)]"

section \<open>Results of the helper\<close>

text \<open>An exit code is only ever taken from an integer the helper sent.\<close>

lemma helper_exit_source:
  "helper_exit msg e = Inr (Some c) \<Longrightarrow> e = Some c \<or> map_of msg ''exit'' = Some (JInt c)"
  by (auto simp: helper_exit_def split: option.splits json.splits)

definition sent_exit :: "pystr option list \<Rightarrow> int \<Rightarrow> bool" where
  "sent_exit ls c \<longleftrightarrow> (\<exists>raw msg. Some raw \<in> set ls \<and> loads (strip raw) = Some (JObj msg) \<and>
     map_of msg ''exit'' = Some (JInt c) \<and> map_of msg ''error'' = None)"

lemma helper_message_exit:
  assumes "helper_message py msg chunks e = Inr (ch, Some c)"
  shows "e = Some c \<or> (map_of msg ''exit'' = Some (JInt c) \<and> map_of msg ''error'' = None)"
  using assms helper_exit_source [of msg e c]
  by (auto simp: helper_message_def map_sum_def split: option.splits sum.splits)

lemma read_lines_exit:
  "read_lines py ls chunks e = Inr (ch, Some c) \<Longrightarrow> e = Some c \<or> sent_exit ls c"
proof (induction py ls chunks e rule: read_lines.induct)
  case (3 py raw ls chunks e)
  show ?case
  proof (cases "strip raw = []")
    case True
    with 3 show ?thesis by (fastforce simp: sent_exit_def)
  next
    case False
    with 3 show ?thesis
      by (fastforce simp: sent_exit_def dest!: helper_message_exit split: option.splits json.splits sum.splits)
  qed
qed (simp_all add: sent_exit_def)

lemma helper_result_Inr:
  assumes "helper_result py t reply = Inr (output, c)"
  obtains ls where "reply = Lines ls Eof" "sent_exit ls c"
  using assms read_lines_exit
  by (fastforce simp: helper_result_def split: helper_reply.splits sum.splits stream_end.splits option.splits)

lemma helper_message_safety: "helper_message py msg chunks x = Inl e \<Longrightarrow> \<exists>m. e = SafetyError m"
  by (auto simp: helper_message_def helper_stream_def helper_exit_def split: option.splits json.splits)

lemma read_lines_safety: "read_lines py ls chunks x = Inl e \<Longrightarrow> \<exists>m. e = SafetyError m"
  by (induction py ls chunks x rule: read_lines.induct)
    (auto simp: malformed_json_def dest: helper_message_safety split: if_splits option.splits json.splits sum.splits)

lemma helper_result_safety: "helper_result py t reply = Inl e \<Longrightarrow> \<exists>m. e = SafetyError m"
  using read_lines_safety
  by (fastforce simp: helper_result_def split: helper_reply.splits sum.splits stream_end.splits option.splits)

section \<open>The gate over a session\<close>

text \<open>
  A gate whose person and helper answer from a script and whose questions and requests are on
  record. Scripts are arbitrary, so this is any person and any helper.
\<close>

datatype gate_event = Asked bool | Requested pystr "exn + pystr \<times> int"

record gate_world =
  gw_replies :: "helper_reply list"
  gw_answers :: "bool list"
  gw_log :: "gate_event list"
  gw_time :: real

definition request_action :: "json \<Rightarrow> pystr" where
  "request_action req = (case req of
       JObj kvs \<Rightarrow> (case map_of kvs ''action'' of Some (JStr a) \<Rightarrow> a | _ \<Rightarrow> [])
     | _ \<Rightarrow> [])"

definition next_reply :: "gate_world \<Rightarrow> helper_reply" where
  "next_reply w = (case gw_replies w of [] \<Rightarrow> Cannot_connect [] | r # rs \<Rightarrow> r)"

definition script_gate :: "py_texts \<Rightarrow> gate_world gate" where
  "script_gate py = \<lparr>
     talk = (\<lambda>req w. (next_reply w, w\<lparr>gw_replies := tl (gw_replies w),
        gw_log := gw_log w @ [Requested (request_action req) (helper_result py ''3700'' (next_reply w))]\<rparr>)),
     texts = py, timeout_g = ''3700''\<rparr>"

definition gate_host :: "gate_world host" where
  "gate_host = \<lparr>spawn = (\<lambda>c t w. (NotFound, w)), kill_group = id, sleep = (\<lambda>t w. w\<lparr>gw_time := gw_time w + t\<rparr>),
     clock = gw_time, db_up = (\<lambda>_. True)\<rparr>"

definition script_confirm :: "pystr \<Rightarrow> (gate_world daemon, bool) act" where
  "script_confirm txt d =
     (let w = dm_world d; b = (gw_answers w \<noteq> [] \<and> hd (gw_answers w))
      in (Inr b, d\<lparr>dm_world := w\<lparr>gw_answers := tl (gw_answers w), gw_log := gw_log w @ [Asked b]\<rparr>\<rparr>))"

definition gate_call :: "py_texts \<Rightarrow> pystr \<Rightarrow> gate_world daemon \<Rightarrow> pystr \<Rightarrow> gate_world daemon" where
  "gate_call py session d action = snd (rebuild gate_host (script_gate py) session script_confirm action d)"

text \<open>
  The verdict of the last test that completed, and a log in which every switch and every boot
  directly follows a yes, and every switch comes when that verdict was good.
\<close>

definition test_verdict :: "bool \<Rightarrow> gate_event \<Rightarrow> bool" where
  "test_verdict v e = (case e of Requested a (Inr (out, c)) \<Rightarrow> (if a = ''test'' then c = 0 else v) | _ \<Rightarrow> v)"

definition last_verdict :: "gate_event list \<Rightarrow> bool" where
  "last_verdict es = foldl test_verdict False es"

fun gated :: "bool \<Rightarrow> bool \<Rightarrow> gate_event list \<Rightarrow> bool" where
  "gated verdict consent [] = True"
| "gated verdict consent (Asked b # es) = gated verdict b es"
| "gated verdict consent (Requested a r # es) =
     ((a \<in> {''switch'', ''boot''} \<longrightarrow> consent) \<and> (a = ''switch'' \<longrightarrow> verdict) \<and>
      gated (test_verdict verdict (Requested a r)) False es)"

definition ends_with_yes :: "gate_event list \<Rightarrow> bool" where
  "ends_with_yes es \<longleftrightarrow> (\<exists>xs. es = xs @ [Asked True])"

lemma ends_with_yes_snoc [simp]: "ends_with_yes (es @ [e]) \<longleftrightarrow> e = Asked True"
  by (auto simp: ends_with_yes_def)

lemma last_verdict_snoc [simp]: "last_verdict (es @ [e]) = test_verdict (last_verdict es) e"
  by (simp add: last_verdict_def)

lemma gated_append:
  "gated v c (es @ fs) \<longleftrightarrow> gated v c es \<and>
     gated (foldl test_verdict v es) (if es = [] then c else ends_with_yes es) fs"
proof (induction v c es rule: gated.induct)
  case (2 v c b es)
  then show ?case by (cases es rule: rev_cases) (auto simp: test_verdict_def ends_with_yes_def Cons_eq_append_conv)
next
  case (3 v c a r es)
  then show ?case by (cases es rule: rev_cases) (auto simp: ends_with_yes_def Cons_eq_append_conv)
qed simp

definition gate_inv :: "pystr \<Rightarrow> gate_world daemon \<Rightarrow> bool" where
  "gate_inv session d \<longleftrightarrow>
     last_test_ok (get_session session d) = last_verdict (gw_log (dm_world d)) \<and>
     gated False False (gw_log (dm_world d))"

lemma gated_snoc:
  "gated False False (es @ [Requested a r]) \<longleftrightarrow> gated False False es \<and>
     (a \<in> {''switch'', ''boot''} \<longrightarrow> ends_with_yes es) \<and> (a = ''switch'' \<longrightarrow> last_verdict es)"
  by (auto simp: gated_append last_verdict_def ends_with_yes_def)

lemma gated_ask: "gated False False (es @ [Asked b]) \<longleftrightarrow> gated False False es"
  by (simp add: gated_append)

text \<open>What a dispatched request leaves.\<close>

lemma dispatch_rebuild_log:
  assumes "dispatch_rebuild gate_host (script_gate py) session action d = (r, d')"
  shows "\<exists>res. gw_log (dm_world d') = gw_log (dm_world d) @ [Requested action res] \<and>
     last_test_ok (get_session session d') =
       test_verdict (last_test_ok (get_session session d)) (Requested action res)"
proof -
  let ?res = "helper_result py ''3700'' (next_reply (dm_world d))"
  have req: "request_action (JObj (map (\<lambda>(k, v). (k, JStr v)) [(''action'', action)])) = action"
    by (simp add: request_action_def)
  show ?thesis
  proof (cases ?res)
    case (Inl e)
    with assms req show ?thesis
      by (intro exI [of _ ?res])
        (auto simp: dispatch_rebuild_def andthen_def lift_def run_helper_def script_gate_def Let_def
          test_verdict_def get_session_def)
  next
    case (Inr p)
    then obtain out c where "?res = Inr (out, c)" by (cases p) auto
    with assms req show ?thesis
      by (intro exI [of _ ?res])
        (auto simp: dispatch_rebuild_def andthen_def lift_def run_helper_def script_gate_def Let_def
          test_verdict_def get_session_def record_test_def ret_def split: if_splits)
  qed
qed

lemma gate_inv_dispatch:
  assumes "gate_inv session d"
    and "action \<in> {''switch'', ''boot''} \<longrightarrow> ends_with_yes (gw_log (dm_world d))"
    and "action = ''switch'' \<longrightarrow> last_test_ok (get_session session d)"
  shows "gate_inv session (snd (dispatch_rebuild gate_host (script_gate py) session action d))"
proof -
  obtain r d' where d': "dispatch_rebuild gate_host (script_gate py) session action d = (r, d')" by fastforce
  from dispatch_rebuild_log [OF this] obtain res where
    "gw_log (dm_world d') = gw_log (dm_world d) @ [Requested action res]"
    "last_test_ok (get_session session d') = test_verdict (last_test_ok (get_session session d)) (Requested action res)"
    by blast
  with assms d' show ?thesis by (auto simp: gate_inv_def gated_snoc)
qed

lemma gate_inv_call [step_intros]: "gate_inv session d \<Longrightarrow> gate_inv session (gate_call py session d action)"
proof -
  assume inv: "gate_inv session d"
  consider (plain) "action \<in> {''test'', ''revert''}" | (ask) "action = ''boot'' \<or> action = ''switch'' \<and> last_test_ok (get_session session d)"
    | (refused) "action \<notin> set ACTIONS \<or> action = ''switch'' \<and> \<not> last_test_ok (get_session session d)"
    by (auto simp: ACTIONS_def)
  then show ?thesis
  proof cases
    case plain
    then have "gate_call py session d action = snd (dispatch_rebuild gate_host (script_gate py) session action d)"
      by (auto simp: gate_call_def rebuild_def ACTIONS_def)
    with inv plain show ?thesis by (auto intro!: gate_inv_dispatch)
  next
    case refused
    then have "gate_call py session d action = d"
      by (auto simp: gate_call_def rebuild_def ret_def raise_def ACTIONS_def)
    with inv show ?thesis by simp
  next
    case ask
    obtain q where g: "gate_call py session d action = snd (andthen (script_confirm q) (\<lambda>yes.
        if \<not> yes then ret cancelled_text else dispatch_rebuild gate_host (script_gate py) session action) d)"
      using ask by (auto simp: gate_call_def rebuild_def ACTIONS_def)
    obtain b D where c: "script_confirm q d = (Inr b, D)" and log: "gw_log (dm_world D) = gw_log (dm_world d) @ [Asked b]"
      and ses: "get_session session D = get_session session d"
      by (simp add: script_confirm_def Let_def get_session_def)
    have inv': "gate_inv session D"
      using inv by (simp add: gate_inv_def gated_ask log ses test_verdict_def)
    show ?thesis
    proof (cases b)
      case False
      then have "gate_call py session d action = D" unfolding g by (simp add: andthen_def c ret_def)
      with inv' show ?thesis by simp
    next
      case True
      then have "gate_call py session d action = snd (dispatch_rebuild gate_host (script_gate py) session action D)"
        unfolding g by (simp add: andthen_def c)
      then show ?thesis using inv' True ask log ses by (auto intro!: gate_inv_dispatch)
    qed
  qed
qed

interpretation gate_machine: event_machine "gate_call py session" "gate_inv session" for py session
  by unfold_locales (rule gate_inv_call)

section \<open>Properties\<close>

text \<open>
  C1: The safety gate over any sequence of rebuild calls in a session, for any answers of
  the person and any behaviour of the helper. Every switch and every boot sent to the helper
  directly follows a yes to its own question, and every switch is sent only when the last
  test of the session that completed had exit code 0.
\<close>

theorem every_switch_tested_and_confirmed:
  "gated False False (gw_log (dm_world (foldl (gate_call py session)
     (new_daemon \<lparr>gw_replies = replies, gw_answers = people, gw_log = [], gw_time = 0\<rparr> st) actions)))"
proof -
  have "gate_inv session (new_daemon \<lparr>gw_replies = replies, gw_answers = people, gw_log = [], gw_time = 0\<rparr> st)"
    by (simp add: gate_inv_def new_daemon_def get_session_def new_session_def last_verdict_def)
  from gate_machine.inv_events [OF this, of py actions] show ?thesis by (simp add: gate_inv_def)
qed


text \<open>
   Refusals change nothing: an unknown action, a switch without a good test and a declined
  question leave the daemon as the question (if any) left it, and send nothing to the helper.
\<close>

theorem rebuild_refusals:
  "(if action \<notin> set ACTIONS then snd (rebuild h g session confirm action d) = d
    else if action = ''switch'' \<and> \<not> last_test_ok (get_session session d)
    then rebuild h g session confirm action d = (Inr refused_text, d)
    else if action \<in> {''switch'', ''boot''} then
      (case confirm (confirm_text action) d of
             (Inr False, d') \<Rightarrow> rebuild h g session confirm action d = (Inr cancelled_text, d')
           | (Inl e, d') \<Rightarrow> rebuild h g session confirm action d = (Inl e, d')
           | (Inr True, d') \<Rightarrow> rebuild h g session confirm action d = dispatch_rebuild h g session action d')
    else rebuild h g session confirm action d = dispatch_rebuild h g session action d)"
  by (auto simp: rebuild_def raise_def ret_def andthen_def split: prod.split sum.split bool.split)

end
