(* ===== verification/Module_Registry.thy ===== *)
theory Module_Registry
  imports Host "HOL-Library.Char_ord" "HOL-Library.List_Lexorder"
begin

text \<open>
  \<^verbatim>\<open>sdk.py\<close> and \<^verbatim>\<open>registry.py\<close>: what a module declares, the checks made when it is built, and
  the loading of built-in and third-party modules. A module's trigger and filter functions
  are only tested for presence there, so presence is what the records keep; context
  providers are known by name.
\<close>

definition SPEC_VERSION :: int where "SPEC_VERSION = 1"

record fetcher =
  ft_name :: pystr
  ft_cmd :: pystr
  ft_description :: pystr
  ft_timeout :: int
  ft_expose :: bool

record monitor_decl =
  mn_name :: pystr
  mn_source :: pystr
  mn_severity :: pystr
  mn_cmd :: pystr
  mn_interval :: int
  mn_has_trigger :: bool
  mn_bus :: pystr
  mn_interface :: pystr
  mn_signal :: pystr
  mn_has_filter :: bool

datatype routing_hint = Route_local | Route_remote | Route_auto

record module =
  md_spec_version :: int
  md_name :: pystr
  md_description :: pystr
  md_fetchers :: "fetcher list"
  md_monitors :: "monitor_decl list"
  md_context :: "pystr option"
  md_routing :: routing_hint

section \<open>The checks of the constructors\<close>

definition check_fetcher :: "fetcher \<Rightarrow> exn + fetcher" where
  "check_fetcher f =
     (if ft_name f = [] then Inl (ModuleError ''Fetcher.name must be non-empty'')
      else if ft_expose f \<and> ft_description f = [] then
        Inl (ModuleError (''Fetcher '' @ py_repr (ft_name f) @ '' is exposed as a tool but has no description; ''
          @ ''the remote model needs one to decide when to call it''))
      else Inr f)"

definition check_monitor :: "monitor_decl \<Rightarrow> exn + monitor_decl" where
  "check_monitor m =
     (if mn_source m = ''poll'' then
        (if mn_cmd m = [] then Inl (ModuleError (''poll monitor '' @ py_repr (mn_name m) @ '' requires a cmd''))
         else if \<not> mn_has_trigger m
         then Inl (ModuleError (''poll monitor '' @ py_repr (mn_name m) @ '' requires a trigger''))
         else if mn_interface m \<noteq> [] \<or> mn_signal m \<noteq> []
         then Inl (ModuleError (''poll monitor '' @ py_repr (mn_name m)
                @ '' must not set dbus fields (interface/signal)''))
         else Inr m)
      else if mn_source m = ''dbus'' then
        (if mn_interface m = [] \<or> mn_signal m = []
         then Inl (ModuleError (''dbus monitor '' @ py_repr (mn_name m) @ '' requires interface and signal''))
         else if mn_cmd m \<noteq> []
         then Inl (ModuleError (''dbus monitor '' @ py_repr (mn_name m) @ '' must not set a cmd''))
         else Inr m)
      else Inr m)"

text \<open>\<^verbatim>\<open>sorted({n for n in names if names.count(n) > 1})\<close>.\<close>

definition duplicates :: "pystr list \<Rightarrow> pystr list" where
  "duplicates names = sorted_list_of_set (set (filter (\<lambda>n. 1 < count_list names n) names))"

definition repr_list :: "pystr list \<Rightarrow> pystr" where
  "repr_list xs = ''['' @ join '', '' (map py_repr xs) @ '']''"

definition check_module :: "module \<Rightarrow> exn + module" where
  "check_module m =
     (if md_name m = [] then Inl (ModuleError ''Module.name must be non-empty'')
      else if md_description m = [] then
        Inl (ModuleError (''Module '' @ py_repr (md_name m) @ '' must have a description (drives the classifier)''))
      else if duplicates (map ft_name (md_fetchers m)) \<noteq> [] then
        Inl (ModuleError (''Module '' @ py_repr (md_name m) @ '' has duplicate fetcher names: ''
          @ repr_list (duplicates (map ft_name (md_fetchers m)))))
      else Inr m)"

section \<open>Loading\<close>

text \<open>What loading one entry point gives: an exception, some other object, or a module.\<close>

datatype loaded = Load_failed pystr | Other_object pystr | Loaded module

definition load_one :: "loaded \<Rightarrow> module option" where
  "load_one ep = (case ep of
       Load_failed e \<Rightarrow> None
     | Other_object t \<Rightarrow> None
     | Loaded m \<Rightarrow> (if md_spec_version m \<noteq> SPEC_VERSION then None else Some m))"

fun load_entry_points :: "(pystr \<times> pystr) list \<Rightarrow> module list \<Rightarrow> (pystr \<times> loaded) list \<Rightarrow> module list" where
  "load_entry_points seen modules [] = modules"
| "load_entry_points seen modules ((ep_name, ep) # eps) =
     (case load_one ep of
        None \<Rightarrow> load_entry_points seen modules eps
      | Some m \<Rightarrow>
          (if md_name m \<in> fst ` set seen then load_entry_points seen modules eps
           else load_entry_points ((md_name m, ep_name) # seen) (modules @ [m]) eps))"

definition load_modules :: "module list \<Rightarrow> (pystr \<times> loaded) list \<Rightarrow> module list" where
  "load_modules builtins eps =
     load_entry_points (map (\<lambda>m. (md_name m, ''builtin'')) builtins) builtins eps"

section \<open>Facts\<close>

lemma distinct_iff_count: "distinct xs \<longleftrightarrow> (\<forall>x \<in> set xs. \<not> 1 < count_list xs x)"
proof (induction xs)
  case (Cons a xs)
  show ?case
  proof (cases "a \<in> set xs")
    case True
    then have "count_list xs a \<noteq> 0" by (simp add: count_list_0_iff)
    then have "1 < count_list (a # xs) a" by simp
    with True show ?thesis by (metis distinct.simps(2) list.set_intros(1))
  next
    case False
    then have "count_list xs a = 0" by (simp add: count_list_0_iff)
    moreover have "count_list (a # xs) x = count_list xs x" if "x \<in> set xs" for x
      using that False by auto
    ultimately show ?thesis using False Cons by simp
  qed
qed simp

lemma duplicates_Nil: "duplicates names = [] \<longleftrightarrow> distinct names"
  by (auto simp: duplicates_def distinct_iff_count)

lemma load_entry_points_spec:
  assumes "set (map md_name modules) = fst ` set seen" and "distinct (map md_name modules)"
  shows "\<exists>new. load_entry_points seen modules eps = modules @ new \<and>
     distinct (map md_name (modules @ new)) \<and>
     (\<forall>m \<in> set new. md_spec_version m = SPEC_VERSION \<and> (\<exists>n. (n, Loaded m) \<in> set eps))"
  using assms
proof (induction eps arbitrary: seen modules)
  case (Cons e eps)
  obtain n ep where e: "e = (n, ep)" by fastforce
  from Cons.IH [OF Cons.prems] obtain new where
      new: "load_entry_points seen modules eps = modules @ new" "distinct (map md_name (modules @ new))"
      "\<forall>m \<in> set new. md_spec_version m = SPEC_VERSION \<and> (\<exists>n. (n, Loaded m) \<in> set eps)" by blast
  then have skip: ?case if "load_entry_points seen modules (e # eps) = load_entry_points seen modules eps"
    using that by (intro exI [of _ new]) auto
  show ?case
  proof (cases "load_one ep")
    case None
    then show ?thesis by (intro skip) (simp add: e)
  next
    case (Some m)
    then have m: "ep = Loaded m" "md_spec_version m = SPEC_VERSION"
      by (auto simp: load_one_def split: loaded.splits if_splits)
    show ?thesis
    proof (cases "md_name m \<in> fst ` set seen")
      case True
      with Some show ?thesis by (intro skip) (simp add: e)
    next
      case False
      have "set (map md_name (modules @ [m])) = fst ` set ((md_name m, n) # seen)"
        and "distinct (map md_name (modules @ [m]))"
        using Cons.prems False by auto
      from Cons.IH [OF this] obtain new where
        "load_entry_points ((md_name m, n) # seen) (modules @ [m]) eps = (modules @ [m]) @ new"
        "distinct (map md_name ((modules @ [m]) @ new))"
        "\<forall>m \<in> set new. md_spec_version m = SPEC_VERSION \<and> (\<exists>n. (n, Loaded m) \<in> set eps)" by blast
      with False Some m show ?thesis unfolding e by (intro exI [of _ "m # new"]) auto
    qed
  qed
qed (auto intro: exI [of _ "[]"])

section \<open>Properties\<close>

text \<open>
   Loading modules keeps the built-in ones, first and in order, adds only loaded modules of
  the supported version, and never gives two modules one name, whatever the entry points
  hold.
\<close>

theorem load_modules_safe:
  assumes "distinct (map md_name builtins)"
  shows "\<exists>new. load_modules builtins eps = builtins @ new \<and>
     distinct (map md_name (load_modules builtins eps)) \<and>
     (\<forall>m \<in> set new. md_spec_version m = SPEC_VERSION \<and> (\<exists>n. (n, Loaded m) \<in> set eps))"
proof -
  have "set (map md_name builtins) = fst ` set (map (\<lambda>m. (md_name m, ''builtin'')) builtins)"
    by (auto simp: image_image)
  from load_entry_points_spec [OF this assms] show ?thesis
    unfolding load_modules_def by (metis (no_types, lifting))
qed

definition sample_module :: "pystr \<Rightarrow> int \<Rightarrow> routing_hint \<Rightarrow> module" where
  "sample_module n v r = \<lparr>md_spec_version = v, md_name = n, md_description = ''containers'', md_fetchers = [],
     md_monitors = [], md_context = None, md_routing = r\<rparr>"

lemma load_modules_safe_witness:
  "distinct (map md_name (load_modules [sample_module ''disk'' 1 Route_auto]
     [(''a'', Loaded (sample_module ''disk'' 1 Route_local)), (''b'', Load_failed ''x''),
      (''c'', Loaded (sample_module ''docker'' 1 Route_auto))]))"
  using load_modules_safe [of "[sample_module ''disk'' 1 Route_auto]"] by fastforce

end
