(* ===== verification/Routing.thy ===== *)
theory Routing
  imports Module_Registry
begin

text \<open>
  \<^verbatim>\<open>routing.py\<close>: the recogniser of change requests, the choice of the desired chain and its
  reconciliation with what is ready.
\<close>

datatype chain = Local | Remote

fun chain_name :: "chain \<Rightarrow> pystr" where
  "chain_name Local = ''local''"
| "chain_name Remote = ''remote''"

datatype route_action = Proceed | Confirm_remote | Wait_local | Unavailable_chain

definition word_i :: "pystr \<Rightarrow> regex" where
  "word_i w = seqs [WordB, lit_i w, WordB]"

definition MUTATION_RE :: regex where
  "MUTATION_RE = alts (map word_i [''install'', ''uninstall'', ''remove'', ''add'', ''delete'',
       ''enable'', ''disable'']
     @ [seqs [WordB, lit_i ''turn '', alts [lit_i ''on'', lit_i ''off''], WordB]]
     @ map word_i [''set'', ''change'', ''update'', ''upgrade'', ''fix'', ''restart'', ''stop'',
       ''start'', ''rebuild'', ''rollback'', ''roll back''])"

definition QUESTION_RE :: regex where
  "QUESTION_RE = seqs [Bol, Star re_space,
     alts (map lit_i [''can'', ''could'', ''are'', ''is'', ''do'', ''does'', ''how'', ''what'', ''why'',
       ''when'', ''where'', ''should'']), WordB]"

definition detect_mutation :: "pystr \<Rightarrow> bool" where
  "detect_mutation txt = (if re_match QUESTION_RE txt then False else re_search MUTATION_RE txt)"

definition resolve_desired_chain :: "chain option \<Rightarrow> module list \<Rightarrow> chain \<Rightarrow> chain \<times> bool" where
  "resolve_desired_chain explicit matched default_chain =
     (case explicit of
        Some c \<Rightarrow> (c, c = Local)
      | None \<Rightarrow>
          (let hints = set (map md_routing matched)
           in if Route_local \<in> hints then (Local, True)
              else if Route_remote \<in> hints then (Remote, False)
              else (default_chain, False)))"

record decision =
  dc_chain :: chain
  dc_action :: route_action
  dc_pinned_local :: bool
  dc_message :: pystr

definition mk_decision :: "chain \<Rightarrow> route_action \<Rightarrow> bool \<Rightarrow> pystr \<Rightarrow> decision" where
  "mk_decision c a p m = \<lparr>dc_chain = c, dc_action = a, dc_pinned_local = p, dc_message = m\<rparr>"

definition resolve :: "chain \<Rightarrow> bool \<Rightarrow> bool \<Rightarrow> bool \<Rightarrow> decision" where
  "resolve desired pinned_local local_ready remote_ready =
     (if desired = Remote then
        (if remote_ready then mk_decision Remote Proceed pinned_local []
         else if local_ready then mk_decision Local Confirm_remote pinned_local
           ''The remote assistant is unavailable. Use the on-device model instead?''
         else mk_decision Remote Unavailable_chain pinned_local ''No assistant is available right now.'')
      else if local_ready then mk_decision Local Proceed pinned_local []
      else if remote_ready then mk_decision Remote Confirm_remote pinned_local
        (if pinned_local
         then ''The on-device model is starting. Use the remote assistant instead ''
              @ ''(your request would leave this device)?''
         else ''The on-device model is starting. Use the remote assistant instead, or wait?'')
      else mk_decision Local Wait_local pinned_local
        (''The on-device model is still starting'' @ [ellipsis]))"

lemma mk_decision_simps [simp]:
  "dc_chain (mk_decision c a p m) = c" "dc_action (mk_decision c a p m) = a"
  "dc_pinned_local (mk_decision c a p m) = p" "dc_message (mk_decision c a p m) = m"
  by (simp_all add: mk_decision_def)

section \<open>What the recogniser accepts\<close>

lemma matches_rel_word_i:
  "matches_rel (word_i w) (b, a) q \<longleftrightarrow>
     (\<exists>u v. a = u @ v \<and> lower u = w \<and> word_boundary (b, a) \<and> word_boundary (rev u @ b, v) \<and> q = (rev u @ b, v))"
  by (auto simp: word_i_def rel_Seq_iff rel_WordB_iff matches_rel_lit_i)

lemma re_search_word_i:
  "re_search (word_i w) s \<longleftrightarrow>
     (\<exists>u x v. s = u @ x @ v \<and> lower x = w \<and> word_boundary (rev u, x @ v) \<and> word_boundary (rev x @ rev u, v))"
  by (auto simp: re_search_iff matches_rel_word_i)

lemma re_search_alts: "re_search (alts rs) s \<longleftrightarrow> (\<exists>r \<in> set rs. re_search r s)"
  unfolding re_search_iff matches_rel_alts by blast

lemma matches_rel_lit_i_append:
  "matches_rel (lit_i (v @ w)) p q \<longleftrightarrow> (\<exists>r. matches_rel (lit_i v) p r \<and> matches_rel (lit_i w) r q)"
  by (induction v arbitrary: p) (simp add: rel_Eps_iff, simp add: rel_Seq_iff, blast)

lemma matches_rel_turn:
  "matches_rel (seqs [WordB, lit_i ''turn '', alts [lit_i ''on'', lit_i ''off''], WordB]) p q \<longleftrightarrow>
     matches_rel (word_i ''turn on'') p q \<or> matches_rel (word_i ''turn off'') p q" (is "?L \<longleftrightarrow> ?R")
proof -
  have "?L \<longleftrightarrow> word_boundary p \<and> word_boundary q \<and>
      (\<exists>r. matches_rel (lit_i ''turn '') p r \<and> (matches_rel (lit_i ''on'') r q \<or> matches_rel (lit_i ''off'') r q))"
    by (simp only: seqs.simps alts.simps rel_Seq_iff rel_Alt_iff rel_WordB_iff) blast
  also have "\<dots> \<longleftrightarrow> word_boundary p \<and> word_boundary q \<and>
      (matches_rel (lit_i (''turn '' @ ''on'')) p q \<or> matches_rel (lit_i (''turn '' @ ''off'')) p q)"
    by (simp only: matches_rel_lit_i_append) blast
  also have "\<dots> \<longleftrightarrow> word_boundary p \<and> word_boundary q \<and>
      (matches_rel (lit_i ''turn on'') p q \<or> matches_rel (lit_i ''turn off'') p q)"
    by (simp only: append.simps)
  also have "\<dots> \<longleftrightarrow> ?R"
    by (simp only: word_i_def seqs.simps rel_Seq_iff rel_WordB_iff) blast
  finally show ?thesis .
qed

lemma re_search_turn:
  "re_search (seqs [WordB, lit_i ''turn '', alts [lit_i ''on'', lit_i ''off''], WordB]) s \<longleftrightarrow>
     re_search (word_i ''turn on'') s \<or> re_search (word_i ''turn off'') s"
  unfolding re_search_iff matches_rel_turn by blast

definition mutation_verbs :: "pystr list" where
  "mutation_verbs = [''install'', ''uninstall'', ''remove'', ''add'', ''delete'', ''enable'', ''disable'',
     ''turn on'', ''turn off'', ''set'', ''change'', ''update'', ''upgrade'', ''fix'', ''restart'', ''stop'',
     ''start'', ''rebuild'', ''rollback'', ''roll back'']"

lemma chain_not [simp]: "c \<noteq> Remote \<longleftrightarrow> c = Local" "c \<noteq> Local \<longleftrightarrow> c = Remote"
  by (cases c; simp)+

lemma re_search_MUTATION_RE: "re_search MUTATION_RE s \<longleftrightarrow> (\<exists>w \<in> set mutation_verbs. re_search (word_i w) s)"
  unfolding MUTATION_RE_def re_search_alts set_append bex_Un
  by (simp only: list.map list.set bex_simps insert_iff re_search_turn mutation_verbs_def) blast

section \<open>Properties\<close>

text \<open>
  C24: The daemon never moves a request to another chain on its own: what may proceed at once
  proceeds on the chain that was desired and ready; going remote instead of local always asks
  first; and a request with a privacy hint or an explicit wish for local is desired local.
\<close>

theorem never_silently_remote:
  "let (desired, pinned) = resolve_desired_chain explicit matched dflt;
       d = resolve desired pinned lr rr
   in (dc_action d = Proceed \<longrightarrow> dc_chain d = desired \<and> (if desired = Local then lr else rr)) \<and>
      (desired = Local \<and> dc_chain d = Remote \<longrightarrow> dc_action d = Confirm_remote) \<and>
      (pinned \<longrightarrow> desired = Local) \<and> dc_pinned_local d = pinned \<and>
      (explicit = Some Local \<or> (explicit = None \<and> Route_local \<in> set (map md_routing matched)) \<longleftrightarrow> pinned)"
  by (auto simp: resolve_desired_chain_def resolve_def Let_def split: option.split)

lemma never_silently_remote_witness:
  "dc_action (resolve Local True False True) = Confirm_remote"
  using never_silently_remote [of None "[sample_module ''disk'' 1 Route_local]" Remote False True]
  by (simp add: resolve_desired_chain_def sample_module_def resolve_def)

text \<open>
   A hint for remote beats the automatic one: with one module of each the request goes
  remote even when the default is local, although the documented order is local, auto, remote.
\<close>

theorem remote_hint_beats_auto:
  "resolve_desired_chain None [sample_module ''disk'' 1 Route_auto, sample_module ''web'' 1 Route_remote] Local
     = (Remote, False)"
  by (simp add: resolve_desired_chain_def sample_module_def)

text \<open>
   A text is taken for a change request exactly when it is not phrased as a question and
  one of the twenty verbs stands in it, in any case, with word boundaries around it.
\<close>

theorem detect_mutation_iff:
  "detect_mutation txt \<longleftrightarrow> \<not> re_match QUESTION_RE txt \<and>
     (\<exists>u x v. txt = u @ x @ v \<and> lower x \<in> set mutation_verbs \<and>
        word_boundary (rev u, x @ v) \<and> word_boundary (rev x @ rev u, v))"
  unfolding detect_mutation_def re_search_MUTATION_RE re_search_word_i by auto

end
