(* ===== verification/Prefetch.thy ===== *)
theory Prefetch
  imports Module_Registry
begin

text \<open>
  \<^verbatim>\<open>prefetch.py\<close>: running the fetchers of the matched modules and formatting what they print,
  within bounds. The shell is an argument; the fetchers of one query, which the code runs in
  parallel, are run one after another.
\<close>

definition MAX_FETCHER_OUTPUT_CHARS :: nat where "MAX_FETCHER_OUTPUT_CHARS = 6000"
definition MAX_PREFETCH_CHARS :: nat where "MAX_PREFETCH_CHARS = 16000"

definition char_range :: "nat \<Rightarrow> nat \<Rightarrow> regex" where
  "char_range a b = Sym (\<lambda>c. a \<le> code c \<and> code c \<le> b)"

definition ANSI_ESCAPE :: regex where
  "ANSI_ESCAPE = Seq (chr (CHR 0x1B)) (Alt
     (seqs [chr (CHR ''[''), Star (char_range 0x30 0x3F), Star (char_range 0x20 0x2F), char_range 0x40 0x7E])
     (seqs [chr (CHR '']''), Star (Sym (\<lambda>c. c \<noteq> CHR 0x07)),
        Alt (chr (CHR 0x07)) (lit [CHR 0x1B, CHR 0x5C])]))"

definition truncation_marker :: "pystr \<Rightarrow> pystr" where
  "truncation_marker source = [newline, CHR ''['', ellipsis] @ '' output truncated: '' @ source @ '' '' @ [ellipsis, CHR '']'']"

definition truncate :: "pystr \<Rightarrow> nat \<Rightarrow> pystr \<Rightarrow> pystr" where
  "truncate txt limit source =
     (if length txt \<le> limit then txt
      else (let marker = truncation_marker source
            in if limit \<le> length marker then take limit marker
               else take (limit - length marker) txt @ marker))"

definition format_result :: "module \<Rightarrow> fetcher \<Rightarrow> pystr \<Rightarrow> pystr" where
  "format_result m f out =
     (let label = md_name m @ ''/'' @ ft_name f;
          label = (if ft_description f \<noteq> [] then label @ '' '' @ [emdash] @ '' '' @ ft_description f else label);
          cleaned = filter (\<lambda>c. c \<noteq> CHR 0x00) (re_sub ANSI_ESCAPE [] out);
          bounded = truncate cleaned MAX_FETCHER_OUTPUT_CHARS label
      in ''## '' @ label @ [newline] @ bounded)"

text \<open>What a shell command gives: its output, a nonzero exit, a timeout, or another exception.\<close>

datatype shell_result = Output pystr | Exit_nonzero int pystr | Shell_timeout | Shell_error pystr

definition run_blocking :: "shell_result \<Rightarrow> exn + pystr" where
  "run_blocking r = (case r of
       Output out \<Rightarrow> Inr (strip out)
     | Exit_nonzero rc out \<Rightarrow>
         Inr (if strip out \<noteq> [] then strip out else ''(exit '' @ show_int rc @ '')'')
     | Shell_timeout \<Rightarrow> Inr ''(timed out)''
     | Shell_error e \<Rightarrow> Inl (Foreign ''Exception'' e))"

definition run_fetcher :: "shell_result \<Rightarrow> pystr" where
  "run_fetcher r = (case run_blocking r of Inr out \<Rightarrow> out | Inl e \<Rightarrow> ''(error: '' @ str_exn e @ '')'')"

definition selected :: "module list \<Rightarrow> (module \<times> fetcher) list" where
  "selected ms = concat (map (\<lambda>m. map (Pair m) (md_fetchers m)) ms)"

fun run_all :: "(pystr \<Rightarrow> int \<Rightarrow> 'w \<Rightarrow> shell_result \<times> 'w) \<Rightarrow> (module \<times> fetcher) list \<Rightarrow> 'w \<Rightarrow> pystr list \<times> 'w" where
  "run_all shell [] w = ([], w)"
| "run_all shell ((m, f) # fs) w =
     (let (r, w) = shell (ft_cmd f) (ft_timeout f) w; (outs, w) = run_all shell fs w
      in (format_result m f (run_fetcher r) # outs, w))"

definition prefetch :: "(pystr \<Rightarrow> int \<Rightarrow> 'w \<Rightarrow> shell_result \<times> 'w) \<Rightarrow> module list \<Rightarrow> ('w, pystr) act" where
  "prefetch shell ms w =
     (if selected ms = [] then (Inr [], w)
      else (let (sections, w') = run_all shell (selected ms) w
            in (Inr (truncate (join [newline, newline] sections) MAX_PREFETCH_CHARS ''prefetch context''), w')))"

section \<open>Bounds\<close>

lemma length_truncate: "length (truncate txt limit source) \<le> limit"
  by (auto simp: truncate_def Let_def)

lemma truncate_fits [simp]: "length txt \<le> limit \<Longrightarrow> truncate txt limit source = txt"
  by (simp add: truncate_def)

lemma truncate_prefix:
  "length (truncation_marker source) + n \<le> limit \<Longrightarrow> n \<le> length txt \<Longrightarrow>
     take n (truncate txt limit source) = take n txt"
  by (cases "n = 0"; cases "length txt \<le> limit") (auto simp: truncate_def Let_def)

lemma prefetch_length:
  "\<exists>txt w'. prefetch shell ms w = (Inr txt, w') \<and> length txt \<le> MAX_PREFETCH_CHARS"
proof (cases "selected ms = []")
  case False
  obtain sections w' where s: "run_all shell (selected ms) w = (sections, w')" by fastforce
  have "prefetch shell ms w =
      (Inr (truncate (join [newline, newline] sections) MAX_PREFETCH_CHARS ''prefetch context''), w')"
    by (simp add: prefetch_def s False)
  then show ?thesis using length_truncate by blast
qed (simp add: prefetch_def)

lemma length_run_all: "length (fst (run_all shell fs w)) = length fs"
  by (induction shell fs w rule: run_all.induct) (auto simp: Let_def split: prod.split)

lemma run_all_first:
  assumes "fs \<noteq> []"
  shows "\<exists>s ss. fst (run_all shell fs w) = (''## '' @ s) # ss"
proof -
  obtain m f fs' where "fs = (m, f) # fs'" using assms by (metis neq_Nil_conv prod.exhaust)
  then show ?thesis by (auto simp: format_result_def Let_def split: prod.split)
qed

lemma strip_nonempty: "c \<in> set s \<Longrightarrow> \<not> is_space c \<Longrightarrow> strip s \<noteq> []"
proof -
  assume c: "c \<in> set s" "\<not> is_space c"
  then have "dropWhile is_space s \<noteq> []" by (auto simp: dropWhile_eq_Nil_conv)
  then have "\<not> is_space (hd (dropWhile is_space s))" "dropWhile is_space s \<noteq> []" by (simp_all add: hd_dropWhile)
  then have "\<exists>x \<in> set (dropWhile is_space s). \<not> is_space x" by (metis list.set_sel(1))
  then show ?thesis by (auto simp: strip_def lstrip_def rstrip_def dropWhile_eq_Nil_conv)
qed

section \<open>Properties\<close>

text \<open>
   Bounds of the grounding: whatever the fetchers print, the text given to the local model
  has at most 16000 characters, a text that fits is not changed, and what is cut off is
  replaced by the marker that says so.
\<close>

theorem prefetch_bounded:
  "(\<exists>txt w'. prefetch shell ms w = (Inr txt, w') \<and> length txt \<le> 16000) \<and>
   (if length t \<le> limit then truncate t limit source = t
    else if length (truncation_marker source) < limit
    then truncate t limit source = take (limit - length (truncation_marker source)) t @ truncation_marker source \<and>
      length (truncate t limit source) = limit
    else truncate t limit source = take limit (truncation_marker source))"
proof -
  have 1: "\<exists>txt w'. prefetch shell ms w = (Inr txt, w') \<and> length txt \<le> 16000"
    using prefetch_length [of shell ms w] by (simp only: MAX_PREFETCH_CHARS_def)
  have 2: "length (truncate t limit source) = limit"
    if "\<not> length t \<le> limit" "length (truncation_marker source) < limit"
    using that by (simp add: truncate_def Let_def)
  have 3: "truncate t limit source = (if length t \<le> limit then t
      else if length (truncation_marker source) < limit
      then take (limit - length (truncation_marker source)) t @ truncation_marker source
      else take limit (truncation_marker source))"
    by (simp add: truncate_def Let_def)
  from 3 2 have "if length t \<le> limit then truncate t limit source = t
    else if length (truncation_marker source) < limit
    then truncate t limit source = take (limit - length (truncation_marker source)) t @ truncation_marker source \<and>
      length (truncate t limit source) = limit
    else truncate t limit source = take limit (truncation_marker source)"
    by (simp split: if_splits)
  with 1 show ?thesis by blast
qed

text \<open>
   The grounding guard cannot fire. The text is never blank once there is a fetcher to run,
  even when every command failed, timed out or printed nothing, because the section headings
  are part of it; the local model is asked to answer from headings alone.
\<close>

theorem grounding_never_blank:
  "(case selected ms of [] \<Rightarrow> fst (prefetch shell ms w) = Inr []
    | _ \<Rightarrow> (case fst (prefetch shell ms w) of Inr txt \<Rightarrow> strip txt \<noteq> [] | Inl e \<Rightarrow> False))"
proof (cases "selected ms = []")
  case False
  from run_all_first [OF False, of shell w] obtain s ss where r: "fst (run_all shell (selected ms) w) = (''## '' @ s) # ss"
    by (elim exE) (rule that)
  let ?t = "join [newline, newline] ((''## '' @ s) # ss)"
  have j: "\<exists>u. ?t = CHR ''#'' # u" by (cases ss) auto
  obtain secs w' where rs: "run_all shell (selected ms) w = (secs, w')" by fastforce
  have secs: "secs = (''## '' @ s) # ss" using r unfolding rs fst_conv .
  have "prefetch shell ms w =
      (Inr (truncate (join [newline, newline] secs) MAX_PREFETCH_CHARS ''prefetch context''), w')"
    by (simp add: prefetch_def rs False)
  then have p: "prefetch shell ms w = (Inr (truncate ?t MAX_PREFETCH_CHARS ''prefetch context''), w')"
    unfolding secs .
  have m: "length (truncation_marker ''prefetch context'') + 1 \<le> MAX_PREFETCH_CHARS"
    by (simp add: truncation_marker_def MAX_PREFETCH_CHARS_def)
  obtain u where u: "?t = CHR ''#'' # u" using j by blast
  have "take 1 (truncate ?t MAX_PREFETCH_CHARS ''prefetch context'') = take 1 ?t"
    using m by (rule truncate_prefix) (simp only: u list.size)
  then have "take 1 (truncate ?t MAX_PREFETCH_CHARS ''prefetch context'') = [CHR ''#'']" unfolding u by simp
  then have "CHR ''#'' \<in> set (truncate ?t MAX_PREFETCH_CHARS ''prefetch context'')"
    by (metis in_set_takeD list.set_intros(1))
  then have "strip (truncate ?t MAX_PREFETCH_CHARS ''prefetch context'') \<noteq> []"
    by (rule strip_nonempty) (simp add: is_space_def code_def)
  then have "case fst (prefetch shell ms w) of Inr txt \<Rightarrow> strip txt \<noteq> [] | Inl e \<Rightarrow> False"
    unfolding p fst_conv sum.case .
  with False show ?thesis by (cases "selected ms") simp_all
qed (simp add: prefetch_def)

end
