(* ===== verification/Redact.thy ===== *)
theory Redact
  imports Host
begin

text \<open>
  \<^verbatim>\<open>redact.py\<close>: the deterministic scrub of known secret shapes and the two-pass redaction of a
  text before it leaves the device. The rewriting model is an operation on the machine.
\<close>

definition class_of :: "(char \<Rightarrow> bool) \<Rightarrow> pystr \<Rightarrow> char \<Rightarrow> bool" where
  "class_of P extra c \<longleftrightarrow> P c \<or> c \<in> set extra"

definition alnum :: "char \<Rightarrow> bool" where
  "alnum c \<longleftrightarrow> is_alpha_ascii c \<or> is_digit c"

definition hexdigit :: "char \<Rightarrow> bool" where
  "hexdigit c \<longleftrightarrow> is_digit c \<or> (65 \<le> code c \<and> code c \<le> 70) \<or> (97 \<le> code c \<and> code c \<le> 102)"

text \<open>\<^verbatim>\<open>r{n,}\<close>.\<close>

definition re_atleast :: "nat \<Rightarrow> regex \<Rightarrow> regex" where
  "re_atleast n r = Seq (re_repeat n r) (Star r)"

definition re_digits3 :: regex where
  "re_digits3 = Seq (Sym is_digit) (re_upto 2 (Sym is_digit))"

definition path_segment :: regex where
  "path_segment = re_plus (Sym (\<lambda>c. c \<noteq> CHR ''/'' \<and> \<not> is_space c))"

definition PATTERNS :: "(regex \<times> pystr) list" where
  "PATTERNS = [
     (seqs [WordB, alts [lit ''sk'', lit ''pk'', lit ''rk''], chr (CHR ''-''),
        re_atleast 16 (Sym (class_of alnum ''_-''))], ''[api-key]''),
     (seqs [WordB, lit ''gh'', Sym (\<lambda>c. c \<in> set ''pousr''), chr (CHR ''_''), re_atleast 16 (Sym alnum)], ''[token]''),
     (seqs [WordB, lit ''AKIA'', re_repeat 16 (Sym (\<lambda>c. is_digit c \<or> is_upper_ascii c)), WordB], ''[aws-key]''),
     (seqs [WordB, lit ''xox'', Sym (\<lambda>c. c \<in> set ''baprs''), chr (CHR ''-''),
        re_atleast 10 (Sym (class_of alnum ''-''))], ''[slack-token]''),
     (seqs [WordB, lit ''Bearer'', re_spaces, re_atleast 16 (Sym (class_of alnum ''._-''))], ''Bearer [token]''),
     (seqs [WordB, re_plus (Sym (class_of alnum ''._%+-'')), chr (CHR ''@''), re_plus (Sym (class_of alnum ''.-'')),
        chr (CHR ''.''), re_atleast 2 (Sym is_alpha_ascii), WordB], ''[email]''),
     (seqs [WordB, re_repeat 3 (Seq re_digits3 (chr (CHR ''.''))), re_digits3, WordB], ''[ip]''),
     (seqs [lit ''/home/'', path_segment], ''/home/[user]''),
     (seqs [lit ''/Users/'', path_segment], ''/Users/[user]''),
     (seqs [WordB, re_atleast 32 (Sym hexdigit), WordB], ''[secret]'')]"

record scrub_result =
  sc_text :: pystr
  sc_removed :: "pystr list"

fun scrub_with :: "(regex \<times> pystr) list \<Rightarrow> pystr \<Rightarrow> pystr list \<Rightarrow> scrub_result" where
  "scrub_with [] out removed = \<lparr>sc_text = out, sc_removed = removed\<rparr>"
| "scrub_with ((pattern, placeholder) # ps) out removed =
     (let (out', n) = subn pattern placeholder out
      in scrub_with ps out' (removed @ replicate n placeholder))"

definition scrub :: "pystr \<Rightarrow> scrub_result" where
  "scrub txt = scrub_with PATTERNS txt []"

record redaction =
  rd_original :: pystr
  rd_redacted :: pystr
  rd_removed :: "pystr list"

definition rd_changed :: "redaction \<Rightarrow> bool" where
  "rd_changed r \<longleftrightarrow> strip (rd_redacted r) \<noteq> strip (rd_original r)"

text \<open>Any exception of the rewriting pass, of whatever class, degrades to the scrubbed text.\<close>

definition redact :: "(pystr \<Rightarrow> ('w, pystr) act) \<Rightarrow> pystr \<Rightarrow> ('w, redaction) act" where
  "redact rewrite txt w =
     (let scrubbed = scrub txt;
          (r, w') = rewrite (sc_text scrubbed) w;
          rewritten = (case r of Inr t \<Rightarrow> t | Inl e \<Rightarrow> sc_text scrubbed)
      in (Inr \<lparr>rd_original = txt, rd_redacted = rewritten, rd_removed = sc_removed scrubbed\<rparr>, w'))"

definition scrub_only :: "pystr \<Rightarrow> redaction" where
  "scrub_only txt = (let s = scrub txt
     in \<lparr>rd_original = txt, rd_redacted = sc_text s, rd_removed = sc_removed s\<rparr>)"

section \<open>Substitution\<close>

text \<open>
  What \<^verbatim>\<open>subn\<close> does: the text is cut into parts, some of them matches of the pattern where
  they stand, and exactly those are replaced.
\<close>

inductive substitutes :: "regex \<Rightarrow> pystr \<Rightarrow> pystr \<Rightarrow> pystr \<Rightarrow> pystr \<Rightarrow> nat \<Rightarrow> bool" for r repl where
  sub_end: "substitutes r repl b [] [] 0"
| sub_keep: "substitutes r repl (c # b) s t n \<Longrightarrow> substitutes r repl b (c # s) (c # t) n"
| sub_match: "matches_rel r (b, m @ s) (rev m @ b, s) \<Longrightarrow> substitutes r repl (rev m @ b) s t n \<Longrightarrow>
     substitutes r repl b (m @ s) (repl @ t) (Suc n)"


lemma matches_rel_split:
  assumes "matches_rel r (b, a) (b', a')"
  obtains m where "a = m @ a'" "b' = rev m @ b"
  using matches_rel_advances [OF assms] by (auto simp: advances_def)

lemma subn_from_substitutes:
  "length s \<le> k \<Longrightarrow> subn_from k r repl b s = (out, n) \<Longrightarrow> substitutes r repl b s out n"
proof (induction k r repl b s arbitrary: out n rule: subn_from.induct)
  case (1 k r repl b)
  show ?case
  proof (cases "match_at r (b, [])")
    case None
    with 1 show ?thesis by (auto intro: sub_end)
  next
    case (Some q)
    obtain b' a' where q: "q = (b', a')" by fastforce
    from match_at_Some [OF Some] have m: "matches_rel r (b, []) (b', a')" unfolding q .
    then have e: "a' = []" "b' = b" by (auto elim: matches_rel_split)
    from 1 Some have "out = repl" "n = 1" by auto
    moreover have "substitutes r repl b ([] @ []) (repl @ []) (Suc 0)"
      by (rule sub_match) (use m e in \<open>auto intro: sub_end\<close>)
    ultimately show ?thesis by simp
  qed
next
  case (2 r repl b c cs)
  then show ?case by simp
next
  case (3 k r repl b c cs)
  show ?case
  proof (cases "match_at r (b, c # cs)")
    case None
    obtain o' n' where "subn_from k r repl (c # b) cs = (o', n')" by fastforce
    with 3 None show ?thesis by (auto intro!: sub_keep)
  next
    case (Some q)
    obtain b' a' where q: "q = (b', a')" by fastforce
    from match_at_Some [OF Some] have m: "matches_rel r (b, c # cs) (b', a')" unfolding q .
    obtain w where w: "c # cs = w @ a'" "b' = rev w @ b" using m by (rule matches_rel_split)
    show ?thesis
    proof (cases "length a' < length (c # cs)")
      case True
      obtain o' n' where s: "subn_from k r repl b' a' = (o', n')" by fastforce
      have "substitutes r repl b' a' o' n'"
        using 3(2) [OF Some q [symmetric] True _ s] 3(4) True by simp
      then have "substitutes r repl b (w @ a') (repl @ o') (Suc n')"
        using m w by (intro sub_match) auto
      moreover have "out = repl @ o'" "n = Suc n'" using 3(5) Some q True s by auto
      ultimately show ?thesis using w by simp
    next
      case False
      then have e: "w = []" using w(1) by (metis append_Nil length_append less_add_same_cancel2 length_greater_0_conv)
      obtain o' n' where s: "subn_from k r repl (c # b) cs = (o', n')" by fastforce
      have "substitutes r repl (c # b) cs o' n'" using 3 Some q False s by simp
      then have "substitutes r repl b ([] @ c # cs) (repl @ c # o') (Suc n')"
        using m w e by (intro sub_match) (auto intro: sub_keep)
      moreover have "out = repl @ c # o'" "n = Suc n'" using 3(5) Some q False s by auto
      ultimately show ?thesis by simp
    qed
  qed
qed


section \<open>Properties\<close>

lemma scrub_with_removed:
  "set (sc_removed (scrub_with ps out removed)) \<subseteq> set removed \<union> snd ` set ps"
  by (induction ps out removed rule: scrub_with.induct) (fastforce simp: Let_def split: prod.splits)+

text \<open>The text after each pattern, from one to the next.\<close>

fun scrub_chain :: "(regex \<times> pystr) list \<Rightarrow> pystr \<Rightarrow> pystr \<Rightarrow> pystr list \<Rightarrow> bool" where
  "scrub_chain [] txt out removed \<longleftrightarrow> out = txt \<and> removed = []"
| "scrub_chain ((r, repl) # ps) txt out removed \<longleftrightarrow>
     (\<exists>mid n rest. substitutes r repl [] txt mid n \<and> removed = replicate n repl @ rest \<and> scrub_chain ps mid out rest)"

lemma scrub_with_chain:
  "\<exists>rest. sc_removed (scrub_with ps t removed) = removed @ rest \<and>
     scrub_chain ps t (sc_text (scrub_with ps t removed)) rest"
proof (induction ps arbitrary: t removed)
  case (Cons p ps)
  obtain r repl where p: "p = (r, repl)" by fastforce
  obtain mid n where s: "subn r repl t = (mid, n)" by fastforce
  have sub: "substitutes r repl [] t mid n"
    using subn_from_substitutes [OF le_refl s [unfolded subn_def]] .
  from Cons [of mid "removed @ replicate n repl"] obtain rest where
    "sc_removed (scrub_with ps mid (removed @ replicate n repl)) = removed @ replicate n repl @ rest"
    "scrub_chain ps mid (sc_text (scrub_with ps mid (removed @ replicate n repl))) rest" by auto
  with sub show ?case
    by (intro exI [of _ "replicate n repl @ rest"]) (auto simp: p s)
qed simp

text \<open>
   The scrub is a chain of substitutions, one per pattern in order: in each, the text is
  cut into characters that are kept and parts that match the pattern where they stand, and
  exactly those parts are replaced by the placeholder, which is listed once per replacement.
\<close>

theorem scrub_replaces_matches:
  "scrub_chain PATTERNS txt (sc_text (scrub txt)) (sc_removed (scrub txt))"
  using scrub_with_chain [of PATTERNS "txt" "[]"] by (simp add: scrub_def)



end
