(* ===== verification/Package_Editor.thy ===== *)
theory Package_Editor
  imports Remediation
begin

text \<open>
  The pure half of \<^verbatim>\<open>actions.py\<close>: recognising an app request (\<^verbatim>\<open>parse_action\<close>) and editing the
  \<^verbatim>\<open>home.packages\<close> list of a Nix file (\<^verbatim>\<open>edit_packages\<close>). The editor works on the lines of the
  file with their terminators; the lemmas on lines show when taking a text apart and putting
  it together again gives it back.
\<close>

section \<open>Recognising an action\<close>

datatype action_kind = Install_app | Remove_app | Toggle

fun kind_name :: "action_kind \<Rightarrow> pystr" where
  "kind_name Install_app = ''install_app''"
| "kind_name Remove_app = ''remove_app''"
| "kind_name Toggle = ''toggle''"

record app_action =
  act_kind :: action_kind
  act_target :: pystr

definition mk_action :: "action_kind \<Rightarrow> pystr \<Rightarrow> app_action" where
  "mk_action k t = \<lparr>act_kind = k, act_target = t\<rparr>"

definition verb_then_the :: "pystr list \<Rightarrow> regex" where
  "verb_then_the verbs = seqs [WordB, words_i verbs, WordB, re_spaces, re_opt (Seq (lit_i ''the'') re_spaces)]"

definition INSTALL_RE :: regex where
  "INSTALL_RE = verb_then_the [''install'', ''add'']"

definition REMOVE_RE :: regex where
  "REMOVE_RE = verb_then_the [''uninstall'', ''remove'', ''delete'']"

definition TOGGLE_RE :: regex where
  "TOGGLE_RE = seqs [WordB, alts [lit_i ''enable'', lit_i ''disable'',
     seqs [lit_i ''turn'', re_spaces, words_i [''on'', ''off'']]], WordB]"

definition ACTION_FILLER_RE :: regex where
  "ACTION_FILLER_RE = seqs [WordB, alts (map lit [''the'', ''a'', ''an'', ''app'', ''application'',
     ''package'', ''program'', ''please'', ''for me'']), WordB]"

definition normalize_target :: "pystr \<Rightarrow> pystr" where
  "normalize_target phrase =
     (let s = lower (rstrip_chars ''?.!'' (strip phrase));
          s = re_sub ACTION_FILLER_RE '' '' s
      in strip (re_sub re_spaces '' '' s))"

definition parse_action :: "pystr \<Rightarrow> app_action option" where
  "parse_action txt =
     (case search_group INSTALL_RE (re_plus re_dot) txt of
        Some g \<Rightarrow> Some (mk_action Install_app (normalize_target g))
      | None \<Rightarrow>
          (case search_group REMOVE_RE (re_plus re_dot) txt of
             Some g \<Rightarrow> Some (mk_action Remove_app (normalize_target g))
           | None \<Rightarrow> if re_search TOGGLE_RE txt then Some (mk_action Toggle (strip txt)) else None))"

section \<open>The editor\<close>

definition LIST_START_RE :: regex where
  "LIST_START_RE = seqs [lit ''home.packages'', Star re_space, chr (CHR ''=''), Star re_dot, chr (CHR ''['')]"

definition LIST_END_RE :: regex where
  "LIST_END_RE = seqs [Bol, Star re_space, lit ''];'']"

fun find_line :: "regex \<Rightarrow> pystr list \<Rightarrow> nat option" where
  "find_line pat [] = None"
| "find_line pat (l # ls) = (if re_search pat l then Some 0 else map_option Suc (find_line pat ls))"

definition leading_space :: "pystr \<Rightarrow> pystr" where
  "leading_space l = take (length l - length (lstrip l)) l"

definition line_terminator :: "pystr list \<Rightarrow> pystr" where
  "line_terminator ls =
     (if list_ex (endswith [carriage_return, newline]) ls then [carriage_return, newline] else [newline])"

definition entry_indent :: "pystr list \<Rightarrow> pystr \<Rightarrow> pystr" where
  "entry_indent body closing =
     (case filter (\<lambda>l. strip l \<noteq> []) body of
        l # _ \<Rightarrow> leading_space l
      | [] \<Rightarrow> leading_space closing @ ''  '')"

text \<open>
  The lines up to the opening one, the lines of the list, and the lines from the closing one
  on; \<open>start\<close> and \<open>end\<close> of the code are the borders.
\<close>

definition locate_list :: "pystr list \<Rightarrow> exn + pystr list \<times> pystr list \<times> pystr list" where
  "locate_list ls =
     (case find_line LIST_START_RE ls of
        None \<Rightarrow> Inl (NixadminError ''couldn't locate the home.packages list to edit'')
      | Some start \<Rightarrow>
          (case find_line LIST_END_RE (drop (Suc start) ls) of
             None \<Rightarrow> Inl (NixadminError ''couldn't find the end of the home.packages list'')
           | Some n \<Rightarrow> Inr (take (Suc start) ls, take n (drop (Suc start) ls), drop (Suc start + n) ls)))"

definition edit_packages :: "pystr \<Rightarrow> pystr \<Rightarrow> bool \<Rightarrow> exn + pystr" where
  "edit_packages txt pkg add =
     (let ls = splitlines_keep txt in
      case locate_list ls of
        Inl e \<Rightarrow> Inl e
      | Inr (before, body, rest) \<Rightarrow>
          (let present = list_ex (\<lambda>l. strip l = pkg) body in
           if add then
             (if present then Inr txt
              else Inr (concat (before @ body
                     @ [entry_indent body (hd rest) @ pkg @ line_terminator ls] @ rest)))
           else if \<not> present then Inl (NixadminError (pkg @ '' is not in the package list''))
           else Inr (concat (before @ filter (\<lambda>l. strip l \<noteq> pkg) body @ rest))))"

section \<open>Lines\<close>

text \<open>A complete line: no break but its terminator.\<close>

definition unbroken :: "pystr \<Rightarrow> bool" where
  "unbroken s \<longleftrightarrow> list_all (\<lambda>c. \<not> is_line_break c) s"

definition terminated :: "pystr \<Rightarrow> bool" where
  "terminated l \<longleftrightarrow> (\<exists>b t. l = b @ t \<and> unbroken b \<and>
     (t = [carriage_return, newline] \<or> (\<exists>c. t = [c] \<and> is_line_break c)))"

text \<open>The lines of a text: all complete but perhaps the last, and no pair of terminators torn apart.\<close>

fun lines_ok :: "pystr list \<Rightarrow> bool" where
  "lines_ok [] = True"
| "lines_ok [l] = (terminated l \<or> (unbroken l \<and> l \<noteq> []))"
| "lines_ok (l # m # ls) =
     (terminated l \<and> \<not> (last l = carriage_return \<and> hd m = newline) \<and> lines_ok (m # ls))"

lemma break_char_simps [simp]:
  "is_line_break newline" "is_line_break carriage_return" "carriage_return \<noteq> newline"
  by (simp_all add: is_line_break_def code_def Let_def)

lemma is_space_break: "is_line_break c \<Longrightarrow> is_space c"
  by (auto simp: is_line_break_def is_space_def Let_def)

lemma unbroken_simps [simp]:
  "unbroken []" "unbroken (c # s) \<longleftrightarrow> \<not> is_line_break c \<and> unbroken s"
  "unbroken (s @ t) \<longleftrightarrow> unbroken s \<and> unbroken t" "unbroken (rev s) \<longleftrightarrow> unbroken s"
  by (auto simp: unbroken_def list_all_iff)

lemma terminated_nonempty: "terminated l \<Longrightarrow> l \<noteq> []"
  by (auto simp: terminated_def)

lemma lines_ok_nonempty: "lines_ok ls \<Longrightarrow> [] \<notin> set ls"
  by (induction ls rule: lines_ok.induct) (auto dest: terminated_nonempty)

lemma concat_split_lines_acc: "concat (split_lines_acc acc s) = rev acc @ s"
  by (induction acc s rule: split_lines_acc.induct) (auto split: list.split)

lemma concat_splitlines_keep [simp]: "concat (splitlines_keep s) = s"
  by (simp add: splitlines_keep_def concat_split_lines_acc)

lemma split_lines_acc_unbroken:
  "unbroken b \<Longrightarrow> split_lines_acc acc (b @ s) = split_lines_acc (rev b @ acc) s"
proof (induction b arbitrary: acc)
  case (Cons c b)
  then have "c \<noteq> carriage_return" by auto
  with Cons show ?case by simp
qed simp

lemma split_lines_acc_line:
  assumes "terminated l" and "\<not> (last l = carriage_return \<and> s \<noteq> [] \<and> hd s = newline)"
  shows "split_lines_acc [] (l @ s) = l # split_lines_acc [] s"
proof -
  from assms(1) obtain b t where l: "l = b @ t" "unbroken b"
    and t: "t = [carriage_return, newline] \<or> (\<exists>c. t = [c] \<and> is_line_break c)"
    by (auto simp: terminated_def)
  have "split_lines_acc [] (l @ s) = split_lines_acc (rev b) (t @ s)"
    using l split_lines_acc_unbroken [of b "[]" "t @ s"] by simp
  moreover have "split_lines_acc (rev b) (t @ s) = (b @ t) # split_lines_acc [] s"
  proof -
    consider "t = [carriage_return, newline]" | c where "t = [c]" "is_line_break c" "c \<noteq> carriage_return"
      | "t = [carriage_return]" using t by auto
    then show ?thesis
    proof cases
      case 3
      with l(1) assms(2) have "s = [] \<or> hd s \<noteq> newline" by simp
      with 3 show ?thesis by (cases s) simp_all
    qed simp_all
  qed
  ultimately show ?thesis using l(1) by simp
qed

lemma terminated_snoc:
  "unbroken b \<Longrightarrow> is_line_break c \<Longrightarrow> terminated (b @ [c])"
  "unbroken b \<Longrightarrow> terminated (b @ [carriage_return, newline])"
  by (auto simp: terminated_def)

lemma lines_ok_Cons:
  "terminated l \<Longrightarrow> lines_ok ls \<Longrightarrow> \<not> (last l = carriage_return \<and> ls \<noteq> [] \<and> hd (hd ls) = newline) \<Longrightarrow>
   lines_ok (l # ls)"
  by (cases ls) auto

lemma hd_split_lines:
  "split_lines_acc [] s \<noteq> [] \<Longrightarrow> lines_ok (split_lines_acc [] s) \<Longrightarrow> hd (hd (split_lines_acc [] s)) = hd s"
  using concat_split_lines_acc [of "[]" s] lines_ok_nonempty [of "split_lines_acc [] s"]
  by (cases "split_lines_acc [] s") (auto simp: neq_Nil_conv)

lemma split_lines_acc_Nil: "split_lines_acc [] s \<noteq> [] \<longleftrightarrow> s \<noteq> []"
  using concat_split_lines_acc [of "[]" s] by (cases s) auto

lemma lines_ok_split_lines_acc: "unbroken acc \<Longrightarrow> lines_ok (split_lines_acc acc s)"
proof (induction acc s rule: split_lines_acc.induct)
  case (1 acc)
  then show ?case by simp
next
  case (2 acc c cs)
  consider (pair) ds where "c = carriage_return" "cs = newline # ds"
    | (cr) "c = carriage_return" "cs = [] \<or> hd cs \<noteq> newline"
    | (brk) "c \<noteq> carriage_return" "is_line_break c"
    | (ordinary) "\<not> is_line_break c"
    by (cases cs; cases "c = carriage_return"; cases "is_line_break c"; auto)
  then show ?case
  proof cases
    case pair
    then have "lines_ok (split_lines_acc [] ds)" using "2.IH"(1) by simp
    then show ?thesis using pair "2.prems" terminated_snoc(2) [of "rev acc"]
      by (auto intro!: lines_ok_Cons)
  next
    case cr
    show ?thesis
    proof (cases cs)
      case Nil
      then show ?thesis using cr "2.prems" terminated_snoc(1) [of "rev acc" c] by simp
    next
      case (Cons d ds)
      with cr have "d \<noteq> newline" by simp
      with Cons cr have "lines_ok (split_lines_acc [] cs)" using "2.IH"(2) by simp
      moreover from Cons cr \<open>d \<noteq> newline\<close>
      have "split_lines_acc acc (c # cs) = (rev acc @ [c]) # split_lines_acc [] cs" by simp
      moreover have "hd (hd (split_lines_acc [] cs)) \<noteq> newline"
        using hd_split_lines [of cs] split_lines_acc_Nil [of cs] Cons \<open>d \<noteq> newline\<close> calculation(1)
        by (metis list.distinct(1) list.sel(1))
      moreover have "terminated (rev acc @ [c])"
        using "2.prems" cr(1) terminated_snoc(1) [of "rev acc" c] by simp
      ultimately show ?thesis by (metis lines_ok_Cons)
    qed
 next
    case brk
    then have "lines_ok (split_lines_acc [] cs)" using "2.IH"(3) by simp
    then show ?thesis using brk "2.prems" terminated_snoc(1) [of "rev acc" c]
      by (auto intro!: lines_ok_Cons)
  next
    case ordinary
    then have "c \<noteq> carriage_return" by auto
    with ordinary "2.prems" show ?thesis using "2.IH"(4) by simp
  qed
qed

lemma lines_ok_splitlines_keep: "lines_ok (splitlines_keep s)"
  by (simp add: splitlines_keep_def lines_ok_split_lines_acc)

lemma splitlines_keep_concat: "lines_ok ls \<Longrightarrow> splitlines_keep (concat ls) = ls"
proof (induction ls rule: lines_ok.induct)
  case 1
  then show ?case by (simp add: splitlines_keep_def)
next
  case (2 l)
  then show ?case
    using split_lines_acc_unbroken [of l "[]" "[]"] split_lines_acc_line [of l "[]"]
    by (auto simp: splitlines_keep_def)
next
  case (3 l m ls)
  then have "m \<noteq> []" using lines_ok_nonempty [of "m # ls"] by auto
  then have "hd (m @ concat ls) = hd m" by simp
  with 3 show ?case
    using split_lines_acc_line [of l "concat (m # ls)"] by (simp add: splitlines_keep_def)
qed

section \<open>The inserted line\<close>

lemma leading_space_eq: "leading_space l = takeWhile is_space l"
proof -
  have "l = takeWhile is_space l @ lstrip l" by (simp add: lstrip_def)
  then have "take (length l - length (lstrip l)) l = takeWhile is_space l"
    by (metis append_eq_conv_conj diff_add_inverse2 length_append)
  then show ?thesis by (simp add: leading_space_def)
qed

lemma lstrip_nonempty_iff: "lstrip l \<noteq> [] \<longleftrightarrow> (\<exists>c \<in> set l. \<not> is_space c)"
  by (auto simp: lstrip_def dropWhile_eq_Nil_conv)

lemma strip_nonempty_lstrip: "strip l \<noteq> [] \<Longrightarrow> lstrip l \<noteq> []"
  by (auto simp: strip_def rstrip_def)

text \<open>The indentation of a complete line with something on it has no break in it.\<close>

lemma unbroken_leading_space:
  assumes "terminated l \<or> unbroken l" and "lstrip l \<noteq> []"
  shows "unbroken (leading_space l)"
proof (cases "unbroken l")
  case True
  then show ?thesis by (auto simp: leading_space_eq unbroken_def list_all_iff dest: set_takeWhileD)
next
  case False
  with assms(1) obtain b t where l: "l = b @ t" "unbroken b" and t: "\<forall>c \<in> set t. is_line_break c"
    by (auto simp: terminated_def)
  with assms(2) obtain c where "c \<in> set b" "\<not> is_space c"
    by (auto simp: lstrip_nonempty_iff is_space_break)
  then have "takeWhile is_space (b @ t) = takeWhile is_space b" by (simp add: takeWhile_append1)
  with l show ?thesis by (auto simp: leading_space_eq unbroken_def list_all_iff dest: set_takeWhileD)
qed

lemma strip_fixed_ends:
  assumes "strip p = p" "p \<noteq> []"
  shows "\<not> is_space (hd p)" "\<not> is_space (last p)"
proof -
  have "length (rstrip (lstrip p)) \<le> length (lstrip p)" "length (lstrip p) \<le> length p"
    by (auto simp: rstrip_def lstrip_def intro: length_dropWhile_le order_trans [OF length_dropWhile_le])
  with assms(1) have "length (lstrip p) = length p" by (simp add: strip_def)
  moreover have "p = takeWhile is_space p @ lstrip p" by (simp add: lstrip_def)
  ultimately have "lstrip p = p" by (metis append_eq_append_conv self_append_conv2)
  then show "\<not> is_space (hd p)" using assms(2) lstrip_no_space [of p] by (cases p) auto
  from \<open>lstrip p = p\<close> assms(1) have "rstrip p = p" by (simp add: strip_def)
  then have "dropWhile is_space (rev p) = rev p" by (simp add: rstrip_def rev_swap)
  then show "\<not> is_space (last p)" using assms(2)
    by (cases "rev p") (auto simp: last_rev dest: dropWhile_eq_Cons_conv [THEN iffD1] split: if_splits
        simp flip: hd_rev)
qed

lemma strip_pad:
  assumes "list_all is_space u" "list_all is_space v" "strip p = p" "p \<noteq> []"
  shows "strip (u @ p @ v) = p"
proof -
  have e: "\<not> is_space (hd p)" "\<not> is_space (last p)" using strip_fixed_ends assms(3,4) by auto
  have "lstrip (u @ p @ v) = p @ v"
    using assms(1,4) e(1) by (cases p) (auto simp: lstrip_def list_all_iff)
  moreover have "dropWhile is_space (rev v @ rev p) = rev p"
  proof -
    have "dropWhile is_space (rev v @ rev p) = dropWhile is_space (rev p)"
      using assms(2) by (intro dropWhile_append2) (auto simp: list_all_iff)
    also have "\<dots> = rev p" using assms(4) e(2) by (cases p rule: rev_cases) auto
    finally show ?thesis .
  qed
  then have "rstrip (p @ v) = p" by (simp add: rstrip_def)
  ultimately show ?thesis by (simp add: strip_def)
qed

lemma re_search_LIST_END: "re_search LIST_END_RE l \<longleftrightarrow> startswith ''];'' (lstrip l)"
proof -
  have "re_search LIST_END_RE l \<longleftrightarrow> (\<exists>u v. l = u @ ''];'' @ v \<and> list_all is_space u)"
    by (fastforce simp: re_search_iff LIST_END_RE_def rel_Seq_iff rel_Bol_iff re_space_def
        matches_rel_Star_Sym matches_rel_lit simp del: lit.simps)
  also have "\<dots> \<longleftrightarrow> startswith ''];'' (lstrip l)"
  proof
    assume "\<exists>u v. l = u @ ''];'' @ v \<and> list_all is_space u"
    then obtain u v where l: "l = u @ ''];'' @ v" "list_all is_space u" by blast
    moreover have "\<not> is_space (CHR '']'')" by (simp add: is_space_def code_def Let_def)
    ultimately have "lstrip l = ''];'' @ v" by (simp add: lstrip_def list_all_iff)
    then show "startswith ''];'' (lstrip l)" by (auto simp: startswith_iff)
  next
    assume "startswith ''];'' (lstrip l)"
    then obtain v where "lstrip l = ''];'' @ v" by (auto simp: startswith_iff)
    moreover have "l = takeWhile is_space l @ lstrip l" by (simp add: lstrip_def)
    moreover have "list_all is_space (takeWhile is_space l)"
      by (auto simp: list_all_iff dest: set_takeWhileD)
    ultimately show "\<exists>u v. l = u @ ''];'' @ v \<and> list_all is_space u" by metis
  qed
  finally show ?thesis .
qed

section \<open>Locating the list\<close>

lemma find_line_Some:
  "find_line pat ls = Some n \<longleftrightarrow>
     n < length ls \<and> re_search pat (ls ! n) \<and> (\<forall>i < n. \<not> re_search pat (ls ! i))"
proof (induction ls arbitrary: n)
  case (Cons l ls)
  show ?case
    by (cases n) (auto simp: Cons nth_Cons split: nat.splits)
qed simp

lemma locate_list_Inr:
  "locate_list ls = Inr (before, body, rest) \<longleftrightarrow>
     ls = before @ body @ rest \<and> before \<noteq> [] \<and> rest \<noteq> [] \<and>
     find_line LIST_START_RE before = Some (length before - 1) \<and>
     \<not> list_ex (re_search LIST_END_RE) body \<and> re_search LIST_END_RE (hd rest)"
  (is "?L \<longleftrightarrow> ?R")
proof
  assume ?L
  then obtain start n where st: "find_line LIST_START_RE ls = Some start"
    and n: "find_line LIST_END_RE (drop (Suc start) ls) = Some n"
    and parts: "before = take (Suc start) ls" "body = take n (drop (Suc start) ls)"
      "rest = drop (Suc start + n) ls"
    by (auto simp: locate_list_def split: option.splits)
  from st n have "start < length ls" "n < length (drop (Suc start) ls)"
    by (auto simp: find_line_Some)
  moreover have "ls = take (Suc start) ls @ take n (drop (Suc start) ls) @ drop n (drop (Suc start) ls)"
    by (simp only: append_take_drop_id)
  ultimately show ?R using st n parts
    by (auto simp: find_line_Some list_ex_iff in_set_conv_nth hd_drop_conv_nth add.commute)
next
  assume R: ?R
  then have st: "find_line LIST_START_RE ls = Some (length before - 1)"
    by (auto simp: find_line_Some nth_append)
  from R have "find_line LIST_END_RE (body @ rest) = Some (length body)"
    by (auto simp: find_line_Some nth_append list_ex_iff hd_conv_nth)
  with st R show ?L by (auto simp: locate_list_def)
qed

lemma lines_ok_insert:
  assumes "lines_ok (as @ bs)" "bs \<noteq> []" "terminated x" "last x = newline" "hd x \<noteq> newline"
  shows "lines_ok (as @ x # bs)"
  using assms(1)
proof (induction as)
  case Nil
  with assms show ?case by (cases bs) auto
next
  case (Cons a as)
  from Cons.prems assms(2) have "terminated a" "lines_ok (as @ bs)"
    by (cases "as @ bs"; auto)+
  with Cons assms(2,5) show ?case
    by (cases as) (auto intro!: lines_ok_Cons)
qed

lemma space_line_terminator: "list_all is_space (line_terminator ls)"
  by (auto simp: line_terminator_def is_space_break)

lemma unbroken_entry_indent:
  assumes "lines_ok ls" "ls = before @ body @ c # rest" "re_search LIST_END_RE c"
  shows "unbroken (entry_indent body c)" "list_all is_space (entry_indent body c)"
proof -
  have line: "terminated l \<or> unbroken l" if "l \<in> set ls" for l
    using assms(1) that by (induction ls rule: lines_ok.induct) auto
  from assms(3) have c: "lstrip c \<noteq> []" by (auto simp: re_search_LIST_END startswith_iff)
  have space: "list_all is_space (leading_space l)" for l
    by (auto simp: leading_space_eq list_all_iff dest: set_takeWhileD)
  have two: "\<not> is_line_break (CHR '' '')" "is_space (CHR '' '')"
    by (simp_all add: is_line_break_def is_space_def code_def Let_def)
  have "unbroken (entry_indent body c) \<and> list_all is_space (entry_indent body c)"
  proof (cases "filter (\<lambda>l. strip l \<noteq> []) body")
    case Nil
    then show ?thesis
      using unbroken_leading_space [OF line c] assms(2) space two by (simp add: entry_indent_def)
  next
    case (Cons l ls')
    then have "l \<in> set (filter (\<lambda>l. strip l \<noteq> []) body)" by simp
    then have "l \<in> set body" "strip l \<noteq> []" by auto
    then show ?thesis
      using unbroken_leading_space [OF line [of l] strip_nonempty_lstrip] assms(2) space Cons
      by (simp add: entry_indent_def)
  qed
  then show "unbroken (entry_indent body c)" "list_all is_space (entry_indent body c)" by auto
qed

text \<open>What an accepted name is: one line, no space around it, and not the end of the list.\<close>

definition plain_name :: "pystr \<Rightarrow> bool" where
  "plain_name pkg \<longleftrightarrow> pkg \<noteq> [] \<and> unbroken pkg \<and> strip pkg = pkg \<and> \<not> startswith ''];'' pkg"

lemma inserted_line:
  assumes "plain_name pkg" "unbroken ind" "list_all is_space ind" "nl = line_terminator ls"
  shows "terminated (ind @ pkg @ nl)" "last (ind @ pkg @ nl) = newline" "hd (ind @ pkg @ nl) \<noteq> newline"
    "strip (ind @ pkg @ nl) = pkg" "\<not> re_search LIST_END_RE (ind @ pkg @ nl)"
proof -
  have nl: "nl = [carriage_return, newline] \<or> nl = [newline]" using assms(4) by (simp add: line_terminator_def)
  have pkg: "pkg \<noteq> []" "unbroken pkg" "strip pkg = pkg" "\<not> startswith ''];'' pkg"
    using assms(1) by (auto simp: plain_name_def)
  have "terminated ((ind @ pkg) @ nl)"
    using nl assms(2) pkg(2) terminated_snoc(1) [of "ind @ pkg" newline] terminated_snoc(2) [of "ind @ pkg"]
    by auto
  then show "terminated (ind @ pkg @ nl)" by simp
  show "last (ind @ pkg @ nl) = newline" using nl by auto
  show "hd (ind @ pkg @ nl) \<noteq> newline"
    using assms(2) pkg(1,2) by (cases ind; cases pkg; auto)
  have sp: "list_all is_space nl" using assms(4) space_line_terminator by simp
  show "strip (ind @ pkg @ nl) = pkg" using strip_pad [OF assms(3) sp pkg(3,1)] .
  have hd: "\<not> is_space (hd pkg)" using strip_fixed_ends pkg by auto
  then have "lstrip (ind @ pkg @ nl) = pkg @ nl"
    using assms(3) pkg(1) by (cases pkg) (auto simp: lstrip_def list_all_iff)
  moreover have "\<not> startswith ''];'' (pkg @ nl)"
    using pkg(1,4) nl by (cases pkg; cases "tl pkg") (auto simp: startswith_def)
  ultimately show "\<not> re_search LIST_END_RE (ind @ pkg @ nl)" by (simp add: re_search_LIST_END)
qed

text \<open>An addition that changes the file, as an insertion into its lines.\<close>

lemma edit_add_lines:
  assumes "edit_packages txt pkg True = Inr t" "t \<noteq> txt" "plain_name pkg"
  obtains "before" body rest x where
    "splitlines_keep txt = before @ body @ rest" "splitlines_keep t = before @ (body @ [x]) @ rest"
    "locate_list (splitlines_keep txt) = Inr (before, body, rest)"
    "locate_list (splitlines_keep t) = Inr (before, body @ [x], rest)"
    "strip x = pkg" "\<not> list_ex (\<lambda>l. strip l = pkg) body"
proof -
  let ?ls = "splitlines_keep txt"
  obtain "before" body rest where loc: "locate_list ?ls = Inr (before, body, rest)"
    and new: "\<not> list_ex (\<lambda>l. strip l = pkg) body"
    and t: "t = concat (before @ body @ [entry_indent body (hd rest) @ pkg @ line_terminator ?ls] @ rest)"
    using assms(1,2) by (auto simp: edit_packages_def Let_def split: sum.splits if_splits)
  define x where "x = entry_indent body (hd rest) @ pkg @ line_terminator ?ls"
  from loc have ls: "?ls = before @ body @ rest" "before \<noteq> []" "rest \<noteq> []"
    "re_search LIST_END_RE (hd rest)" by (auto simp: locate_list_Inr)
  then obtain c rest' where rest: "rest = c # rest'" by (cases rest) auto
  have ind: "unbroken (entry_indent body (hd rest))" "list_all is_space (entry_indent body (hd rest))"
    using unbroken_entry_indent [OF lines_ok_splitlines_keep, of "txt" "before" body c rest'] ls rest by auto
  note xs = inserted_line [OF assms(3) ind refl, where ls = "splitlines_keep txt", folded x_def]
  have "lines_ok ((before @ body) @ x # rest)"
    by (rule lines_ok_insert) (use xs ls lines_ok_splitlines_keep [of "txt"] in auto)
  with t have lt: "splitlines_keep t = before @ (body @ [x]) @ rest"
    using splitlines_keep_concat [of "before @ body @ x # rest"] by (simp add: x_def)
  moreover have "locate_list (splitlines_keep t) = Inr (before, body @ [x], rest)"
    using loc lt xs(5) by (auto simp: locate_list_Inr)
  ultimately show ?thesis using that ls(1) loc xs(4) new by blast
qed

section \<open>Properties\<close>

text \<open>
  C25: Installing and removing are inverse. When adding a package name changed the file, removing
  it gives the old file back, character for character, and adding it again changes nothing.
\<close>

theorem edit_roundtrip:
  assumes "edit_packages txt pkg True = Inr t" "t \<noteq> txt" "plain_name pkg"
  shows "edit_packages t pkg False = Inr txt \<and> edit_packages t pkg True = Inr t"
proof -
  from assms obtain "before" body rest x where
    ls: "splitlines_keep txt = before @ body @ rest" "splitlines_keep t = before @ (body @ [x]) @ rest"
    and loc: "locate_list (splitlines_keep t) = Inr (before, body @ [x], rest)"
    and x: "strip x = pkg" "\<not> list_ex (\<lambda>l. strip l = pkg) body"
    by (rule edit_add_lines)
  have "filter (\<lambda>l. strip l \<noteq> pkg) body = body"
    using x(2) by (auto simp: list_ex_iff filter_id_conv)
  then have "edit_packages t pkg False = Inr (concat (splitlines_keep txt))"
    using loc x ls by (simp add: edit_packages_def Let_def)
  moreover have "edit_packages t pkg True = Inr t"
    using loc x by (simp add: edit_packages_def Let_def)
  ultimately show ?thesis by simp
qed

definition sample_home :: pystr where
  "sample_home = ''{ home.packages = with pkgs; ['' @ [newline] @ ''    git'' @ [newline] @ ''  ];'' @ [newline] @ ''}'' @ [newline]"

definition sample_edited :: pystr where
  "sample_edited = ''{ home.packages = with pkgs; ['' @ [newline] @ ''    git'' @ [newline] @ ''    htop'' @ [newline]
     @ ''  ];'' @ [newline] @ ''}'' @ [newline]"

lemma edit_roundtrip_witness:
  "edit_packages sample_home ''htop'' True = Inr sample_edited \<and>
   edit_packages sample_edited ''htop'' False = Inr sample_home"
proof -
  have e: "edit_packages sample_home ''htop'' True = Inr sample_edited" by code_simp
  have "sample_edited \<noteq> sample_home" "plain_name ''htop''" by code_simp+
  with edit_roundtrip [OF e] e show ?thesis by blast
qed

text \<open>
  A list written on one line is not edited: the name goes into the next list that ends on a
  line of its own.
\<close>

lemma single_line_list_edits_another:
  "edit_packages (''home.packages = [ git ];'' @ [newline] @ ''fonts = ['' @ [newline] @ ''  dejavu'' @ [newline]
     @ ''];'' @ [newline]) ''htop'' True =
   Inr (''home.packages = [ git ];'' @ [newline] @ ''fonts = ['' @ [newline] @ ''  dejavu'' @ [newline]
     @ ''htop'' @ [newline] @ ''];'' @ [newline])"
  by code_simp

end
