(* ===== verification/Py_Difflib.thy ===== *)
theory Py_Difflib
  imports Host "HOL-Library.Char_ord" "HOL-Library.List_Lexorder"
begin

text \<open>
  \<^verbatim>\<open>difflib.get_close_matches\<close> of the standard library, which \<^verbatim>\<open>actions.fuzzy_candidates\<close> rests
  on: the longest matching block of two sequences with its tie breaking and the heuristic for
  popular elements, the recursion to the left and right of it, the similarity ratio and the
  selection of the best. The two quick upper bounds on the ratio that the library tests
  first do not change the result and are left out.
\<close>

section \<open>The longest matching block\<close>

text \<open>
  One element of the first sequence against the second: the length of the common block that
  ends at each position, from the lengths for the element before.
\<close>

definition block_row :: "char set \<Rightarrow> char \<Rightarrow> pystr \<Rightarrow> nat list \<Rightarrow> nat list" where
  "block_row popular x b prev =
     map2 (\<lambda>y k. if y = x \<and> y \<notin> popular then Suc k else 0) b (0 # prev)"

fun best_in_row :: "nat \<Rightarrow> nat \<Rightarrow> nat list \<Rightarrow> nat \<times> nat \<times> nat \<Rightarrow> nat \<times> nat \<times> nat" where
  "best_in_row i j [] best = best"
| "best_in_row i j (k # ks) best =
     best_in_row i (Suc j) ks (if snd (snd best) < k then (Suc i - k, Suc j - k, k) else best)"

fun best_block :: "char set \<Rightarrow> nat \<Rightarrow> pystr \<Rightarrow> pystr \<Rightarrow> nat list \<Rightarrow> nat \<times> nat \<times> nat \<Rightarrow> nat \<times> nat \<times> nat" where
  "best_block popular i [] b prev best = best"
| "best_block popular i (x # xs) b prev best =
     (let row = block_row popular x b prev
      in best_block popular (Suc i) xs b row (best_in_row i 0 row best))"

text \<open>The block found is extended over popular elements on both sides.\<close>

fun extend_left :: "pystr \<Rightarrow> pystr \<Rightarrow> nat \<Rightarrow> nat \<Rightarrow> nat \<Rightarrow> nat \<times> nat \<times> nat" where
  "extend_left a b (Suc i) (Suc j) k =
     (if a ! i = b ! j then extend_left a b i j (Suc k) else (Suc i, Suc j, k))"
| "extend_left a b i j k = (i, j, k)"

fun common_prefix :: "pystr \<Rightarrow> pystr \<Rightarrow> nat" where
  "common_prefix (x # xs) (y # ys) = (if x = y then Suc (common_prefix xs ys) else 0)"
| "common_prefix xs ys = 0"

definition longest_match :: "char set \<Rightarrow> pystr \<Rightarrow> pystr \<Rightarrow> nat \<times> nat \<times> nat" where
  "longest_match popular a b =
     (case best_block popular 0 a b (replicate (length b) 0) (0, 0, 0) of
        (i0, j0, k0) \<Rightarrow>
          (case extend_left a b i0 j0 k0 of
             (i, j, k) \<Rightarrow> (i, j, k + common_prefix (drop (i + k) a) (drop (j + k) b))))"

section \<open>Its bounds\<close>

lemma block_row_bound:
  assumes "list_all (\<lambda>k. k \<le> i) prev" "\<forall>j < length prev. prev ! j \<le> Suc j" "length prev = length b"
  shows "list_all (\<lambda>k. k \<le> Suc i) (block_row popular x b prev) \<and>
         (\<forall>j < length b. block_row popular x b prev ! j \<le> Suc j) \<and>
         length (block_row popular x b prev) = length b"
proof -
  have nth: "j < length b \<Longrightarrow> block_row popular x b prev ! j \<le> Suc ((0 # prev) ! j)" for j
    using assms(3) by (simp add: block_row_def)
  have "j < length b \<Longrightarrow> (0 # prev) ! j \<le> j \<and> (0 # prev) ! j \<le> i" for j
    using assms by (cases j) (auto simp: list_all_length)
  then have "j < length b \<Longrightarrow> block_row popular x b prev ! j \<le> Suc j \<and> block_row popular x b prev ! j \<le> Suc i" for j
    using nth [of j] by (meson Suc_le_mono order_trans)
  then show ?thesis using assms(3) by (auto simp: list_all_length block_row_def)
qed

definition fits :: "nat \<Rightarrow> nat \<Rightarrow> nat \<times> nat \<times> nat \<Rightarrow> bool" where
  "fits m n t \<longleftrightarrow> (case t of (i, j, k) \<Rightarrow> i + k \<le> m \<and> j + k \<le> n)"

lemma best_in_row_fits:
  "fits (Suc i) n best \<Longrightarrow> list_all (\<lambda>k. k \<le> Suc i) ks \<Longrightarrow>
   (\<forall>l < length ks. ks ! l \<le> Suc (j + l)) \<Longrightarrow> j + length ks \<le> n \<Longrightarrow>
   fits (Suc i) n (best_in_row i j ks best)"
proof (induction ks arbitrary: j best)
  case (Cons k ks)
  have "k \<le> Suc j" using Cons.prems(3) by (metis add_0_right length_greater_0_conv list.distinct(1) nth_Cons_0)
  moreover have "ks ! l \<le> Suc (Suc j + l)" if "l < length ks" for l
    using Cons.prems(3) that by (metis Suc_less_eq add_Suc_right add_Suc_shift length_Cons nth_Cons_Suc)
  ultimately show ?case
    using Cons by (auto simp: fits_def intro!: Cons.IH)
qed simp

lemma best_block_fits:
  "fits i (length b) best \<Longrightarrow> list_all (\<lambda>k. k \<le> i) prev \<Longrightarrow> (\<forall>j < length prev. prev ! j \<le> Suc j) \<Longrightarrow>
   length prev = length b \<Longrightarrow> fits (i + length a) (length b) (best_block popular i a b prev best)"
proof (induction a arbitrary: i prev best)
  case (Cons x a)
  let ?row = "block_row popular x b prev"
  have row: "list_all (\<lambda>k. k \<le> Suc i) ?row" "\<forall>j < length b. ?row ! j \<le> Suc j" "length ?row = length b"
    using block_row_bound [OF Cons.prems(2-4), of popular x] by auto
  have "fits (Suc i) (length b) best" using Cons.prems(1) by (auto simp: fits_def)
  then have "fits (Suc i) (length b) (best_in_row i 0 ?row best)"
    using best_in_row_fits [of i "length b" best ?row 0] row by simp
  with Cons.IH [of "Suc i" _ ?row] row show ?case by (simp add: Let_def)
qed simp

lemma extend_left_fits: "fits m n (i, j, k) \<Longrightarrow> fits m n (extend_left a b i j k)"
  by (induction a b i j k rule: extend_left.induct) (auto simp: fits_def)

lemma common_prefix_le: "common_prefix a b \<le> length a \<and> common_prefix a b \<le> length b"
  by (induction a b rule: common_prefix.induct) auto

lemma longest_match_fits: "fits (length a) (length b) (longest_match popular a b)"
proof -
  obtain i0 j0 k0 where b0: "best_block popular 0 a b (replicate (length b) 0) (0, 0, 0) = (i0, j0, k0)"
    by (metis prod_cases3)
  obtain i j k where e: "extend_left a b i0 j0 k0 = (i, j, k)" by (metis prod_cases3)
  have "fits (length a) (length b) (i0, j0, k0)"
    using best_block_fits [of 0 b "(0, 0, 0)" "replicate (length b) 0" a popular] b0
    by (simp add: fits_def list_all_length)
  then have "fits (length a) (length b) (i, j, k)"
    using extend_left_fits [of "length a" "length b" i0 j0 k0 a b] e by simp
  then show ?thesis
    using common_prefix_le [of "drop (i + k) a" "drop (j + k) b"] b0 e
    by (auto simp: longest_match_def fits_def)
qed

lemma fits_at: "fits m n t \<Longrightarrow> (i, j, k) = t \<Longrightarrow> i + k \<le> m \<and> j + k \<le> n"
  by (auto simp: fits_def)

lemmas longest_match_at = longest_match_fits [THEN fits_at]

section \<open>Similarity\<close>

text \<open>The number of matched elements: the longest block and what matches on either side of it.\<close>

function matched :: "char set \<Rightarrow> pystr \<Rightarrow> pystr \<Rightarrow> nat" where
  "matched popular a b =
     (case longest_match popular a b of
        (i, j, k) \<Rightarrow>
          if k = 0 then 0
          else k + matched popular (take i a) (take j b)
                 + matched popular (drop (i + k) a) (drop (j + k) b))"
  by pat_completeness auto
termination
  by (relation "measure (\<lambda>(popular, a, b). length a)")
    (auto dest!: longest_match_at)

declare matched.simps [simp del]

text \<open>Elements of a long second sequence that make up more than a hundredth of it are popular.\<close>

definition popular_chars :: "pystr \<Rightarrow> char set" where
  "popular_chars b =
     (if length b < 200 then {} else {c \<in> set b. length b div 100 + 1 < count_list b c})"

definition ratio :: "pystr \<Rightarrow> pystr \<Rightarrow> real" where
  "ratio a b =
     (if a = [] \<and> b = [] then 1
      else 2 * real (matched (popular_chars b) a b) / real (length a + length b))"

text \<open>\<^verbatim>\<open>heapq.nlargest\<close> on pairs of score and name.\<close>

definition better :: "real \<times> pystr \<Rightarrow> real \<times> pystr \<Rightarrow> bool" where
  "better x y \<longleftrightarrow> fst y < fst x \<or> (fst x = fst y \<and> snd y \<le> snd x)"

fun insert_best :: "real \<times> pystr \<Rightarrow> (real \<times> pystr) list \<Rightarrow> (real \<times> pystr) list" where
  "insert_best x [] = [x]"
| "insert_best x (y # ys) = (if better y x then y # insert_best x ys else x # y # ys)"

definition nlargest :: "nat \<Rightarrow> (real \<times> pystr) list \<Rightarrow> (real \<times> pystr) list" where
  "nlargest n xs = take n (foldr insert_best xs [])"

definition get_close_matches :: "pystr \<Rightarrow> pystr list \<Rightarrow> nat \<Rightarrow> real \<Rightarrow> pystr list" where
  "get_close_matches word possibilities n cutoff =
     map snd (nlargest n (filter (\<lambda>(r, x). cutoff \<le> r) (map (\<lambda>x. (ratio x word, x)) possibilities)))"

lemma matched_le: "matched popular a b \<le> length a \<and> matched popular a b \<le> length b"
proof (induction popular a b rule: matched.induct)
  case (1 popular a b)
  obtain i j k where m: "longest_match popular a b = (i, j, k)" by (metis prod_cases3)
  have "i + k \<le> length a" "j + k \<le> length b"
    using longest_match_fits [of a b popular] m by (auto simp: fits_def)
  then show ?case
    using "1.IH" [OF m [symmetric] refl] by (cases "k = 0") (auto simp: matched.simps [of popular a b] m)
qed

lemma ratio_bounds: "0 \<le> ratio a b \<and> ratio a b \<le> 1"
proof (cases "length a + length b = 0")
  case False
  have "2 * matched (popular_chars b) a b \<le> length a + length b"
    using matched_le [of "popular_chars b" a b] by linarith
  then have "2 * real (matched (popular_chars b) a b) \<le> real (length a + length b)"
    by (metis of_nat_le_iff of_nat_mult of_nat_numeral)
  with False show ?thesis by (auto simp: ratio_def divide_le_eq_1)
qed (simp add: ratio_def)

lemma set_insert_best: "set (insert_best x ys) = insert x (set ys)"
  by (induction ys) auto

lemma set_foldr_insert_best: "set (foldr insert_best xs []) = set xs"
  by (induction xs) (auto simp: set_insert_best)

lemma better_total: "better x y \<or> better y x"
  by (auto simp: better_def)

lemma better_trans: "better x y \<Longrightarrow> better y z \<Longrightarrow> better x z"
  by (auto simp: better_def)

lemma sorted_insert_best: "sorted_wrt better ys \<Longrightarrow> sorted_wrt better (insert_best x ys)"
proof (induction ys)
  case (Cons y ys)
  then show ?case
    using better_total [of x y] by (auto simp: set_insert_best intro: better_trans)
qed simp

lemma sorted_foldr_insert_best: "sorted_wrt better (foldr insert_best xs [])"
  by (induction xs) (auto intro: sorted_insert_best)

lemma get_close_matches_in:
  "x \<in> set (get_close_matches word possibilities n cutoff) \<Longrightarrow>
     x \<in> set possibilities \<and> cutoff \<le> ratio x word"
  by (auto simp: get_close_matches_def nlargest_def set_foldr_insert_best dest!: in_set_takeD)

lemma length_get_close_matches: "length (get_close_matches word possibilities n cutoff) \<le> n"
  by (simp add: get_close_matches_def nlargest_def)

end
