(* ===== verification/Py_Path.thy ===== *)
theory Py_Path
  imports Py_String
begin

text \<open>
  What the program uses of \<^verbatim>\<open>pathlib\<close> and of \<^verbatim>\<open>str.split\<close>, \<^verbatim>\<open>str.partition\<close> and
  \<^verbatim>\<open>str.rpartition\<close> with a one-character separator.
\<close>

section \<open>Splitting at a character\<close>

fun split_char :: "char \<Rightarrow> pystr \<Rightarrow> pystr list" where
  "split_char sep [] = [[]]"
| "split_char sep (c # cs) =
     (if c = sep then [] # split_char sep cs
      else (case split_char sep cs of l # ls \<Rightarrow> (c # l) # ls | [] \<Rightarrow> [[c]]))"

lemma split_char_absent: "p \<in> set (split_char sep s) \<Longrightarrow> sep \<notin> set p"
  by (induction sep s arbitrary: p rule: split_char.induct) (fastforce split: list.splits if_splits)+

text \<open>\<^verbatim>\<open>s.partition(c)\<close>: the text before, whether the separator is there, the text after.\<close>

fun partition_at :: "char \<Rightarrow> pystr \<Rightarrow> pystr \<times> bool \<times> pystr" where
  "partition_at sep [] = ([], False, [])"
| "partition_at sep (c # cs) =
     (if c = sep then ([], True, cs)
      else (let (u, found, v) = partition_at sep cs in (c # u, found, v)))"

text \<open>\<^verbatim>\<open>s.rpartition(c)[2]\<close>: what follows the last separator, or all of the text.\<close>

definition after_last :: "char \<Rightarrow> pystr \<Rightarrow> pystr" where
  "after_last sep s = rev (takeWhile (\<lambda>c. c \<noteq> sep) (rev s))"

lemma partition_at_absent: "sep \<notin> set s \<Longrightarrow> partition_at sep s = (s, False, [])"
  by (induction s) auto

lemma partition_at_found: "sep \<notin> set u \<Longrightarrow> partition_at sep (u @ sep # v) = (u, True, v)"
  by (induction u) auto

lemma partition_at_parts:
  "partition_at sep s = (u, found, v) \<Longrightarrow> s = u @ (if found then sep # v else []) \<and> sep \<notin> set u"
  by (induction s arbitrary: u) (auto split: if_splits prod.splits)

lemma after_last_absent: "sep \<notin> set s \<Longrightarrow> after_last sep s = s"
  unfolding after_last_def by (subst takeWhile_eq_all_conv [THEN iffD2]) auto

lemma after_last_found: "sep \<notin> set v \<Longrightarrow> after_last sep (u @ sep # v) = v"
proof -
  assume "sep \<notin> set v"
  then have "takeWhile (\<lambda>c. c \<noteq> sep) (rev v @ sep # rev u) = rev v"
    by (subst takeWhile_append2) auto
  then show ?thesis by (simp add: after_last_def)
qed

section \<open>Paths\<close>

text \<open>\<^verbatim>\<open>Path(d) / f\<close> for a relative \<^verbatim>\<open>f\<close>.\<close>

definition path_join :: "pystr \<Rightarrow> pystr \<Rightarrow> pystr" where
  "path_join d f = (if d = [] then f else if endswith ''/'' d then d @ f else d @ ''/'' @ f)"

text \<open>
  \<^verbatim>\<open>str(Path(s))\<close>: empty components and \<^verbatim>\<open>.\<close> go; two leading slashes, and no more, are a
  root of their own.
\<close>

definition path_root :: "pystr \<Rightarrow> pystr" where
  "path_root s =
     (if startswith ''///'' s then ''/'' else if startswith ''//'' s then ''//''
      else if startswith ''/'' s then ''/'' else [])"

definition path_text :: "pystr \<Rightarrow> pystr" where
  "path_text s =
     (let parts = filter (\<lambda>p. p \<noteq> [] \<and> p \<noteq> ''.'') (split_char (CHR ''/'') s);
          whole = path_root s @ join ''/'' parts
      in if whole = [] then ''.'' else whole)"

text \<open>\<^verbatim>\<open>Path(s).is_absolute()\<close>.\<close>

definition is_absolute :: "pystr \<Rightarrow> bool" where
  "is_absolute s \<longleftrightarrow> startswith ''/'' s"

lemma is_absolute_path_join [simp]: "is_absolute d \<Longrightarrow> is_absolute (path_join d f)"
  by (cases d) (auto simp: is_absolute_def path_join_def startswith_def split: if_splits)

lemma is_absolute_path_text [simp]: "is_absolute (path_text s) \<longleftrightarrow> is_absolute s"
proof (cases "is_absolute s")
  case True
  then show ?thesis
    by (auto simp: path_text_def path_root_def is_absolute_def startswith_def Let_def)
next
  case False
  have no_slash: "c \<noteq> CHR ''/''" if "p \<in> set (split_char (CHR ''/'') t)" "c \<in> set p" for p t c
    using that split_char_absent by blast
  obtain ps where ps: "ps = filter (\<lambda>p. p \<noteq> [] \<and> p \<noteq> ''.'') (split_char (CHR ''/'') s)" by simp
  have root: "path_root s = []" using False
    by (cases s) (auto simp: path_root_def is_absolute_def startswith_def)
  show ?thesis
  proof (cases ps)
    case Nil
    with False ps root show ?thesis by (simp add: path_text_def is_absolute_def startswith_def Let_def)
  next
    case (Cons p ps')
    then have "p \<in> set ps" by simp
    then have "p \<in> set (split_char (CHR ''/'') s)" "p \<noteq> []" unfolding ps by auto
    then obtain c cs where "p = c # cs" "c \<noteq> CHR ''/''"
      using no_slash by (metis list.exhaust list.set_intros(1))
    then have "\<exists>r. join ''/'' ps = c # r" using Cons by (cases ps') auto
    with False ps root \<open>c \<noteq> CHR ''/''\<close> show ?thesis
      by (auto simp: path_text_def is_absolute_def startswith_def Let_def)
  qed
qed

end
