(* ===== verification/Act_Rules.thy ===== *)
theory Act_Rules
  imports Host
begin

text \<open>
  More of the effects the components are written in (\<^verbatim>\<open>finally\<close>, a tolerated error), and the
  contract that lets a property of the state travel through them: an order on states that
  single calls respect is respected by everything put together from such calls.
\<close>

text \<open>\<^verbatim>\<open>try: m finally: cleanup\<close>: an exception of the clean-up replaces the result.\<close>

definition finally_do :: "('w, 'a) act \<Rightarrow> ('w, unit) act \<Rightarrow> ('w, 'a) act" where
  "finally_do m cleanup w =
     (let (r, w1) = m w in
      case cleanup w1 of (Inl e, w2) \<Rightarrow> (Inl e, w2) | (Inr _, w2) \<Rightarrow> (r, w2))"

text \<open>\<^verbatim>\<open>try: m except NixadminError: log\<close>.\<close>

definition tolerate :: "('w, 'a) act \<Rightarrow> ('w, unit) act" where
  "tolerate m = try_nixadmin (andthen m (\<lambda>_. ret ())) (\<lambda>_. ret ())"

definition do_world :: "('w \<Rightarrow> 'w) \<Rightarrow> ('w, unit) act" where
  "do_world f w = (Inr (), f w)"

definition moves :: "('w \<Rightarrow> 'w \<Rightarrow> bool) \<Rightarrow> ('w, 'a) act \<Rightarrow> bool" where
  "moves R m \<longleftrightarrow> (\<forall>w. R w (snd (m w)))"

lemma movesD: "moves R m \<Longrightarrow> m w = (r, w') \<Longrightarrow> R w w'"
  by (metis moves_def snd_conv)

locale state_order =
  fixes R :: "'w \<Rightarrow> 'w \<Rightarrow> bool"
  assumes refl: "R w w"
    and trans: "R u v \<Longrightarrow> R v w \<Longrightarrow> R u w"
begin

lemma moves_ret: "moves R (ret x)"
  by (simp add: moves_def ret_def refl)

lemma moves_raise: "moves R (raise e)"
  by (simp add: moves_def raise_def refl)

lemma moves_andthen: "moves R m \<Longrightarrow> (\<And>x. moves R (f x)) \<Longrightarrow> moves R (andthen m f)"
  unfolding moves_def andthen_def
  by (auto split: prod.splits sum.splits) (metis refl trans snd_conv)+

lemma moves_try: "moves R m \<Longrightarrow> (\<And>e. moves R (f e)) \<Longrightarrow> moves R (try_nixadmin m f)"
  unfolding moves_def try_nixadmin_def
  by (auto split: prod.splits sum.splits) (metis refl trans snd_conv)+

lemma moves_finally: "moves R m \<Longrightarrow> moves R f \<Longrightarrow> moves R (finally_do m f)"
  unfolding moves_def finally_do_def
  by (auto simp: Let_def split: prod.splits sum.splits) (metis refl trans snd_conv)+

lemma moves_tolerate: "moves R m \<Longrightarrow> moves R (tolerate m)"
  unfolding tolerate_def by (intro moves_try moves_andthen moves_ret)

lemma moves_do_world: "(\<And>w. R w (f w)) \<Longrightarrow> moves R (do_world f)"
  by (simp add: moves_def do_world_def)

lemma moves_if: "moves R m \<Longrightarrow> moves R n \<Longrightarrow> moves R (if c then m else n)"
  by simp

lemma moves_state: "(\<And>v. moves R (f v)) \<Longrightarrow> moves R (\<lambda>w. f (g w) w)"
  by (simp add: moves_def)

lemma moves_run:
  assumes "\<And>w. R w (snd (spawn h cmd d w))" "\<And>w. R w (kill_group h w)"
  shows "moves R (run h cmd d)"
  unfolding moves_def
proof
  fix w
  have "R w (snd (spawn h cmd d w))" by (rule assms(1))
  then show "R w (snd (run h cmd d w))"
    using assms(2) [of "snd (spawn h cmd d w)"]
    by (cases "spawn h cmd d w"; cases "fst (spawn h cmd d w)") (auto simp: run_def intro: trans)
qed

lemma moves_run_checked:
  assumes "\<And>w. R w (snd (spawn h cmd d w))" "\<And>w. R w (kill_group h w)"
  shows "moves R (run_checked h cmd d)"
  unfolding run_checked_def
  by (intro moves_andthen moves_run assms) (auto intro: moves_ret moves_raise)

lemmas moves_intros = moves_ret moves_raise moves_andthen moves_try moves_finally moves_tolerate moves_if

end

end
