(* ===== verification/Actions.thy ===== *)
theory Actions
  imports Package_Editor Py_Difflib Py_Json Py_Path Act_Rules
begin

text \<open>
  The executing half of \<^verbatim>\<open>actions.py\<close>: installing or removing an app by editing the Nix file,
  with the edit validated in a throw-away worktree, confirmed, applied and switched to, and
  undone when the switch fails; the suggestion of real package names; and the clean-up of
  worktrees a dead process left behind. The file system is a parameter, a record of the
  calls the code makes to \<^verbatim>\<open>pathlib\<close>, \<^verbatim>\<open>os\<close>, \<^verbatim>\<open>tempfile\<close> and \<^verbatim>\<open>shutil\<close>; commands go
  through the machine record. Errors of reading and writing are results of those calls.
\<close>

section \<open>Files\<close>

datatype pid_probe = Signalled | No_process | Not_permitted

record 'w files =
  fs_exists :: "pystr \<Rightarrow> 'w \<Rightarrow> bool"
  fs_is_dir :: "pystr \<Rightarrow> 'w \<Rightarrow> bool"
  fs_read :: "pystr \<Rightarrow> ('w, pystr) act"
  fs_write :: "pystr \<Rightarrow> pystr \<Rightarrow> ('w, unit) act"
  fs_unlink :: "pystr \<Rightarrow> 'w \<Rightarrow> 'w"
  fs_rmtree :: "pystr \<Rightarrow> 'w \<Rightarrow> 'w"
  fs_mkdtemp :: "pystr \<Rightarrow> ('w, pystr) act"
  fs_glob :: "pystr \<Rightarrow> pystr \<Rightarrow> 'w \<Rightarrow> pystr list"
  fs_realpath :: "pystr \<Rightarrow> 'w \<Rightarrow> pystr"
  fs_readlink :: "pystr \<Rightarrow> 'w \<Rightarrow> pystr option"
  fs_tempdir :: pystr
  own_pid :: int
  probe_pid :: "int \<Rightarrow> 'w \<Rightarrow> pid_probe"

text \<open>\<^verbatim>\<open>read_text()\<close> opens the file in text mode, which turns every line end into a line feed.\<close>

fun universal_newlines :: "pystr \<Rightarrow> pystr" where
  "universal_newlines [] = []"
| "universal_newlines (c # cs) =
     (if c = carriage_return
      then newline # (case cs of d # ds \<Rightarrow> if d = newline then universal_newlines ds else universal_newlines cs
                      | [] \<Rightarrow> [])
      else c # universal_newlines cs)"

definition read_text :: "'w files \<Rightarrow> pystr \<Rightarrow> ('w, pystr) act" where
  "read_text fs path = andthen (fs_read fs path) (\<lambda>raw. ret (universal_newlines raw))"

section \<open>Constants\<close>

definition HOME_FILE :: pystr where "HOME_FILE = ''modules/home-manager/default.nix''"
definition WORKTREE_PREFIX :: pystr where "WORKTREE_PREFIX = ''nixadmin-wt-''"
definition WORKTREE_MARKER_SUFFIX :: pystr where "WORKTREE_MARKER_SUFFIX = ''.owner.json''"
definition SYSTEM_PROFILE :: pystr where "SYSTEM_PROFILE = ''/nix/var/nix/profiles/system''"

section \<open>Real package names\<close>

definition attrnames_expr :: "pystr \<Rightarrow> pystr" where
  "attrnames_expr flake =
     ''let f = builtins.getFlake '' @ [quote] @ ''path:'' @ flake @ [quote] @ ''; ''
     @ ''sys = builtins.currentSystem; '' @ ''np = (f.inputs.nixpkgs or null); ''
     @ ''p = if np != null then np.legacyPackages.${sys} else import <nixpkgs> {}; ''
     @ ''in builtins.concatStringsSep '' @ [quote, backslash, CHR ''n'', quote] @ '' (builtins.attrNames p)''"

type_synonym names_cache = "pystr \<rightharpoonup> pystr list"

definition load_package_names ::
  "'w host \<Rightarrow> pystr \<Rightarrow> names_cache \<Rightarrow> ('w, pystr list \<times> names_cache) act" where
  "load_package_names h flake_dir cache =
     (case cache flake_dir of
        Some names \<Rightarrow> ret (names, cache)
      | None \<Rightarrow>
          andthen (run h [''nix'', ''eval'', ''--impure'', ''--raw'', ''--expr'', attrnames_expr flake_dir] None)
            (\<lambda>(rc, out).
               let names = (if rc = 0 \<and> out \<noteq> [] then split_char newline out else [])
               in ret (names, cache(flake_dir \<mapsto> names))))"

definition fuzzy_candidates :: "pystr \<Rightarrow> pystr list \<Rightarrow> nat \<Rightarrow> pystr list" where
  "fuzzy_candidates query names n = get_close_matches (lower query) names n (1 / 2)"

section \<open>Validation in a worktree\<close>

definition git_in :: "'w host \<Rightarrow> pystr \<Rightarrow> pystr list \<Rightarrow> ('w, pystr) act" where
  "git_in h repo args = run_checked h ([''git'', ''-C'', repo] @ args) (Some 60)"

definition worktree_marker :: "pystr \<Rightarrow> pystr" where
  "worktree_marker path = path @ WORKTREE_MARKER_SUFFIX"

definition marker_text :: "pystr \<Rightarrow> int \<Rightarrow> pystr" where
  "marker_text repo pid = dumps (\<lambda>_. []) (JObj [(''repo'', JStr repo), (''pid'', JInt pid)])"

definition toplevel_attr :: "pystr \<Rightarrow> pystr \<Rightarrow> pystr" where
  "toplevel_attr wt hostname =
     ''path:'' @ wt @ ''#nixosConfigurations.'' @ hostname @ ''.config.system.build.toplevel.drvPath''"

definition discard_worktree :: "'w files \<Rightarrow> 'w host \<Rightarrow> pystr \<Rightarrow> pystr \<Rightarrow> ('w, unit) act" where
  "discard_worktree fs h flake_dir wt =
     andthen (tolerate (git_in h flake_dir [''worktree'', ''remove'', ''--force'', wt])) (\<lambda>_.
       do_world (\<lambda>w. fs_unlink fs (worktree_marker wt) (fs_rmtree fs wt w)))"

definition evaluate_edit ::
  "'w files \<Rightarrow> 'w host \<Rightarrow> pystr \<Rightarrow> pystr \<Rightarrow> pystr \<Rightarrow> pystr \<Rightarrow> ('w, bool \<times> pystr) act" where
  "evaluate_edit fs h flake_dir hostname wt edited =
     andthen (git_in h flake_dir [''worktree'', ''add'', ''--detach'', wt, ''HEAD'']) (\<lambda>_.
     andthen (fs_write fs (path_join wt HOME_FILE) edited) (\<lambda>_.
     andthen (run h [''nix'', ''eval'', ''--raw'', toplevel_attr wt hostname] None) (\<lambda>(rc, out).
       if rc = 0
       then andthen (run h [''git'', ''-C'', wt, ''diff'', ''--'', HOME_FILE] None) (\<lambda>(rc', diff). ret (True, diff))
       else ret (False, []))))"

definition validate_in_worktree ::
  "'w files \<Rightarrow> 'w host \<Rightarrow> pystr \<Rightarrow> pystr \<Rightarrow> pystr \<Rightarrow> ('w, bool \<times> pystr) act" where
  "validate_in_worktree fs h flake_dir hostname edited =
     andthen (fs_mkdtemp fs WORKTREE_PREFIX) (\<lambda>wt w.
       andthen (fs_write fs (worktree_marker wt) (marker_text (fs_realpath fs flake_dir w) (own_pid fs))) (\<lambda>_.
         finally_do (evaluate_edit fs h flake_dir hostname wt edited)
           (discard_worktree fs h flake_dir wt)) w)"

section \<open>Installing and removing\<close>

text \<open>What the caller provides, as the keyword arguments of \<^verbatim>\<open>run_app_action\<close>.\<close>

record 'w action_env =
  env_files :: "'w files"
  env_host :: "'w host"
  env_flake :: pystr
  env_hostname :: pystr
  env_confirm :: "pystr \<Rightarrow> ('w, bool) act"
  env_status :: "pystr \<Rightarrow> ('w, unit) act"
  env_switch :: "('w, pystr) act"
  env_rollback :: "('w, pystr) act option"
  env_suggest :: "(pystr \<Rightarrow> ('w, pystr) act) option"

definition home_path :: "'w action_env \<Rightarrow> pystr" where
  "home_path env = path_join (env_flake env) HOME_FILE"

definition validate :: "'w action_env \<Rightarrow> pystr \<Rightarrow> ('w, bool \<times> pystr) act" where
  "validate env edited =
     validate_in_worktree (env_files env) (env_host env) (env_flake env) (env_hostname env) edited"

text \<open>A change that evaluates, as the code's local variables hold it before the question.\<close>

record proposal =
  pr_ok :: bool
  pr_diff :: pystr
  pr_preamble :: pystr
  pr_pkg :: pystr
  pr_edited :: pystr

definition mk_proposal :: "bool \<Rightarrow> pystr \<Rightarrow> pystr \<Rightarrow> pystr \<Rightarrow> pystr \<Rightarrow> proposal" where
  "mk_proposal v d pre pkg edited =
     \<lparr>pr_ok = v, pr_diff = d, pr_preamble = pre, pr_pkg = pkg, pr_edited = edited\<rparr>"

definition did_you_mean :: "pystr \<Rightarrow> pystr \<Rightarrow> pystr" where
  "did_you_mean pkg cand = ''I couldn't find '' @ [CHR 0x27] @ pkg @ [CHR 0x27] @ ''. Did you mean ''
     @ [CHR 0x27] @ cand @ [CHR 0x27] @ ''?'' @ [newline, newline]"

text \<open>The suggestion when the name does not evaluate: a candidate, validated in its turn.\<close>

definition try_suggestion ::
  "'w action_env \<Rightarrow> (pystr \<Rightarrow> ('w, pystr) act) \<Rightarrow> pystr \<Rightarrow> pystr \<Rightarrow> pystr \<Rightarrow> pystr \<Rightarrow> ('w, proposal) act" where
  "try_suggestion env suggest original pkg edited diff =
     andthen (env_status env ([CHR 0x27] @ pkg @ [CHR 0x27] @ '' isn't a package '' @ [emdash]
                @ '' figuring out what you meant'' @ [ellipsis])) (\<lambda>_.
     andthen (suggest pkg) (\<lambda>cand.
       if cand \<noteq> [] \<and> cand \<noteq> pkg then
         (case edit_packages original cand True of
            Inl e \<Rightarrow> raise e
          | Inr cand_edited \<Rightarrow>
              if cand_edited \<noteq> original then
                andthen (validate env cand_edited) (\<lambda>(valid, diff').
                  if valid then ret (mk_proposal True diff' (did_you_mean pkg cand) cand cand_edited)
                  else ret (mk_proposal False diff' [] pkg edited))
              else ret (mk_proposal False diff [] pkg edited))
       else ret (mk_proposal False diff [] pkg edited)))"

definition propose :: "'w action_env \<Rightarrow> bool \<Rightarrow> pystr \<Rightarrow> pystr \<Rightarrow> pystr \<Rightarrow> ('w, proposal) act" where
  "propose env add original pkg edited =
     andthen (env_status env (''checking that '' @ pkg @ (if add then '' installs'' else '' removes'')
                @ '' cleanly'' @ [ellipsis])) (\<lambda>_.
     andthen (validate env edited) (\<lambda>(valid, diff).
       case env_suggest env of
         Some suggest \<Rightarrow>
           (if \<not> valid \<and> add then try_suggestion env suggest original pkg edited diff
            else ret (mk_proposal valid diff [] pkg edited))
       | None \<Rightarrow> ret (mk_proposal valid diff [] pkg edited)))"

definition system_generation :: "'w action_env \<Rightarrow> 'w \<Rightarrow> pystr option" where
  "system_generation env w = fs_readlink (env_files env) SYSTEM_PROFILE w"

definition rolled_back_text :: "exn \<Rightarrow> pystr" where
  "rolled_back_text e = ''The rebuild failed partway through, so I rolled the system back ''
     @ ''to the previous working generation and reverted the config '' @ ''edit. ('' @ str_exn e @ '')''"

definition rollback_failed_text :: "exn \<Rightarrow> exn \<Rightarrow> pystr" where
  "rollback_failed_text e re = ''The rebuild failed partway through AND the automatic ''
     @ ''rollback failed '' @ [emdash] @ '' the system may be in a mixed state. ''
     @ ''Please roll back manually. ('' @ str_exn e @ ''; rollback: '' @ str_exn re @ '')''"

definition reverted_text :: "exn \<Rightarrow> pystr" where
  "reverted_text e = ''The rebuild failed before anything changed, so I reverted the config edit. ('' @ str_exn e @ '')''"

definition roll_back :: "'w action_env \<Rightarrow> exn \<Rightarrow> ('w, pystr) act \<Rightarrow> ('w, pystr) act" where
  "roll_back env e rollback =
     andthen (env_status env (''the rebuild failed mid-activation '' @ [emdash] @ '' rolling the system ''
                @ ''back to the last working generation'' @ [ellipsis])) (\<lambda>_.
       try_nixadmin (andthen rollback (\<lambda>_. ret (rolled_back_text e)))
         (\<lambda>re. ret (rollback_failed_text e re)))"

text \<open>The handler of a failed switch: the edit is undone, then the system if it moved on.\<close>

definition recover :: "'w action_env \<Rightarrow> pystr \<Rightarrow> pystr option \<Rightarrow> exn \<Rightarrow> ('w, pystr) act" where
  "recover env original gen_before e =
     andthen (fs_write (env_files env) (home_path env) original) (\<lambda>_ w.
       (case env_rollback env of
          Some rollback \<Rightarrow>
            (if system_generation env w \<noteq> gen_before then roll_back env e rollback else ret (reverted_text e))
        | None \<Rightarrow> ret (reverted_text e)) w)"

definition done_text :: "bool \<Rightarrow> pystr \<Rightarrow> pystr \<Rightarrow> pystr" where
  "done_text add pkg result =
     ''Done '' @ [emdash] @ '' '' @ pkg @ (if add then '' installed.'' else '' removed.'') @ [newline] @ result @ [newline]
     @ ''(The config edit is left uncommitted for you to review.)''"

definition apply_proposal :: "'w action_env \<Rightarrow> bool \<Rightarrow> pystr \<Rightarrow> proposal \<Rightarrow> ('w, pystr) act" where
  "apply_proposal env add original p =
     andthen (fs_write (env_files env) (home_path env) (pr_edited p)) (\<lambda>_.
     andthen (env_status env (''applying the change and rebuilding'' @ [ellipsis])) (\<lambda>_ w.
       let gen_before = system_generation env w in
       try_nixadmin (andthen (env_switch env) (\<lambda>result. ret (done_text add (pr_pkg p) result)))
         (recover env original gen_before) w))"

definition ask_text :: "bool \<Rightarrow> proposal \<Rightarrow> pystr" where
  "ask_text add p = pr_preamble p @ ''This will '' @ (if add then ''install '' else ''remove '') @ pr_pkg p
     @ '':'' @ [newline, newline] @ pr_diff p @ [newline] @ ''Apply and rebuild?''"

definition cancelled_action_text :: pystr where
  "cancelled_action_text = ''Cancelled '' @ [emdash] @ '' no changes made.''"

definition ask_and_apply :: "'w action_env \<Rightarrow> bool \<Rightarrow> pystr \<Rightarrow> proposal \<Rightarrow> ('w, pystr) act" where
  "ask_and_apply env add original p =
     (if \<not> pr_ok p
      then ret (''I couldn't '' @ (if add then ''install '' else ''remove '') @ [CHR 0x27] @ pr_pkg p @ [CHR 0x27]
             @ '' '' @ [emdash] @ '' it didn't evaluate (is the name right?).'')
      else andthen (env_confirm env (ask_text add p)) (\<lambda>yes.
             if yes then apply_proposal env add original p else ret cancelled_action_text))"

definition run_app_action :: "'w action_env \<Rightarrow> app_action \<Rightarrow> ('w, pystr) act" where
  "run_app_action env action w =
     (let add = (act_kind action = Install_app); pkg = act_target action in
      if pkg = [] then ret ''I didn't catch which app you meant.'' w
      else if \<not> fs_exists (env_files env) (home_path env) w
      then ret ''I couldn't find the packages file to edit.'' w
      else andthen (read_text (env_files env) (home_path env)) (\<lambda>original.
             case edit_packages original pkg add of
               Inl e \<Rightarrow> ret (str_exn e)
             | Inr edited \<Rightarrow>
                 if edited = original
                 then ret (pkg @ '' looks like it's already '' @ (if add then ''installed'' else ''not installed'') @ ''.'')
                 else andthen (propose env add original pkg edited) (ask_and_apply env add original)) w)"

section \<open>Worktrees of dead processes\<close>

definition pid_alive :: "'w files \<Rightarrow> int \<Rightarrow> 'w \<Rightarrow> bool" where
  "pid_alive fs pid w =
     (if pid \<le> 0 then False
      else (case probe_pid fs pid w of Signalled \<Rightarrow> True | No_process \<Rightarrow> False | Not_permitted \<Rightarrow> True))"

text \<open>\<^verbatim>\<open>int(x)\<close> of a decoded value; \<open>None\<close> for the errors the caller skips.\<close>

fun int_of_json :: "json \<Rightarrow> int option" where
  "int_of_json (JInt i) = Some i"
| "int_of_json (JBool b) = Some (if b then 1 else 0)"
| "int_of_json (JFloat r) = Some (if 0 \<le> r then \<lfloor>r\<rfloor> else \<lceil>r\<rceil>)"
| "int_of_json (JStr s) = py_int s"
| "int_of_json _ = None"

text \<open>
  The owner named by a marker is this repository and dead. \<open>Inl\<close> is an exception the loop
  does not catch (\<^verbatim>\<open>AttributeError\<close> of a marker that is no object).
\<close>

definition abandoned :: "'w files \<Rightarrow> pystr \<Rightarrow> pystr \<Rightarrow> 'w \<Rightarrow> exn + bool" where
  "abandoned fs expected_repo owner_text w =
     (case loads owner_text of
        None \<Rightarrow> Inr False
      | Some (JObj owner) \<Rightarrow>
          (if the_default JNull (map_of owner ''repo'') \<noteq> JStr expected_repo then Inr False
           else (case map_of owner ''pid'' of
               None \<Rightarrow> Inr False
             | Some (JNonFinite n) \<Rightarrow>
                 (if n = ''NaN'' then Inr False
                  else Inl (Foreign ''OverflowError'' ''cannot convert float infinity to integer''))
             | Some j \<Rightarrow> (case int_of_json j of None \<Rightarrow> Inr False | Some pid \<Rightarrow> Inr (\<not> pid_alive fs pid w))))
      | Some j \<Rightarrow> Inl (no_get j))"

definition owner_is_dead :: "'w files \<Rightarrow> pystr \<Rightarrow> pystr \<Rightarrow> ('w, bool) act" where
  "owner_is_dead fs expected_repo candidate w =
     (case read_text fs (worktree_marker candidate) w of
        (Inl (Foreign cls m), w') \<Rightarrow>
          (if cls \<in> {''OSError'', ''FileNotFoundError'', ''PermissionError'', ''UnicodeDecodeError''} then (Inr False, w')
           else (Inl (Foreign cls m), w'))
      | (Inl e, w') \<Rightarrow> (Inl e, w')
      | (Inr t, w') \<Rightarrow> (abandoned fs expected_repo t w', w'))"

fun prune_candidates :: "'w files \<Rightarrow> 'w host \<Rightarrow> pystr \<Rightarrow> pystr \<Rightarrow> pystr list \<Rightarrow> int \<Rightarrow> ('w, int) act" where
  "prune_candidates fs h flake_dir repo [] removed = ret removed"
| "prune_candidates fs h flake_dir repo (c # cs) removed = (\<lambda>w.
     if \<not> fs_is_dir fs c w then prune_candidates fs h flake_dir repo cs removed w
     else andthen (owner_is_dead fs repo c) (\<lambda>dead.
            if \<not> dead then prune_candidates fs h flake_dir repo cs removed
            else andthen (discard_worktree fs h flake_dir c) (\<lambda>_.
                   prune_candidates fs h flake_dir repo cs (removed + 1))) w)"

definition prune_abandoned_worktrees :: "'w files \<Rightarrow> 'w host \<Rightarrow> pystr \<Rightarrow> ('w, int) act" where
  "prune_abandoned_worktrees fs h flake_dir w =
     andthen (prune_candidates fs h flake_dir (fs_realpath fs flake_dir w)
                (fs_glob fs (fs_tempdir fs) WORKTREE_PREFIX w) 0) (\<lambda>removed.
       if removed \<noteq> 0
       then andthen (tolerate (git_in h flake_dir [''worktree'', ''prune''])) (\<lambda>_. ret removed)
       else ret removed) w"

end
