(* ===== verification/App_Protocol.thy ===== *)
theory App_Protocol
  imports Actions
begin

text \<open>
  What an app action may do, in which order. A machine given by its answers (as in theory
  \<open>Host\<close>) keeps the files and a log of everything the action did to the outside; the
  protocol is a relation between the log, the reported result and the content of the Nix
  file, and the theorem says that \<open>run_app_action\<close> follows it whatever the answers are.
\<close>

section \<open>A machine with files\<close>

datatype app_event =
    Ran "pystr list" spawned
  | Wrote pystr pystr
  | Removed pystr
  | Told pystr "exn + unit"
  | Asked pystr "exn + bool"
  | Switched "exn + pystr" "pystr option"
  | Rolled "exn + pystr"

record app_world =
  aw_files :: "pystr \<rightharpoonup> pystr"
  aw_dirs :: "pystr list"
  aw_temp :: nat
  aw_generation :: "pystr option"
  aw_alive :: "int list"
  aw_answers :: "spawned list"
  aw_told :: "(exn + unit) list"
  aw_asked :: "(exn + bool) list"
  aw_switches :: "((exn + pystr) \<times> pystr option) list"
  aw_rollbacks :: "(exn + pystr) list"
  aw_suggestions :: "(exn + pystr) list"
  aw_log :: "app_event list"

definition next_answer :: "'a \<Rightarrow> 'a list \<Rightarrow> 'a" where
  "next_answer d xs = (case xs of [] \<Rightarrow> d | x # _ \<Rightarrow> x)"

definition logged :: "app_event \<Rightarrow> app_world \<Rightarrow> app_world" where
  "logged ev w = w\<lparr>aw_log := aw_log w @ [ev]\<rparr>"

definition app_files :: "app_world files" where
  "app_files = \<lparr>
     fs_exists = (\<lambda>p w. aw_files w p \<noteq> None),
     fs_is_dir = (\<lambda>p w. p \<in> set (aw_dirs w)),
     fs_read = (\<lambda>p w. (case aw_files w p of None \<Rightarrow> Inl (Foreign ''FileNotFoundError'' p) | Some t \<Rightarrow> Inr t, w)),
     fs_write = (\<lambda>p t w. (Inr (), logged (Wrote p t) (w\<lparr>aw_files := (aw_files w)(p \<mapsto> t)\<rparr>))),
     fs_unlink = (\<lambda>p w. w\<lparr>aw_files := (aw_files w)(p := None)\<rparr>),
     fs_rmtree = (\<lambda>d w. logged (Removed d) (w\<lparr>
        aw_files := (\<lambda>p. if startswith (d @ ''/'') p then None else aw_files w p),
        aw_dirs := filter (\<lambda>x. x \<noteq> d) (aw_dirs w)\<rparr>)),
     fs_mkdtemp = (\<lambda>prefix w. let d = ''/tmp/'' @ prefix @ show_nat (aw_temp w)
        in (Inr d, w\<lparr>aw_temp := Suc (aw_temp w), aw_dirs := aw_dirs w @ [d]\<rparr>)),
     fs_glob = (\<lambda>root prefix w. filter (startswith (root @ ''/'' @ prefix)) (aw_dirs w)),
     fs_realpath = (\<lambda>p w. p),
     fs_readlink = (\<lambda>p w. if p = SYSTEM_PROFILE then aw_generation w else None),
     fs_tempdir = ''/tmp'', own_pid = 4242,
     probe_pid = (\<lambda>pid w. if pid \<in> set (aw_alive w) then Signalled else No_process)\<rparr>"

definition app_spawn :: "pystr list \<Rightarrow> real option \<Rightarrow> app_world \<Rightarrow> spawned \<times> app_world" where
  "app_spawn cmd d w = (let r = next_answer NotFound (aw_answers w)
     in (r, logged (Ran cmd r) (w\<lparr>aw_answers := tl (aw_answers w)\<rparr>)))"

definition app_host :: "app_world host" where
  "app_host = \<lparr>spawn = app_spawn, kill_group = id, sleep = (\<lambda>t w. w), clock = (\<lambda>w. 0), db_up = (\<lambda>w. True)\<rparr>"

definition app_env :: "pystr \<Rightarrow> pystr \<Rightarrow> app_world action_env" where
  "app_env flake hostname = \<lparr>
     env_files = app_files, env_host = app_host, env_flake = flake, env_hostname = hostname,
     env_confirm = (\<lambda>q w. let r = next_answer (Inr False) (aw_asked w)
        in (r, logged (Asked q r) (w\<lparr>aw_asked := tl (aw_asked w)\<rparr>))),
     env_status = (\<lambda>t w. let r = next_answer (Inr ()) (aw_told w)
        in (r, logged (Told t r) (w\<lparr>aw_told := tl (aw_told w)\<rparr>))),
     env_switch = (\<lambda>w. let (r, g) = next_answer (Inr [], None) (aw_switches w)
        in (r, logged (Switched r g) (w\<lparr>aw_switches := tl (aw_switches w), aw_generation := g\<rparr>))),
     env_rollback = Some (\<lambda>w. let r = next_answer (Inr []) (aw_rollbacks w)
        in (r, logged (Rolled r) (w\<lparr>aw_rollbacks := tl (aw_rollbacks w)\<rparr>))),
     env_suggest = Some (\<lambda>p w. (next_answer (Inr []) (aw_suggestions w),
        w\<lparr>aw_suggestions := tl (aw_suggestions w)\<rparr>))\<rparr>"

section \<open>The protocol\<close>

text \<open>Events that leave the system and the Nix file \<open>home\<close> as they are and have no consent.\<close>

definition harmless :: "pystr \<Rightarrow> app_event \<Rightarrow> bool" where
  "harmless home ev \<longleftrightarrow> (case ev of
     Wrote p t \<Rightarrow> p \<noteq> home
   | Removed d \<Rightarrow> \<not> startswith (d @ ''/'') home
   | Asked q r \<Rightarrow> r \<noteq> Inr True
   | Switched r g \<Rightarrow> False
   | Rolled r \<Rightarrow> False
   | _ \<Rightarrow> True)"

text \<open>The edited text was put into a worktree and its evaluation there ended with code zero.\<close>

definition validated :: "pystr \<Rightarrow> pystr \<Rightarrow> app_event list \<Rightarrow> bool" where
  "validated hostname ed new \<longleftrightarrow> (\<exists>a wt rc out b.
     new = a @ [Wrote (path_join wt HOME_FILE) ed,
                Ran [''nix'', ''eval'', ''--raw'', toplevel_attr wt hostname] (Exited rc out)] @ b \<and>
     the_default 0 rc = 0)"

text \<open>
  After the consent: the validated text is written, and then the events of one of the rows
  happen. \<open>old\<close> is the text the file was read as, \<open>g\<close> the generation before; the last
  arguments are the reported result and the content of the file afterwards.
\<close>

inductive applied :: "pystr \<Rightarrow> pystr \<Rightarrow> pystr option \<Rightarrow> bool \<Rightarrow> pystr \<Rightarrow> pystr \<Rightarrow>
    app_event list \<Rightarrow> exn + pystr \<Rightarrow> pystr \<Rightarrow> bool"
  for home old g add pkg ed where
  not_told: "applied home old g add pkg ed [Told t (Inl e)] (Inl e) ed"
| switched: "applied home old g add pkg ed [Told t (Inr ()), Switched (Inr out) g']
     (Inr (done_text add pkg out)) ed"
| crashed: "\<not> is_nixadmin e \<Longrightarrow>
     applied home old g add pkg ed [Told t (Inr ()), Switched (Inl e) g'] (Inl e) ed"
| reverted: "is_nixadmin e \<Longrightarrow>
     applied home old g add pkg ed [Told t (Inr ()), Switched (Inl e) g, Wrote home old]
       (Inr (reverted_text e)) old"
| recovery_not_told: "is_nixadmin e \<Longrightarrow> g' \<noteq> g \<Longrightarrow>
     applied home old g add pkg ed [Told t (Inr ()), Switched (Inl e) g', Wrote home old, Told t' (Inl e')]
       (Inl e') old"
| rolled_back: "is_nixadmin e \<Longrightarrow> g' \<noteq> g \<Longrightarrow>
     applied home old g add pkg ed
       [Told t (Inr ()), Switched (Inl e) g', Wrote home old, Told t' (Inr ()), Rolled (Inr out)]
       (Inr (rolled_back_text e)) old"
| rollback_failed: "is_nixadmin e \<Longrightarrow> g' \<noteq> g \<Longrightarrow> is_nixadmin re \<Longrightarrow>
     applied home old g add pkg ed
       [Told t (Inr ()), Switched (Inl e) g', Wrote home old, Told t' (Inr ()), Rolled (Inl re)]
       (Inr (rollback_failed_text e re)) old"
| rollback_crashed: "is_nixadmin e \<Longrightarrow> g' \<noteq> g \<Longrightarrow> \<not> is_nixadmin re \<Longrightarrow>
     applied home old g add pkg ed
       [Told t (Inr ()), Switched (Inl e) g', Wrote home old, Told t' (Inr ()), Rolled (Inl re)]
       (Inl re) old"

inductive app_protocol :: "pystr \<Rightarrow> pystr \<Rightarrow> pystr option \<Rightarrow> pystr option \<Rightarrow> app_event list \<Rightarrow>
    exn + pystr \<Rightarrow> pystr option \<Rightarrow> bool"
  for home hostname raw g where
  untouched: "list_all (harmless home) new \<Longrightarrow> app_protocol home hostname raw g new r raw"
| consented: "raw = Some content \<Longrightarrow> edit_packages (universal_newlines content) pkg add = Inr ed \<Longrightarrow>
     list_all (harmless home) pre \<Longrightarrow> validated hostname ed pre \<Longrightarrow>
     applied home (universal_newlines content) g add pkg ed rest r after \<Longrightarrow>
     app_protocol home hostname raw g (pre @ Asked q (Inr True) # Wrote home ed # rest) r (Some after)"

section \<open>Everything before the consent is harmless\<close>

definition quiet :: "pystr \<Rightarrow> app_world \<Rightarrow> app_world \<Rightarrow> bool" where
  "quiet home w w' \<longleftrightarrow> (\<exists>new. aw_log w' = aw_log w @ new \<and> list_all (harmless home) new) \<and>
     aw_files w' home = aw_files w home \<and> aw_generation w' = aw_generation w"

interpretation quiet: state_order "quiet home" for home
proof
  show "quiet home w w" for w
    by (auto simp: quiet_def intro: exI [of _ "[]"])
  show "quiet home u v \<Longrightarrow> quiet home v w \<Longrightarrow> quiet home u w" for u v w
    by (auto simp: quiet_def)
qed

text \<open>A path outside the temporary worktrees.\<close>

definition away :: "pystr \<Rightarrow> bool" where
  "away home \<longleftrightarrow> \<not> startswith ''/tmp/nixadmin-wt-'' home"

definition in_worktrees :: "pystr \<Rightarrow> bool" where
  "in_worktrees p \<longleftrightarrow> startswith ''/tmp/nixadmin-wt-'' p"

lemma in_worktrees_append [simp]: "in_worktrees p \<Longrightarrow> in_worktrees (p @ s)"
  by (auto simp: in_worktrees_def startswith_iff)

lemma away_not: "away home \<Longrightarrow> in_worktrees p \<Longrightarrow> p \<noteq> home \<and> \<not> startswith p home"
  by (auto simp: away_def in_worktrees_def startswith_iff)

lemma quiet_logged:
  "harmless home ev \<Longrightarrow> aw_log v = aw_log w \<Longrightarrow> aw_files v home = aw_files w home \<Longrightarrow>
   aw_generation v = aw_generation w \<Longrightarrow> quiet home w (logged ev v)"
  by (auto simp: quiet_def logged_def)

lemma app_env_simps [simp]:
  "env_files (app_env flake hostname) = app_files" "env_host (app_env flake hostname) = app_host"
  "env_flake (app_env flake hostname) = flake" "env_hostname (app_env flake hostname) = hostname"
  "fs_write app_files p t w = (Inr (), logged (Wrote p t) (w\<lparr>aw_files := (aw_files w)(p \<mapsto> t)\<rparr>))"
  by (simp_all add: app_env_def app_files_def)

lemma moves_app_run:
  "moves (quiet home) (run app_host cmd d)" "moves (quiet home) (run_checked app_host cmd d)"
  by (intro quiet.moves_run quiet.moves_run_checked;
      auto simp: app_host_def app_spawn_def Let_def harmless_def intro: quiet_logged quiet.refl)+

lemma moves_app_write:
  "away home \<Longrightarrow> in_worktrees p \<Longrightarrow> moves (quiet home) (fs_write app_files p t)"
  by (auto simp: moves_def harmless_def dest: away_not intro!: quiet_logged)

lemma moves_git: "moves (quiet home) (git_in app_host repo args)"
  unfolding git_in_def by (rule moves_app_run)

lemma moves_discard:
  assumes "away home" "in_worktrees wt"
  shows "moves (quiet home) (discard_worktree app_files app_host flake wt)"
proof -
  have "in_worktrees (wt @ ''/'')" "in_worktrees (worktree_marker wt)"
    using assms(2) by (simp_all add: worktree_marker_def)
  then have n: "\<not> startswith (wt @ ''/'') home" "worktree_marker wt \<noteq> home"
    using away_not assms(1) by blast+
  have "quiet home w (fs_unlink app_files (worktree_marker wt) (fs_rmtree app_files wt w))" for w
    using n by (auto simp: app_files_def quiet_def harmless_def logged_def)
  then show ?thesis
    unfolding discard_worktree_def
    by (intro quiet.moves_andthen quiet.moves_tolerate moves_git quiet.moves_do_world)
qed

lemma path_join_worktree: "in_worktrees wt \<Longrightarrow> in_worktrees (path_join wt f)"
  by (auto simp: path_join_def in_worktrees_def startswith_iff)

lemma moves_evaluate:
  assumes "away home" "in_worktrees wt"
  shows "moves (quiet home) (evaluate_edit app_files app_host flake hostname wt ed)"
  unfolding evaluate_edit_def
  by (intro quiet.moves_andthen moves_git moves_app_write moves_app_run path_join_worktree assms)
    (auto split: prod.split intro!: quiet.moves_intros moves_app_run)

text \<open>The fresh directory of the validation, and the validation in it.\<close>

definition new_worktree :: "app_world \<Rightarrow> pystr" where
  "new_worktree w = ''/tmp/'' @ WORKTREE_PREFIX @ show_nat (aw_temp w)"

definition with_worktree :: "app_world \<Rightarrow> app_world" where
  "with_worktree w = w\<lparr>aw_temp := Suc (aw_temp w), aw_dirs := aw_dirs w @ [new_worktree w]\<rparr>"

lemma validate_unfold:
  "validate (app_env flake hostname) ed w =
     andthen (fs_write app_files (worktree_marker (new_worktree w)) (marker_text flake 4242)) (\<lambda>_.
       finally_do (evaluate_edit app_files app_host flake hostname (new_worktree w) ed)
         (discard_worktree app_files app_host flake (new_worktree w))) (with_worktree w)"
proof -
  have "fs_mkdtemp app_files WORKTREE_PREFIX w = (Inr (new_worktree w), with_worktree w)"
    "fs_realpath app_files flake v = flake" "own_pid app_files = 4242" for v
    by (simp_all add: app_files_def new_worktree_def with_worktree_def Let_def)
  then show ?thesis
    by (simp add: validate_def validate_in_worktree_def andthen_def)
qed

lemma in_worktrees_new: "in_worktrees (new_worktree w)"
  by (simp add: in_worktrees_def new_worktree_def WORKTREE_PREFIX_def startswith_def)

lemma app_moves_validate:
  assumes "away home"
  shows "moves (quiet home) (validate (app_env flake hostname) ed)"
  unfolding moves_def
proof
  fix w
  let ?m = "andthen (fs_write app_files (worktree_marker (new_worktree w)) (marker_text flake 4242)) (\<lambda>_.
       finally_do (evaluate_edit app_files app_host flake hostname (new_worktree w) ed)
         (discard_worktree app_files app_host flake (new_worktree w)))"
  have "moves (quiet home) ?m"
    by (intro quiet.moves_andthen moves_app_write quiet.moves_finally moves_evaluate moves_discard assms
        in_worktrees_new) (simp add: worktree_marker_def in_worktrees_new)
  then have "quiet home (with_worktree w) (snd (?m (with_worktree w)))" by (simp add: moves_def)
  moreover have "quiet home w (with_worktree w)"
    by (auto simp: quiet_def with_worktree_def intro: exI [of _ "[]"])
  ultimately show "quiet home w (snd (validate (app_env flake hostname) ed w))"
    by (simp add: validate_unfold) (rule quiet.trans)
qed

lemma quiet_log:
  assumes "quiet home w w'"
  obtains new where "aw_log w' = aw_log w @ new" "list_all (harmless home) new"
  using assms by (auto simp: quiet_def)

lemma validated_append: "validated hostname ed new \<Longrightarrow> validated hostname ed (a @ new @ b)"
  by (auto simp: validated_def) (metis append_assoc append_Cons)

lemma evaluate_validated:
  assumes "evaluate_edit app_files app_host flake hostname wt ed w = (Inr (True, d), w')"
  shows "\<exists>new. aw_log w' = aw_log w @ new \<and> validated hostname ed new"
proof -
  let ?cmd = "[''nix'', ''eval'', ''--raw'', toplevel_attr wt hostname]"
  obtain x w1 where g: "git_in app_host flake [''worktree'', ''add'', ''--detach'', wt, ''HEAD''] w = (Inr x, w1)"
    and rest: "andthen (fs_write app_files (path_join wt HOME_FILE) ed) (\<lambda>_.
       andthen (run app_host ?cmd None) (\<lambda>(rc, out).
         if rc = 0
         then andthen (run app_host [''git'', ''-C'', wt, ''diff'', ''--'', HOME_FILE] None) (\<lambda>(rc', diff). ret (True, diff))
         else ret (False, []))) w1 = (Inr (True, d), w')"
    using assms unfolding evaluate_edit_def by (rule andthen_InrE)
  obtain a where a: "aw_log w1 = aw_log w @ a"
    using movesD [OF moves_git g] by (rule quiet_log)
  define w2 where "w2 = logged (Wrote (path_join wt HOME_FILE) ed) (w1\<lparr>aw_files := (aw_files w1)(path_join wt HOME_FILE \<mapsto> ed)\<rparr>)"
  have "andthen (run app_host ?cmd None) (\<lambda>(rc, out).
         if rc = 0
         then andthen (run app_host [''git'', ''-C'', wt, ''diff'', ''--'', HOME_FILE] None) (\<lambda>(rc', diff). ret (True, diff))
         else ret (False, [])) w2 = (Inr (True, d), w')"
    using rest by (simp add: andthen_def w2_def)
  then obtain rc out w3 where ev: "run app_host ?cmd None w2 = (Inr (rc, out), w3)"
    and "(if rc = 0
         then andthen (run app_host [''git'', ''-C'', wt, ''diff'', ''--'', HOME_FILE] None) (\<lambda>(rc', diff). ret (True, diff))
         else ret (False, [])) w3 = (Inr (True, d), w')"
    by (rule andthen_InrE) auto
  then have "rc = 0" and "andthen (run app_host [''git'', ''-C'', wt, ''diff'', ''--'', HOME_FILE] None)
      (\<lambda>(rc', diff). ret (True, diff)) w3 = (Inr (True, d), w')"
    by (auto simp: ret_def split: if_splits)
  then obtain y where "run app_host [''git'', ''-C'', wt, ''diff'', ''--'', HOME_FILE] None w3 = (Inr y, w')"
    by (elim andthen_InrE) (auto simp: ret_def split: prod.splits)
  then obtain b where b: "aw_log w' = aw_log w3 @ b"
    using movesD [OF moves_app_run(1)] by (metis quiet_log)
  obtain rc0 where "aw_log w3 = aw_log w2 @ [Ran ?cmd (Exited rc0 out)]" "the_default 0 rc0 = 0"
    using ev \<open>rc = 0\<close>
    by (auto simp: run_def app_host_def app_spawn_def Let_def logged_def split: spawned.splits)
  with a b have "aw_log w' = aw_log w @ (a @ [Wrote (path_join wt HOME_FILE) ed, Ran ?cmd (Exited rc0 out)] @ b)"
    by (simp add: w2_def logged_def)
  with \<open>the_default 0 rc0 = 0\<close> show ?thesis unfolding validated_def by blast
qed

lemma validate_validated:
  assumes "away home" "validate (app_env flake hostname) ed w = (Inr (True, d), w')"
  shows "\<exists>new. aw_log w' = aw_log w @ new \<and> validated hostname ed new"
proof -
  let ?wt = "new_worktree w"
  define w1 where "w1 = logged (Wrote (worktree_marker ?wt) (marker_text flake 4242))
    ((with_worktree w)\<lparr>aw_files := (aw_files (with_worktree w))(worktree_marker ?wt \<mapsto> marker_text flake 4242)\<rparr>)"
  have "finally_do (evaluate_edit app_files app_host flake hostname ?wt ed)
      (discard_worktree app_files app_host flake ?wt) w1 = (Inr (True, d), w')"
    using assms(2) by (simp add: validate_unfold andthen_def w1_def)
  then obtain w2 u where ev: "evaluate_edit app_files app_host flake hostname ?wt ed w1 = (Inr (True, d), w2)"
    and dis: "discard_worktree app_files app_host flake ?wt w2 = (u, w')"
    by (auto simp: finally_do_def Let_def split: prod.splits sum.splits)
  from evaluate_validated [OF ev] obtain new where new: "aw_log w2 = aw_log w1 @ new" "validated hostname ed new"
    by blast
  obtain b where "aw_log w' = aw_log w2 @ b"
    using movesD [OF moves_discard [OF assms(1) in_worktrees_new] dis] by (rule quiet_log)
  with new have "aw_log w' = aw_log w @ ([Wrote (worktree_marker ?wt) (marker_text flake 4242)] @ new @ b)"
    by (simp add: w1_def logged_def with_worktree_def)
  with validated_append [OF new(2)] show ?thesis by blast
qed

lemma app_moves_status: "moves (quiet home) (env_status (app_env flake hostname) t)"
  by (auto simp: moves_def app_env_def Let_def harmless_def intro!: quiet_logged)

lemma app_moves_suggest: "env_suggest (app_env flake hostname) = Some f \<Longrightarrow> moves (quiet home) (f p)"
  by (auto simp: moves_def app_env_def quiet_def intro!: exI [of _ "[]"])

lemma app_moves_propose:
  assumes "away home"
  shows "moves (quiet home) (propose (app_env flake hostname) add original pkg edited)"
proof -
  have s: "moves (quiet home) (try_suggestion (app_env flake hostname) f original pkg edited diff)"
    if "env_suggest (app_env flake hostname) = Some f" for f diff
    unfolding try_suggestion_def
    by (intro quiet.moves_andthen app_moves_status app_moves_suggest [OF that])
      (auto split: sum.split prod.split intro!: quiet.moves_intros app_moves_validate assms)
  show ?thesis
    unfolding propose_def
    by (intro quiet.moves_andthen app_moves_status app_moves_validate assms)
      (auto split: prod.split option.split intro!: quiet.moves_ret s)
qed

lemma quiet_validated:
  assumes "quiet home u v" "\<exists>new. aw_log w = aw_log v @ new \<and> validated hostname ed new" "quiet home w x"
  shows "\<exists>new. aw_log x = aw_log u @ new \<and> validated hostname ed new"
proof -
  from assms obtain a new b where "aw_log v = aw_log u @ a" "aw_log w = aw_log v @ new"
    "validated hostname ed new" "aw_log x = aw_log w @ b" by (auto simp: quiet_def)
  then show ?thesis using validated_append [of hostname ed new a b] by auto
qed

lemma try_suggestion_validated:
  assumes "away home" "env_suggest (app_env flake hostname) = Some f"
    and r: "try_suggestion (app_env flake hostname) f original pkg edited diff w = (Inr p, w')" "pr_ok p"
  shows "edit_packages original (pr_pkg p) True = Inr (pr_edited p) \<and>
    (\<exists>new. aw_log w' = aw_log w @ new \<and> validated hostname (pr_edited p) new)"
proof -
  let ?env = "app_env flake hostname"
  obtain w1 cand w2 where w1: "quiet home w w1" and w2: "quiet home w1 w2"
    and rest: "(if cand \<noteq> [] \<and> cand \<noteq> pkg then
         (case edit_packages original cand True of
            Inl e \<Rightarrow> raise e
          | Inr cand_edited \<Rightarrow>
              if cand_edited \<noteq> original then
                andthen (validate ?env cand_edited) (\<lambda>(valid, diff').
                  if valid then ret (mk_proposal True diff' (did_you_mean pkg cand) cand cand_edited)
                  else ret (mk_proposal False diff' [] pkg edited))
              else ret (mk_proposal False diff [] pkg edited))
       else ret (mk_proposal False diff [] pkg edited)) w2 = (Inr p, w')"
    using r(1) unfolding try_suggestion_def
    by (elim andthen_InrE) (blast dest: movesD [OF app_moves_status] movesD [OF app_moves_suggest [OF assms(2)]])
  from rest r(2) obtain ce d where c: "edit_packages original cand True = Inr ce" "validate ?env ce w2 = (Inr (True, d), w')"
    "p = mk_proposal True d (did_you_mean pkg cand) cand ce"
    by (auto simp: ret_def raise_def mk_proposal_def split: if_splits sum.splits elim!: andthen_InrE)
  have "\<exists>new. aw_log w' = aw_log w2 @ new \<and> validated hostname ce new"
    by (rule validate_validated [OF assms(1) c(2)])
  with quiet.trans [OF w1 w2] have "\<exists>new. aw_log w' = aw_log w @ new \<and> validated hostname ce new"
    by (rule quiet_validated) (rule quiet.refl)
  with c(1,3) show ?thesis by (simp add: mk_proposal_def)
qed

lemma propose_validated:
  assumes "away home" "edit_packages original pkg add = Inr edited"
    and r: "propose (app_env flake hostname) add original pkg edited w = (Inr p, w')" "pr_ok p"
  shows "edit_packages original (pr_pkg p) add = Inr (pr_edited p) \<and>
    (\<exists>new. aw_log w' = aw_log w @ new \<and> validated hostname (pr_edited p) new)"
proof -
  let ?env = "app_env flake hostname"
  obtain f where f: "env_suggest ?env = Some f" by (simp add: app_env_def)
  obtain w1 valid diff w2 where w1: "quiet home w w1" and v: "validate ?env edited w1 = (Inr (valid, diff), w2)"
    and rest: "(if \<not> valid \<and> add then try_suggestion ?env f original pkg edited diff
            else ret (mk_proposal valid diff [] pkg edited)) w2 = (Inr p, w')"
    using r(1) f unfolding propose_def
    by (elim andthen_InrE) (auto dest: movesD [OF app_moves_status, of _ _ _ _ _ _ home])
  show ?thesis
  proof (cases "\<not> valid \<and> add")
    case True
    with rest have t: "try_suggestion ?env f original pkg edited diff w2 = (Inr p, w')" by simp
    have "quiet home w1 w2" using movesD [OF app_moves_validate [OF assms(1)] v] .
    with w1 have q: "quiet home w w2" by (rule quiet.trans)
    from try_suggestion_validated [OF assms(1) f t r(2)] show ?thesis
      using quiet_validated [OF q _ quiet.refl] True by simp
  next
    case False
    with rest r(2) have p: "p = mk_proposal True diff [] pkg edited" "w' = w2" valid
      by (auto simp: ret_def mk_proposal_def)
    then have "\<exists>new. aw_log w2 = aw_log w1 @ new \<and> validated hostname edited new"
      using validate_validated [OF assms(1)] v by simp
    from quiet_validated [OF w1 this quiet.refl] show ?thesis using p assms(2) by (simp add: mk_proposal_def)
  qed
qed

section \<open>After the consent\<close>

lemma app_env_calls:
  "env_confirm (app_env flake hostname) q v = (next_answer (Inr False) (aw_asked v),
     logged (Asked q (next_answer (Inr False) (aw_asked v))) (v\<lparr>aw_asked := tl (aw_asked v)\<rparr>))"
  "env_status (app_env flake hostname) t v = (next_answer (Inr ()) (aw_told v),
     logged (Told t (next_answer (Inr ()) (aw_told v))) (v\<lparr>aw_told := tl (aw_told v)\<rparr>))"
  "env_switch (app_env flake hostname) v = (case next_answer (Inr [], None) (aw_switches v) of
     (r, g) \<Rightarrow> (r, logged (Switched r g) (v\<lparr>aw_switches := tl (aw_switches v), aw_generation := g\<rparr>)))"
  "env_rollback (app_env flake hostname) = Some (\<lambda>v. (next_answer (Inr []) (aw_rollbacks v),
     logged (Rolled (next_answer (Inr []) (aw_rollbacks v))) (v\<lparr>aw_rollbacks := tl (aw_rollbacks v)\<rparr>)))"
  "system_generation (app_env flake hostname) v = aw_generation v"
  "home_path (app_env flake hostname) = path_join flake HOME_FILE"
  by (simp_all add: app_env_def app_files_def Let_def system_generation_def home_path_def)

text \<open>The rows of the protocol, from the answers of the status line, the switch and the rollback.\<close>

lemma apply_follows:
  assumes "apply_proposal (app_env flake hostname) add old p w = (r, w')"
    and home: "home = path_join flake HOME_FILE"
  shows "\<exists>rest after. aw_log w' = aw_log w @ Wrote home (pr_edited p) # rest \<and>
     aw_files w' home = Some after \<and>
     applied home old (aw_generation w) add (pr_pkg p) (pr_edited p) rest r after"
proof -
  note sims = apply_proposal_def recover_def roll_back_def home andthen_def try_nixadmin_def ret_def Let_def
    app_env_calls logged_def
  obtain sr g' where sw: "next_answer (Inr [], None) (aw_switches w) = (sr, g')" by (cases "next_answer (Inr [], None) (aw_switches w)")
  show ?thesis
  proof (cases "next_answer (Inr ()) (aw_told w)")
    case (Inl e)
    then show ?thesis using assms(1) by (auto simp: sims intro: applied.intros)
  next
    case told: (Inr u)
    show ?thesis
    proof (cases sr)
      case (Inr out)
      then show ?thesis using assms(1) told sw by (auto simp: sims intro: applied.intros)
    next
      case failed: (Inl e)
      show ?thesis
      proof (cases "is_nixadmin e")
        case False
        then show ?thesis using assms(1) told sw failed by (auto simp: sims intro: applied.intros)
      next
        case nix: True
        show ?thesis
        proof (cases "g' = aw_generation w")
          case True
          then show ?thesis using assms(1) told sw failed nix by (auto simp: sims intro: applied.intros)
        next
          case moved: False
          show ?thesis
          proof (cases "next_answer (Inr ()) (tl (aw_told w))")
            case (Inl e')
            then show ?thesis using assms(1) told sw failed nix moved by (auto simp: sims intro: applied.intros)
          next
            case (Inr u')
            show ?thesis
            proof (cases "next_answer (Inr []) (aw_rollbacks w)")
              case rb: (Inl re)
              show ?thesis
              proof (cases "is_nixadmin re")
                case True
                then show ?thesis using assms(1) told sw failed nix moved Inr rb
                  by (auto simp: sims intro: applied.intros)
              next
                case False
                have r: "r = Inl re" using assms(1) told sw failed nix moved Inr rb False by (simp add: sims)
                have "w' = snd (apply_proposal (app_env flake hostname) add old p w)" using assms(1) by simp
                then show ?thesis unfolding r using told sw failed nix moved Inr rb False
                  by (auto simp: sims intro!: applied.rollback_crashed)
              qed
            next
              case (Inr out)
              then show ?thesis using assms(1) told sw failed nix moved \<open>next_answer (Inr ()) (tl (aw_told w)) = Inr u'\<close>
                by (auto simp: sims intro: applied.intros)
            qed
          qed
        qed
      qed
    qed
  qed
qed

text \<open>A proposal that was not validated or not accepted leaves everything alone.\<close>

lemma ask_and_apply_refused:
  assumes "ask_and_apply (app_env flake hostname) add old p w1 = (r, w')"
    and "\<not> (pr_ok p \<and> next_answer (Inr False) (aw_asked w1) = Inr True)"
  shows "quiet home w1 w'"
  using assms by (auto simp: andthen_def ask_and_apply_def app_env_calls Let_def ret_def harmless_def
      split: sum.splits if_splits intro!: quiet_logged quiet.refl)

text \<open>A validated proposal that was accepted runs along the consented branch of the protocol.\<close>

lemma ask_and_apply_accepted:
  fixes flake
  defines "home \<equiv> path_join flake HOME_FILE"
  assumes home: "away home" and c: "aw_files w home = Some content"
    and ed: "edit_packages (universal_newlines content) target add = Inr ed"
    and pw: "propose (app_env flake hostname) add (universal_newlines content) target ed w = (Inr p, w1)"
    and p: "pr_ok p" and yes: "next_answer (Inr False) (aw_asked w1) = Inr True"
    and aa: "ask_and_apply (app_env flake hostname) add (universal_newlines content) p w1 = (r, w')"
  shows "\<exists>new. aw_log w' = aw_log w @ new \<and>
    app_protocol home hostname (aw_files w home) (aw_generation w) new r (aw_files w' home)"
proof -
  let ?old = "universal_newlines content"
  have q: "quiet home w w1" using movesD [OF app_moves_propose [OF home [unfolded home_def]] pw] by (simp add: home_def)
  from propose_validated [OF home [unfolded home_def] ed, where hostname = hostname and w = w and p = p and w' = w1] pw p
  have pe: "edit_packages ?old (pr_pkg p) add = Inr (pr_edited p)"
    and "\<exists>new. aw_log w1 = aw_log w @ new \<and> validated hostname (pr_edited p) new" by auto
  with q obtain pre where pre: "aw_log w1 = aw_log w @ pre" "validated hostname (pr_edited p) pre"
    "list_all (harmless home) pre" by (auto simp: quiet_def)
  define w2 where "w2 = logged (Asked (ask_text add p) (Inr True)) (w1\<lparr>aw_asked := tl (aw_asked w1)\<rparr>)"
  have "apply_proposal (app_env flake hostname) add ?old p w2 = (r, w')"
    using aa p yes by (simp add: andthen_def ask_and_apply_def app_env_calls Let_def w2_def)
  from apply_follows [OF this refl] obtain rest after where
    rest: "aw_log w' = aw_log w2 @ Wrote home (pr_edited p) # rest" "aw_files w' home = Some after"
      "applied home ?old (aw_generation w2) add (pr_pkg p) (pr_edited p) rest r after"
    unfolding home_def by blast
  have "aw_generation w2 = aw_generation w" using q by (simp add: w2_def logged_def quiet_def)
  then have "app_protocol home hostname (aw_files w home) (aw_generation w)
      (pre @ Asked (ask_text add p) (Inr True) # Wrote home (pr_edited p) # rest) r (Some after)"
    using app_protocol.consented [OF c pe pre(3,2)] rest(3) by simp
  with rest(1,2) pre(1) show ?thesis by (auto simp: w2_def logged_def)
qed

section \<open>Property\<close>

text \<open>
  C3: An app action follows the protocol, whatever commands, people and the helper answer. Unless
  somebody said yes to the question asked, nothing outside temporary worktrees is written and
  no switch is asked for. After a yes the text written is the edit, for the package reported,
  of the text the file held, and it had been evaluated successfully in a worktree; then comes
  exactly one of the rows of \<open>applied\<close>: success is reported only after a successful switch,
  a failed switch puts the old text back before anything else, and the system is rolled back
  exactly when its generation moved.
\<close>

theorem app_action_follows_protocol:
  assumes "away (path_join flake HOME_FILE)"
  shows "case run_app_action (app_env flake hostname) action w of (r, w') \<Rightarrow>
    \<exists>new. aw_log w' = aw_log w @ new \<and>
      app_protocol (path_join flake HOME_FILE) hostname (aw_files w (path_join flake HOME_FILE))
        (aw_generation w) new r (aw_files w' (path_join flake HOME_FILE))"
proof -
  let ?env = "app_env flake hostname" and ?home = "path_join flake HOME_FILE" and ?add = "act_kind action = Install_app"
  obtain r w' where run: "run_app_action ?env action w = (r, w')" by (cases "run_app_action ?env action w")
  have hp: "home_path ?env = ?home" by (simp add: home_path_def)
  have idle: ?thesis if "quiet ?home w w'"
    using that run by (auto simp: quiet_def intro: app_protocol.untouched)
  show ?thesis
  proof (cases "\<exists>content ed. aw_files w ?home = Some content \<and> act_target action \<noteq> [] \<and>
      edit_packages (universal_newlines content) (act_target action) ?add = Inr ed \<and>
      ed \<noteq> universal_newlines content")
    case False
    then have "w' = w"
      using run by (auto simp: run_app_action_def Let_def hp ret_def andthen_def read_text_def app_files_def
          split: if_splits sum.splits option.splits)
    then show ?thesis using idle quiet.refl by simp
  next
    case True
    then obtain content ed where c: "aw_files w ?home = Some content" "act_target action \<noteq> []"
      and ed: "edit_packages (universal_newlines content) (act_target action) ?add = Inr ed"
        "ed \<noteq> universal_newlines content" by blast
    let ?old = "universal_newlines content"
    have step: "andthen (propose ?env ?add ?old (act_target action) ed) (ask_and_apply ?env ?add ?old) w = (r, w')"
      using run c ed by (simp add: run_app_action_def Let_def hp ret_def andthen_def read_text_def app_files_def)
    show ?thesis
    proof (cases "propose ?env ?add ?old (act_target action) ed w")
      case pw: (Pair pr w1)
      have q: "quiet ?home w w1" using movesD [OF app_moves_propose [OF assms] pw] .
      show ?thesis
      proof (cases pr)
        case (Inl e)
        with step pw q show ?thesis by (intro idle) (simp add: andthen_def)
      next
        case (Inr p)
        then have aa: "ask_and_apply ?env ?add ?old p w1 = (r, w')" using step pw by (simp add: andthen_def)
        show ?thesis
        proof (cases "pr_ok p \<and> next_answer (Inr False) (aw_asked w1) = Inr True")
          case False
          from ask_and_apply_refused [OF aa False] q show ?thesis by (intro idle) (rule quiet.trans)
        next
          case True
          with ask_and_apply_accepted [OF assms c(1) ed(1) pw [unfolded Inr] _ _ aa] run show ?thesis by simp
        qed
      qed
    qed
  qed
qed

definition nixos_flake :: pystr where "nixos_flake = ''/etc/nixos''"

definition sample_world :: app_world where
  "sample_world = \<lparr>aw_files = [path_join nixos_flake HOME_FILE \<mapsto> sample_home], aw_dirs = [], aw_temp = 0,
     aw_generation = Some ''system-1'', aw_alive = [],
     aw_answers = [Exited (Some 0) [], Exited (Some 0) [], Exited (Some 0) ''+ htop'', Exited (Some 0) []],
     aw_told = [], aw_asked = [Inr True], aw_switches = [(Inr ''switched'', Some ''system-2'')],
     aw_rollbacks = [], aw_suggestions = [], aw_log = []\<rparr>"

lemma app_action_follows_protocol_witness:
  "away (path_join nixos_flake HOME_FILE) \<and>
   (case run_app_action (app_env nixos_flake ''pc'') (mk_action Install_app ''htop'') sample_world of (r, w') \<Rightarrow>
      app_protocol (path_join nixos_flake HOME_FILE) ''pc'' (Some sample_home) (Some ''system-1'') (aw_log w') r
        (aw_files w' (path_join nixos_flake HOME_FILE)))"
proof -
  have a: "away (path_join nixos_flake HOME_FILE)" by code_simp
  have w: "aw_log sample_world = []" "aw_generation sample_world = Some ''system-1''"
    "aw_files sample_world (path_join nixos_flake HOME_FILE) = Some sample_home"
    by (simp_all add: sample_world_def)
  from app_action_follows_protocol [OF a, where hostname = "''pc''"
      and action = "mk_action Install_app ''htop''" and w = sample_world] a
  show ?thesis by (auto simp: w split: prod.splits)
qed

section \<open>Clean-up after dead processes\<close>

definition dead_owner :: "pystr \<Rightarrow> app_world \<Rightarrow> pystr \<Rightarrow> bool" where
  "dead_owner repo w d \<longleftrightarrow> (\<exists>t. aw_files w (worktree_marker d) = Some t \<and>
     abandoned app_files repo (universal_newlines t) w = Inr True)"

text \<open>Steps that remove no directory and touch no file.\<close>

definition undisturbed :: "app_world \<Rightarrow> app_world \<Rightarrow> bool" where
  "undisturbed u v \<longleftrightarrow> aw_files v = aw_files u \<and> aw_alive v = aw_alive u \<and>
     (\<exists>new. aw_log v = aw_log u @ new \<and> list_all (\<lambda>ev. \<forall>d. ev \<noteq> Removed d) new)"

interpretation undisturbed: state_order undisturbed
proof
  show "undisturbed w w" for w
    by (auto simp: undisturbed_def intro: exI [of _ "[]"])
  show "undisturbed u v \<Longrightarrow> undisturbed v w \<Longrightarrow> undisturbed u w" for u v w
    by (auto simp: undisturbed_def)
qed

lemma undisturbed_git: "moves undisturbed (git_in app_host repo args)"
  unfolding git_in_def
  by (intro undisturbed.moves_run_checked)
    (auto simp: app_host_def app_spawn_def Let_def undisturbed_def logged_def)

text \<open>What is removed is owned by the dead, judged by the files at the start (\<open>w0\<close>).\<close>

definition removes_dead :: "pystr \<Rightarrow> app_world \<Rightarrow> app_event \<Rightarrow> bool" where
  "removes_dead repo w0 ev \<longleftrightarrow> (case ev of Removed d \<Rightarrow> dead_owner repo w0 d | _ \<Rightarrow> True)"

definition fewer_files :: "app_world \<Rightarrow> app_world \<Rightarrow> bool" where
  "fewer_files w0 w \<longleftrightarrow> aw_alive w = aw_alive w0 \<and> aw_files w \<subseteq>\<^sub>m aw_files w0"

definition prunes :: "pystr \<Rightarrow> app_world \<Rightarrow> app_world \<Rightarrow> app_world \<Rightarrow> bool" where
  "prunes repo w0 u v \<longleftrightarrow> fewer_files w0 v \<and>
     (\<exists>new. aw_log v = aw_log u @ new \<and> list_all (removes_dead repo w0) new)"

lemma prunes_trans: "prunes repo w0 u v \<Longrightarrow> prunes repo w0 v w \<Longrightarrow> prunes repo w0 u w"
  by (auto simp: prunes_def)

lemma prunes_undisturbed: "undisturbed u v \<Longrightarrow> fewer_files w0 u \<Longrightarrow> prunes repo w0 u v"
  by (auto simp: undisturbed_def prunes_def fewer_files_def removes_dead_def list_all_iff
      split: app_event.splits)

lemma abandoned_cong: "aw_alive v = aw_alive w \<Longrightarrow> abandoned app_files repo t v = abandoned app_files repo t w"
  by (auto simp: abandoned_def pid_alive_def app_files_def split: option.splits json.splits)

lemma app_read_text:
  "read_text app_files p w = (case aw_files w p of None \<Rightarrow> Inl (Foreign ''FileNotFoundError'' p)
     | Some t \<Rightarrow> Inr (universal_newlines t), w)"
  by (simp add: read_text_def andthen_def ret_def app_files_def split: option.split)

lemma owner_is_dead_world: "snd (owner_is_dead app_files repo d w) = w"
  by (auto simp: owner_is_dead_def app_read_text split: option.split)

lemma owner_is_dead_True:
  assumes "owner_is_dead app_files repo d w = (Inr True, w')" "fewer_files w0 w"
  shows "dead_owner repo w0 d"
proof -
  obtain t where t: "aw_files w (worktree_marker d) = Some t"
    and dead: "abandoned app_files repo (universal_newlines t) w = Inr True"
    using assms(1) by (auto simp: owner_is_dead_def app_read_text split: option.splits)
  from assms(2) have f: "aw_alive w0 = aw_alive w" "aw_files w \<subseteq>\<^sub>m aw_files w0"
    by (simp_all add: fewer_files_def)
  have "aw_files w0 (worktree_marker d) = Some t"
    using f(2) t by (auto simp: map_le_def dom_def)
  moreover have "abandoned app_files repo (universal_newlines t) w0 = Inr True"
    using abandoned_cong [OF f(1)] dead by simp
  ultimately show ?thesis by (auto simp: dead_owner_def)
qed

lemma prunes_discard:
  assumes "dead_owner repo w0 d" "fewer_files w0 w"
  shows "prunes repo w0 w (snd (discard_worktree app_files app_host flake d w))"
proof -
  obtain r v where t: "tolerate (git_in app_host flake [''worktree'', ''remove'', ''--force'', d]) w = (r, v)"
    by (cases "tolerate (git_in app_host flake [''worktree'', ''remove'', ''--force'', d]) w")
  have v: "prunes repo w0 w v"
    using movesD [OF undisturbed.moves_tolerate [OF undisturbed_git] t] assms(2) by (rule prunes_undisturbed)
  moreover have "prunes repo w0 v (fs_unlink app_files (worktree_marker d) (fs_rmtree app_files d v))"
    using v assms(1)
    by (auto simp: prunes_def app_files_def logged_def removes_dead_def fewer_files_def map_le_def)
  ultimately show ?thesis
    using t prunes_trans by (cases r) (auto simp: discard_worktree_def andthen_def do_world_def)
qed

lemma prunes_candidates:
  "fewer_files w0 w \<Longrightarrow> prunes repo w0 w (snd (prune_candidates app_files app_host flake repo cs n w))"
proof (induction cs arbitrary: w n)
  case Nil
  then show ?case by (auto simp: ret_def prunes_def intro: exI [of _ "[]"])
next
  case (Cons d cs)
  obtain r where o: "owner_is_dead app_files repo d w = (r, w)"
    using owner_is_dead_world by (metis prod.collapse)
  have stay: "prunes repo w0 w w" using Cons.prems by (auto simp: prunes_def intro: exI [of _ "[]"])
  show ?case
  proof (cases "fs_is_dir app_files d w \<and> r = Inr True")
    case False
    then show ?thesis
      using Cons o stay by (cases r) (auto simp: andthen_def)
  next
    case True
    then have dead: "dead_owner repo w0 d" using owner_is_dead_True [of repo d w w w0] o Cons.prems by auto
    obtain x v where d: "discard_worktree app_files app_host flake d w = (x, v)"
      by (cases "discard_worktree app_files app_host flake d w")
    have v: "prunes repo w0 w v" using prunes_discard [OF dead Cons.prems, of flake] d by simp
    then have "prunes repo w0 v (snd (prune_candidates app_files app_host flake repo cs (n + 1) v))"
      using Cons.IH by (simp add: prunes_def)
    with v True o d show ?thesis
      by (cases x) (auto simp: andthen_def intro: prunes_trans)
  qed
qed


end
