(* ===== verification/Local_LLM.thy ===== *)
theory Local_LLM
  imports Module_Registry Protocol
begin

text \<open>
  \<^verbatim>\<open>llm/local.py\<close>: the on-device model behind Ollama's HTTP interface. The HTTP client is a
  parameter: a record of calls over the world. A request fails with a text, or gives a status
  and a body; \<^verbatim>\<open>raise_for_status\<close> accepts the statuses from 200 to 299. The prompts, the
  parsing of replies and what each operation makes of failures are the code's.
\<close>

section \<open>The HTTP client\<close>

datatype http_reply = Request_failed pystr | Response int pystr

text \<open>
  A streamed reply: the status, the lines in order, and how the stream ends: \<open>None\<close> is its
  end, a text is an \<^verbatim>\<open>httpx.HTTPError\<close> while reading.
\<close>

datatype stream_reply = Stream_failed pystr | Stream int "pystr list" "pystr option"

record 'w http =
  http_get :: "pystr \<Rightarrow> real \<Rightarrow> 'w \<Rightarrow> http_reply \<times> 'w"
  http_post :: "pystr \<Rightarrow> json \<Rightarrow> real \<Rightarrow> 'w \<Rightarrow> http_reply \<times> 'w"
  http_stream :: "pystr \<Rightarrow> json \<Rightarrow> real \<Rightarrow> 'w \<Rightarrow> stream_reply \<times> 'w"
  status_error :: "int \<Rightarrow> pystr"

definition is_success :: "int \<Rightarrow> bool" where
  "is_success status \<longleftrightarrow> 200 \<le> status \<and> status \<le> 299"

text \<open>Where a model runs: \<^verbatim>\<open>cfg.local_model\<close> and \<^verbatim>\<open>cfg.local_url\<close>.\<close>

record backend =
  bk_model :: pystr
  bk_url :: pystr

section \<open>Prompts and replies\<close>

definition CLASSIFY_TIMEOUT :: real where "CLASSIFY_TIMEOUT = 2"
definition COLD_CLASSIFY_TIMEOUT :: real where "COLD_CLASSIFY_TIMEOUT = 60"

definition LOCAL_SYSTEM_PROMPT :: pystr where
  "LOCAL_SYSTEM_PROMPT =
     ''You are a sysadmin assistant for a non-technical user. Use ONLY the inline ''
     @ ''system data to answer; never mention where it came from; never invent details.''
     @ [newline] @ ''If everything is fine: answer in ONE short sentence ''
     @ ''(e.g. 'Yes, your WiFi is connected and the internet is working.').''
     @ [newline] @ ''If something is wrong: in at most THREE short sentences say (1) what is wrong, ''
     @ ''(2) why '' @ [emdash] @ '' quote the specific error or cause from the data, and (3) the most ''
     @ ''likely fix in plain words. No lists, no jargon.''
     @ [newline] @ ''Never make changes unless explicitly asked.''"

definition build_classify_prompt :: "pystr \<Rightarrow> module list \<Rightarrow> pystr" where
  "build_classify_prompt query mods =
     (let descriptions = join [newline] (map (\<lambda>m. ''- '' @ md_name m @ '': '' @ md_description m) mods)
      in ''Which categories match this question? Reply with ONLY a comma-separated ''
         @ ''list of matching names, or the word 'none'.'' @ [newline, newline]
         @ ''Categories:'' @ [newline] @ descriptions @ [newline, newline] @ ''Question: '' @ query)"

definition parse_classify_response :: "pystr \<Rightarrow> module list \<Rightarrow> module list" where
  "parse_classify_response reply mods =
     (let txt = lower (strip reply) in filter (\<lambda>m. contains (lower (md_name m)) txt) mods)"

definition build_escalate_prompt :: "pystr \<Rightarrow> pystr" where
  "build_escalate_prompt query =
     ''You are an on-device assistant with tools to inspect and change THIS ''
     @ ''NixOS laptop (system state, installed apps, services). Decide if you can ''
     @ ''handle the user's request confidently on your own, or whether it needs a ''
     @ ''more capable cloud assistant (e.g. broad general knowledge, web lookups, ''
     @ ''or reasoning beyond this machine's own state).'' @ [newline]
     @ ''Reply with ONLY one word: LOCAL (you can handle it) or ESCALATE (it needs ''
     @ ''the cloud assistant).'' @ [newline, newline] @ ''Request: '' @ query"

definition parse_escalate_response :: "pystr \<Rightarrow> bool" where
  "parse_escalate_response reply \<longleftrightarrow> contains ''escalate'' (lower (strip reply))"

definition build_redact_prompt :: "pystr \<Rightarrow> pystr" where
  "build_redact_prompt txt =
     ''Rewrite the following request so it contains NO personal or sensitive ''
     @ ''information (names, people, locations, identifiers, file contents, ''
     @ ''credentials), while preserving the technical intent so another assistant ''
     @ ''could still act on it. Output ONLY the rewritten request, nothing else.''
     @ [newline, newline] @ ''Request: '' @ txt"

definition augment :: "pystr \<Rightarrow> pystr \<Rightarrow> pystr" where
  "augment query context_text =
     (if context_text = [] then query
      else query @ [newline, newline]
        @ ''[Live system data '' @ [emdash] @ '' use this to answer directly, do not run these commands ''
        @ ''again:]'' @ [newline] @ context_text)"

section \<open>Requests\<close>

definition generate_body :: "pystr \<Rightarrow> pystr \<Rightarrow> int \<Rightarrow> json" where
  "generate_body model prompt num_predict =
     JObj [(''model'', JStr model), (''prompt'', JStr prompt), (''stream'', JBool False),
           (''options'', JObj [(''num_predict'', JInt num_predict), (''temperature'', JInt 0)])]"

text \<open>
  \<^verbatim>\<open>r.json().get("response", "")\<close> after \<^verbatim>\<open>raise_for_status\<close>, used as a string: \<open>None\<close>
  stands for the exceptions on the way, all of which the callers catch alike.
\<close>

definition response_text :: "http_reply \<Rightarrow> pystr option" where
  "response_text reply =
     (case reply of
        Request_failed msg \<Rightarrow> None
      | Response status body \<Rightarrow>
          (if \<not> is_success status then None
           else (case loads body of
               Some (JObj kvs) \<Rightarrow>
                 (case the_default (JStr []) (map_of kvs ''response'') of JStr s \<Rightarrow> Some s | _ \<Rightarrow> None)
             | _ \<Rightarrow> None)))"

definition generate :: "'w http \<Rightarrow> backend \<Rightarrow> pystr \<Rightarrow> int \<Rightarrow> real \<Rightarrow> 'w \<Rightarrow> pystr option \<times> 'w" where
  "generate net b prompt num_predict timeout_s w =
     (let (reply, w') = http_post net (bk_url b @ ''/api/generate'')
                          (generate_body (bk_model b) prompt num_predict) timeout_s w
      in (response_text reply, w'))"

text \<open>The names of the running models; an entry that is no object, or whose name cannot be hashed, raises.\<close>

definition unhashable :: "json \<Rightarrow> bool" where
  "unhashable j \<longleftrightarrow> (case j of JArr _ \<Rightarrow> True | JObj _ \<Rightarrow> True | _ \<Rightarrow> False)"

fun running_names :: "json list \<Rightarrow> json list option" where
  "running_names [] = Some []"
| "running_names (JObj m # ms) =
     (let name = the_default (JStr []) (map_of m ''name'')
      in if unhashable name then None else map_option ((#) name) (running_names ms))"
| "running_names (_ # ms) = None"

definition models_of :: "http_reply \<Rightarrow> json list option" where
  "models_of reply =
     (case reply of
        Request_failed msg \<Rightarrow> None
      | Response status body \<Rightarrow>
          (if \<not> is_success status then None
           else (case loads body of
               Some (JObj kvs) \<Rightarrow>
                 (case the_default (JArr []) (map_of kvs ''models'') of
                    JArr ms \<Rightarrow> running_names ms
                  | JStr [] \<Rightarrow> Some []
                  | JObj [] \<Rightarrow> Some []
                  | _ \<Rightarrow> None)
             | _ \<Rightarrow> None)))"

definition is_ready :: "'w http \<Rightarrow> backend \<Rightarrow> 'w \<Rightarrow> bool \<times> 'w" where
  "is_ready net b w =
     (let (reply, w') = http_get net (bk_url b @ ''/api/ps'') 2 w
      in (case models_of reply of None \<Rightarrow> False | Some ns \<Rightarrow> JStr (bk_model b) \<in> set ns, w'))"

definition classify :: "'w http \<Rightarrow> backend \<Rightarrow> pystr \<Rightarrow> module list \<Rightarrow> real \<Rightarrow> 'w \<Rightarrow> module list \<times> 'w" where
  "classify net b query mods timeout_s w =
     (let (reply, w') = generate net b (build_classify_prompt query mods) 20 timeout_s w
      in (case reply of None \<Rightarrow> [] | Some r \<Rightarrow> parse_classify_response r mods, w'))"

definition judge_prompt :: "pystr \<Rightarrow> pystr list \<Rightarrow> pystr" where
  "judge_prompt query candidates =
     ''A user typed '' @ [CHR 0x27] @ query @ [CHR 0x27] @ '' to install an app. Which of these real nixpkgs ''
     @ ''packages did they most likely mean? Reply with ONLY the exact package name ''
     @ ''from the list, or 'none'.'' @ [newline] @ ''Options: '' @ join '', '' candidates"

text \<open>The candidate the reply names: the first equal to it, else the first that occurs in it.\<close>

definition pick_candidate :: "pystr \<Rightarrow> pystr list \<Rightarrow> pystr" where
  "pick_candidate reply candidates =
     (case find (\<lambda>c. lower c = reply) candidates of
        Some c \<Rightarrow> c
      | None \<Rightarrow> the_default [] (find (\<lambda>c. contains (lower c) reply) candidates))"

definition judge_package :: "'w http \<Rightarrow> backend \<Rightarrow> pystr \<Rightarrow> pystr list \<Rightarrow> 'w \<Rightarrow> pystr \<times> 'w" where
  "judge_package net b query candidates w =
     (if candidates = [] then ([], w)
      else (let (reply, w') = generate net b (judge_prompt query candidates) 16 10 w
            in (case reply of None \<Rightarrow> [] | Some r \<Rightarrow> pick_candidate (lower (strip r)) candidates, w')))"

definition assess_escalation :: "'w http \<Rightarrow> backend \<Rightarrow> pystr \<Rightarrow> 'w \<Rightarrow> bool \<times> 'w" where
  "assess_escalation net b query w =
     (let (reply, w') = generate net b (build_escalate_prompt query) 4 10 w
      in (case reply of None \<Rightarrow> False | Some r \<Rightarrow> parse_escalate_response r, w'))"

definition redact_rewrite :: "'w http \<Rightarrow> backend \<Rightarrow> pystr \<Rightarrow> ('w, pystr) act" where
  "redact_rewrite net b txt w =
     (let (reply, w') = generate net b (build_redact_prompt txt) 256 20 w
      in (Inr (case reply of None \<Rightarrow> txt | Some r \<Rightarrow> if strip r \<noteq> [] then strip r else txt), w'))"

section \<open>Streaming an answer\<close>

text \<open>One decoded chunk: its piece of the answer and whether it is the last.\<close>

definition chunk_delta :: "json \<Rightarrow> exn + json \<times> bool" where
  "chunk_delta chunk =
     (case chunk of
        JObj kvs \<Rightarrow>
          (case the_default (JObj []) (map_of kvs ''message'') of
             JObj m \<Rightarrow> Inr (the_default (JStr []) (map_of m ''content''),
                          truthy (the_default JNull (map_of kvs ''done'')))
           | j \<Rightarrow> Inl (no_get j))
      | j \<Rightarrow> Inl (no_get j))"

text \<open>
  The generator together with the loop that consumes it: \<open>emit\<close> is what the caller does with
  a piece, \<open>answer\<close> what it has put together. A piece that is no string cannot be appended.
\<close>

definition consume ::
  "(pystr \<Rightarrow> ('w, unit) act) \<Rightarrow> pystr \<Rightarrow> json \<Rightarrow> ('w, pystr) act" where
  "consume emit answer delta =
     (if \<not> truthy delta then ret answer
      else (case delta of
          JStr s \<Rightarrow> andthen (emit s) (\<lambda>_. ret (answer @ s))
        | j \<Rightarrow> raise (Foreign ''TypeError''
                  (''can only concatenate str (not '' @ [CHR 0x22] @ type_name j @ [CHR 0x22] @ '') to str''))))"

fun stream_answer ::
  "py_texts \<Rightarrow> (pystr \<Rightarrow> ('w, unit) act) \<Rightarrow> pystr \<Rightarrow> pystr list \<Rightarrow> pystr option \<Rightarrow> ('w, pystr) act" where
  "stream_answer py emit answer [] fin =
     (case fin of None \<Rightarrow> ret answer
      | Some msg \<Rightarrow> raise (BackendError (''local model request failed: '' @ msg)))"
| "stream_answer py emit answer (line # ls) fin =
     (if strip line = [] then stream_answer py emit answer ls fin
      else (case loads line of
          None \<Rightarrow> raise (Foreign ''JSONDecodeError'' (json_error py line))
        | Some chunk \<Rightarrow>
            (case chunk_delta chunk of
               Inl e \<Rightarrow> raise e
             | Inr (delta, is_last) \<Rightarrow>
                 andthen (consume emit answer delta) (\<lambda>answer'.
                   if is_last then ret answer' else stream_answer py emit answer' ls fin))))"

definition chat_body :: "pystr \<Rightarrow> pystr \<Rightarrow> json" where
  "chat_body model msg =
     JObj [(''model'', JStr model),
           (''messages'', JArr [
              JObj [(''role'', JStr ''system''), (''content'', JStr LOCAL_SYSTEM_PROMPT)],
              JObj [(''role'', JStr ''user''), (''content'', JStr msg)]]),
           (''stream'', JBool True)]"

definition summarize ::
  "'w http \<Rightarrow> py_texts \<Rightarrow> backend \<Rightarrow> pystr \<Rightarrow> (pystr \<Rightarrow> ('w, unit) act) \<Rightarrow> ('w, pystr) act" where
  "summarize net py b msg emit w =
     (case http_stream net (bk_url b @ ''/api/chat'') (chat_body (bk_model b) msg) 120 w of
        (Stream_failed m, w') \<Rightarrow> raise (BackendError (''local model request failed: '' @ m)) w'
      | (Stream status ls fin, w') \<Rightarrow>
          (if \<not> is_success status
           then raise (BackendError (''local model request failed: '' @ status_error net status)) w'
           else stream_answer py emit [] ls fin w'))"

section \<open>What the model's replies can do\<close>

lemma find_in_set: "find P xs = Some x \<Longrightarrow> x \<in> set xs \<and> P x"
  by (induction xs) (auto split: if_splits)

lemma pick_candidate_in: "pick_candidate r cs \<in> insert [] (set cs)"
  by (auto simp: pick_candidate_def the_default_def split: option.split dest: find_in_set)

text \<open>A network on which no request is answered with a usable text.\<close>

definition unusable :: "'w http \<Rightarrow> bool" where
  "unusable net \<longleftrightarrow> (\<forall>url body t w. response_text (fst (http_post net url body t w)) = None)"

lemma generate_unusable: "unusable net \<Longrightarrow> fst (generate net b p n t w) = None"
  by (simp add: unusable_def generate_def split: prod.split) (metis fst_conv)

text \<open>
  Pieces handed on during a stream: the log of a client that keeps what it is shown.
\<close>

definition show_piece :: "pystr \<Rightarrow> ('w \<times> pystr list, unit) act" where
  "show_piece s = (\<lambda>(w, shown). (Inr (), (w, shown @ [s])))"

definition stream_error :: "exn \<Rightarrow> bool" where
  "stream_error e \<longleftrightarrow> (case e of BackendError m \<Rightarrow> startswith ''local model request failed: '' m
     | Foreign cls m \<Rightarrow> cls \<in> {''JSONDecodeError'', ''AttributeError'', ''TypeError''} | _ \<Rightarrow> False)"

lemma show_piece_simp: "show_piece s (w, shown) = (Inr (), (w, shown @ [s]))"
  by (simp add: show_piece_def)

lemma chunk_delta_error: "chunk_delta j = Inl e \<Longrightarrow> stream_error e"
  by (auto simp: chunk_delta_def no_get_def stream_error_def split: json.splits)

lemma stream_answer_shown:
  "stream_answer py show_piece answer ls fin (w, shown) = (r, w', shown') \<Longrightarrow>
     concat shown = answer \<Longrightarrow>
     w' = w \<and> (\<exists>new. shown' = shown @ new \<and> [] \<notin> set new) \<and>
     (case r of Inr a \<Rightarrow> concat shown' = a | Inl e \<Rightarrow> stream_error e)"
proof (induction ls arbitrary: answer shown)
  case Nil
  then show ?case
    by (auto simp: host_simps stream_error_def startswith_iff split: option.splits)
next
  case (Cons line ls)
  show ?case
  proof (cases "strip line = [] \<or> loads line = None \<or> (\<exists>j e. loads line = Some j \<and> chunk_delta j = Inl e)")
    case True
    consider (blank) "strip line = []" | (bad) "strip line \<noteq> []" "loads line = None"
      | (odd) j e where "strip line \<noteq> []" "loads line = Some j" "chunk_delta j = Inl e"
      using True by (cases "strip line = []"; cases "loads line"; auto)
    then show ?thesis
    proof cases
      case blank
      then show ?thesis using Cons by simp
    next
      case bad
      then show ?thesis using Cons.prems by (auto simp: raise_def stream_error_def)
    next
      case odd
      then show ?thesis using Cons.prems chunk_delta_error [OF odd(3)] by (auto simp: raise_def)
    qed
  next
    case False
    then obtain j delta is_last where j: "strip line \<noteq> []" "loads line = Some j"
      "chunk_delta j = Inr (delta, is_last)"
      by (metis not_None_eq old.sum.exhaust surj_pair)
    show ?thesis
    proof (cases "\<not> truthy delta")
      case True
      then show ?thesis using Cons j by (auto simp: consume_def host_simps split: if_splits)
    next
      case False
      then show ?thesis
      proof (cases delta)
        case (JStr s)
        with False have s: "s \<noteq> []" by simp
        show ?thesis
        proof (cases is_last)
          case True
          then show ?thesis using Cons.prems j False JStr s
            by (auto simp: consume_def andthen_def ret_def show_piece_simp)
        next
          case more: False
          have "stream_answer py show_piece (answer @ s) ls fin (w, shown @ [s]) = (r, w', shown')"
            using Cons.prems j False JStr more by (auto simp: consume_def andthen_def ret_def show_piece_simp)
          from Cons.IH [OF this] Cons.prems(2) s show ?thesis by (auto split: sum.splits)
        qed
      qed (use Cons.prems j in \<open>auto simp: consume_def host_simps andthen_def raise_def stream_error_def ret_def\<close>)
    qed
  qed
qed

section \<open>Properties\<close>

text \<open>
   The model chooses only among what it is given: the modules of a classification are some of
  the daemon's, in the daemon's order, and a judged package is one of the candidates or none;
  a rewriting is never empty unless the text was.
\<close>

theorem model_choices_confined:
  "subseq (fst (classify net b query mods t w)) mods \<and>
   fst (judge_package net b query candidates w) \<in> insert [] (set candidates) \<and>
   (\<exists>txt'. fst (redact_rewrite net b txt w) = Inr txt' \<and> (if txt = [] then True else 0 < length txt'))"
proof (intro conjI)
  show "subseq (fst (classify net b query mods t w)) mods"
    by (auto simp: classify_def parse_classify_response_def Let_def split: prod.split option.split)
  show "fst (judge_package net b query candidates w) \<in> insert [] (set candidates)"
    using pick_candidate_in [of _ candidates]
    by (auto simp: judge_package_def split: prod.split option.split)
  show "\<exists>txt'. fst (redact_rewrite net b txt w) = Inr txt' \<and> (if txt = [] then True else 0 < length txt')"
    by (auto simp: redact_rewrite_def split: prod.split option.split)
qed

text \<open>
  C31: A model that cannot be reached, answers with an error status or with anything but an object
  with a text pushes nothing off the device: nothing matches, nothing is suggested, nothing is
  escalated, and the redaction keeps the scrubbed text.
\<close>

theorem model_failure_stays_local:
  assumes "unusable net"
  shows "fst (classify net b query mods t w) = [] \<and>
         fst (judge_package net b query candidates w) = [] \<and>
         \<not> fst (assess_escalation net b query w) \<and>
         fst (redact_rewrite net b txt w) = Inr txt"
proof -
  have none: "r = None" if "generate net b p n tm v = (r, v')" for p n tm v r v'
    using generate_unusable [OF assms, of b p n tm v] that by simp
  show ?thesis
    by (intro conjI)
      (auto simp: classify_def judge_package_def assess_escalation_def redact_rewrite_def
        dest: none split: prod.split option.split)
qed

definition dead_net :: "unit http" where
  "dead_net = \<lparr>http_get = (\<lambda>_ _ w. (Request_failed ''refused'', w)),
     http_post = (\<lambda>_ _ _ w. (Response 500 ''{}'', w)),
     http_stream = (\<lambda>_ _ _ w. (Stream_failed ''refused'', w)), status_error = show_int\<rparr>"

lemma model_failure_stays_local_witness:
  "unusable dead_net \<and>
   \<not> fst (assess_escalation dead_net \<lparr>bk_model = ''m'', bk_url = ''u''\<rparr> ''what is up'' ())"
proof -
  have "unusable dead_net"
    by (simp add: unusable_def dead_net_def response_text_def is_success_def)
  with model_failure_stays_local [OF this, of "\<lparr>bk_model = ''m'', bk_url = ''u''\<rparr>" "''what is up''"]
  show ?thesis by blast
qed

text \<open>
   What the client is shown is the answer: the pieces handed on are never empty and put
  together they are the answer that is recorded; when the stream breaks the error is the
  backend's, or tells that a chunk was malformed.
\<close>

theorem streamed_pieces_are_the_answer:
  "case stream_answer py show_piece [] ls fin (w, []) of
     (r, w', shown) \<Rightarrow> [] \<notin> set shown \<and>
       (case r of Inr a \<Rightarrow> concat shown = a | Inl e \<Rightarrow> stream_error e)"
  using stream_answer_shown [of py "[]" ls fin w "[]"] by (auto split: prod.split)

text \<open>
  A reply is taken for a request to escalate when the word occurs anywhere in it, also in a
  reply that says the opposite.
\<close>

lemma hedged_local_escalates: "parse_escalate_response ''LOCAL (no need to escalate)''"
  by code_simp

end
