(* ===== verification/Remote_LLM.thy ===== *)
theory Remote_LLM
  imports Module_Registry Py_Json Act_Rules
begin

text \<open>
  \<^verbatim>\<open>llm/remote.py\<close>: the agent loop over a remote model with tools. The completion interface
  (LiteLLM) is a parameter: a function from a request to a stream of chunks, each with a
  piece of text and fragments of tool calls, that ends or breaks. The loop goes on as long as
  the model asks for tools, so it need not end; it is a partial function, and \<open>None\<close> is a run
  without end.
\<close>

section \<open>Partial effects\<close>

type_synonym ('w, 'a) pact = "'w \<Rightarrow> ((exn + 'a) \<times> 'w) option"

definition total :: "('w, 'a) act \<Rightarrow> ('w, 'a) pact" where
  "total m w = Some (m w)"

definition pthen :: "('w, 'a) pact \<Rightarrow> ('a \<Rightarrow> ('w, 'b) pact) \<Rightarrow> ('w, 'b) pact" where
  "pthen m f w =
     (case m w of
        None \<Rightarrow> None
      | Some (Inl e, w') \<Rightarrow> Some (Inl e, w')
      | Some (Inr x, w') \<Rightarrow> f x w')"

lemma pthen_total: "pthen (total m) (\<lambda>x. total (f x)) = total (andthen m f)"
  by (auto simp: pthen_def total_def andthen_def fun_eq_iff split: prod.split sum.split)

section \<open>Prompts and tools\<close>

definition REMOTE_SYSTEM_PROMPT :: pystr where
  "REMOTE_SYSTEM_PROMPT =
     ''You are an AI system administrator for a NixOS laptop. The user is non-technical.'' @ [newline]
     @ ''Questions: run tools to gather data, then give ONE short, plain-language summary.'' @ [newline]
     @ ''Changes: only when explicitly asked. Never act on a question.'' @ [newline]
     @ ''Run tools silently; do not narrate what you are about to do.''"

definition REBUILD_TOOL :: json where
  "REBUILD_TOOL = JObj [(''type'', JStr ''function''), (''function'', JObj [
     (''name'', JStr ''nixadmin_rebuild''),
     (''description'', JStr ''Rebuild the NixOS configuration. Always 'test' before 'switch'.''),
     (''parameters'', JObj [
        (''type'', JStr ''object''),
        (''properties'', JObj [(''action'', JObj [(''type'', JStr ''string''),
           (''enum'', JArr (map JStr [''test'', ''switch'', ''boot'', ''revert'']))])]),
        (''required'', JArr [JStr ''action''])])])]"

definition tool_name :: "module \<Rightarrow> fetcher \<Rightarrow> pystr" where
  "tool_name m f = md_name m @ ''_'' @ ft_name f"

definition fetcher_tool :: "module \<Rightarrow> fetcher \<Rightarrow> json" where
  "fetcher_tool m f = JObj [(''type'', JStr ''function''), (''function'', JObj [
     (''name'', JStr (tool_name m f)), (''description'', JStr (ft_description f)),
     (''parameters'', JObj [(''type'', JStr ''object''), (''properties'', JObj [])])])]"

definition build_tools :: "module list \<Rightarrow> json list" where
  "build_tools mods =
     concat (map (\<lambda>m. map (fetcher_tool m) (filter ft_expose (md_fetchers m))) mods) @ [REBUILD_TOOL]"

section \<open>A completion\<close>

text \<open>\<open>None\<close> stands for an attribute that is absent, \<open>None\<close> or empty: the code tests them alike.\<close>

record tool_delta =
  td_index :: int
  td_id :: "pystr option"
  td_name :: "pystr option"
  td_args :: "pystr option"

datatype chunk = Chunk pystr "tool_delta list" | Malformed_chunk pystr

datatype completion = No_completion pystr | Completion "chunk list" "pystr option"

record tool_call =
  tc_id :: pystr
  tc_name :: pystr
  tc_args :: pystr

text \<open>\<^verbatim>\<open>acc.setdefault(idx, \<dots>)\<close> and the merging of a fragment into the slot.\<close>

definition merge_delta :: "tool_delta \<Rightarrow> tool_call \<Rightarrow> tool_call" where
  "merge_delta d c =
     \<lparr>tc_id = (case td_id d of Some i \<Rightarrow> i | None \<Rightarrow> tc_id c),
      tc_name = tc_name c @ the_default [] (td_name d),
      tc_args = tc_args c @ the_default [] (td_args d)\<rparr>"

definition empty_call :: tool_call where
  "empty_call = \<lparr>tc_id = [], tc_name = [], tc_args = []\<rparr>"

definition accumulate :: "(int \<times> tool_call) list \<Rightarrow> tool_delta \<Rightarrow> (int \<times> tool_call) list" where
  "accumulate acc d =
     dict_put (td_index d) (merge_delta d (the_default empty_call (map_of acc (td_index d)))) acc"

definition request_failed :: "pystr \<Rightarrow> exn" where
  "request_failed m = BackendError (''remote model request failed: '' @ m)"

text \<open>One completion read to its end: the text and the calls, pieces handed to \<open>emit\<close> on the way.\<close>

fun read_chunks ::
  "(pystr \<Rightarrow> ('w, unit) act) \<Rightarrow> chunk list \<Rightarrow> pystr option \<Rightarrow> pystr \<Rightarrow> (int \<times> tool_call) list \<Rightarrow>
   ('w, pystr \<times> (int \<times> tool_call) list) act" where
  "read_chunks emit [] fin txt calls =
     (case fin of None \<Rightarrow> ret (txt, calls) | Some m \<Rightarrow> raise (request_failed m))"
| "read_chunks emit (Malformed_chunk m # cs) fin txt calls = raise (request_failed m)"
| "read_chunks emit (Chunk piece ds # cs) fin txt calls =
     andthen (if piece \<noteq> [] then emit piece else ret ()) (\<lambda>_.
       read_chunks emit cs fin (txt @ piece) (foldl accumulate calls ds))"

definition assistant_turn :: "pystr \<Rightarrow> (int \<times> tool_call) list \<Rightarrow> json" where
  "assistant_turn txt calls = JObj [
     (''role'', JStr ''assistant''),
     (''content'', if txt = [] then JNull else JStr txt),
     (''tool_calls'', JArr (map (\<lambda>(i, c). JObj [(''id'', JStr (tc_id c)), (''type'', JStr ''function''),
        (''function'', JObj [(''name'', JStr (tc_name c)), (''arguments'', JStr (tc_args c))])]) calls))]"

definition tool_message :: "tool_call \<Rightarrow> pystr \<Rightarrow> json" where
  "tool_message c result = JObj [(''role'', JStr ''tool''), (''tool_call_id'', JStr (tc_id c)),
     (''content'', JStr result)]"

definition malformed_args :: pystr where "malformed_args = ''(error: malformed tool arguments)''"

definition execute_call :: "(pystr \<Rightarrow> json \<Rightarrow> ('w, pystr) act) \<Rightarrow> tool_call \<Rightarrow> ('w, pystr) act" where
  "execute_call run_tool c =
     (if tc_args c = [] then run_tool (tc_name c) (JObj [])
      else (case loads (tc_args c) of
          None \<Rightarrow> ret malformed_args
        | Some args \<Rightarrow> run_tool (tc_name c) args))"

fun execute_calls ::
  "(pystr \<Rightarrow> json \<Rightarrow> ('w, pystr) act) \<Rightarrow> tool_call list \<Rightarrow> ('w, json list) act" where
  "execute_calls run_tool [] = ret []"
| "execute_calls run_tool (c # cs) =
     andthen (execute_call run_tool c) (\<lambda>result.
     andthen (execute_calls run_tool cs) (\<lambda>rest. ret (tool_message c result # rest)))"

section \<open>The loop\<close>

text \<open>What stays the same over a run: model, base, tools, the provider and the callbacks.\<close>

record 'w agent =
  ag_import_error :: "pystr option"
  ag_complete :: "pystr \<Rightarrow> pystr option \<Rightarrow> json list \<Rightarrow> json list \<Rightarrow> 'w \<Rightarrow> completion \<times> 'w"
  ag_model :: pystr
  ag_base :: "pystr option"
  ag_tools :: "json list"
  ag_run_tool :: "pystr \<Rightarrow> json \<Rightarrow> ('w, pystr) act"
  ag_emit :: "pystr \<Rightarrow> ('w, unit) act"

definition one_round :: "'w agent \<Rightarrow> json list \<Rightarrow> ('w, pystr \<times> (int \<times> tool_call) list) act" where
  "one_round ag msgs w =
     (case ag_complete ag (ag_model ag) (if ag_base ag = Some [] then None else ag_base ag) (ag_tools ag) msgs w of
        (No_completion m, w') \<Rightarrow> raise (request_failed m) w'
      | (Completion cs fin, w') \<Rightarrow> read_chunks (ag_emit ag) cs fin [] [] w')"

partial_function (option) agent_loop :: "'w agent \<Rightarrow> json list \<Rightarrow> 'w \<Rightarrow> ((exn + unit) \<times> 'w) option" where
  "agent_loop ag msgs w =
     (case one_round ag msgs w of
        (Inl e, w') \<Rightarrow> Some (Inl e, w')
      | (Inr (txt, calls), w') \<Rightarrow>
          (if calls = [] then Some (Inr (), w')
           else (case execute_calls (ag_run_tool ag) (map snd calls) w' of
               (Inl e, w'') \<Rightarrow> Some (Inl e, w'')
             | (Inr results, w'') \<Rightarrow> agent_loop ag (msgs @ assistant_turn txt calls # results) w'')))"

definition chat_message :: "pystr \<Rightarrow> pystr \<Rightarrow> json" where
  "chat_message role content = JObj [(''role'', JStr role), (''content'', JStr content)]"

definition first_messages :: "pystr \<Rightarrow> json list \<Rightarrow> pystr \<Rightarrow> json list" where
  "first_messages query history system_extra =
     chat_message ''system'' (REMOTE_SYSTEM_PROMPT @ system_extra) # history @ [chat_message ''user'' query]"

definition run_agent :: "'w agent \<Rightarrow> pystr \<Rightarrow> json list \<Rightarrow> pystr \<Rightarrow> ('w, unit) pact" where
  "run_agent ag query history system_extra w =
     (case ag_import_error ag of
        Some m \<Rightarrow> Some (Inl (BackendError (''remote model backend unavailable: '' @ m)), w)
      | None \<Rightarrow> agent_loop ag (first_messages query history system_extra) w)"

section \<open>Along a run\<close>

text \<open>
  A run respects an order that its completions, tools and output respect. \<open>M\<close> is what is known
  of the messages of every request.
\<close>

context state_order
begin

lemma moves_read_chunks:
  assumes "\<And>s. moves R (emit s)"
  shows "moves R (read_chunks emit cs fin t calls)"
proof (induction cs arbitrary: t calls)
  case Nil
  then show ?case by (auto split: option.split intro: moves_intros)
next
  case (Cons c cs)
  then show ?case by (cases c) (auto intro!: moves_intros assms)
qed

lemma moves_execute_calls:
  assumes "\<And>n a. moves R (run_tool n a)"
  shows "moves R (execute_calls run_tool cs)"
  by (induction cs) (auto simp: execute_call_def split: option.split intro!: moves_intros assms)

lemma moves_one_round:
  assumes "\<And>w. R w (snd (ag_complete ag (ag_model ag) (if ag_base ag = Some [] then None else ag_base ag) (ag_tools ag) msgs w))"
    and "\<And>s. moves R (ag_emit ag s)"
  shows "moves R (one_round ag msgs)"
  unfolding moves_def
proof
  fix w
  obtain c w1 where c: "ag_complete ag (ag_model ag) (if ag_base ag = Some [] then None else ag_base ag) (ag_tools ag) msgs w = (c, w1)"
    by fastforce
  with assms(1) [of w] have "R w w1" by simp
  moreover have "R w1 (snd (read_chunks (ag_emit ag) cs fin [] [] w1))" for cs fin
    using moves_read_chunks [OF assms(2)] by (auto simp: moves_def)
  ultimately show "R w (snd (one_round ag msgs w))"
    using c by (auto simp: one_round_def raise_def intro: trans split: completion.split)
qed

lemma agent_loop_moves:
  assumes run: "agent_loop ag msgs w = Some out" and M: "M msgs"
    and complete: "\<And>msgs w. M msgs \<Longrightarrow>
      R w (snd (ag_complete ag (ag_model ag) (if ag_base ag = Some [] then None else ag_base ag) (ag_tools ag) msgs w))"
    and emit: "\<And>s. moves R (ag_emit ag s)" and tool: "\<And>n a. moves R (ag_run_tool ag n a)"
    and grow: "\<And>msgs t calls rs w1 w2. M msgs \<Longrightarrow>
      execute_calls (ag_run_tool ag) (map snd calls) w1 = (Inr rs, w2) \<Longrightarrow> M (msgs @ assistant_turn t calls # rs)"
  shows "R w (snd out)"
proof -
  have "ag' = ag \<longrightarrow> M msgs \<longrightarrow> R w (snd out)" if "agent_loop ag' msgs w = Some out" for ag' msgs w out
    using that
  proof (rule agent_loop.raw_induct [rotated, where P = "\<lambda>ag' msgs w out. ag' = ag \<longrightarrow> M msgs \<longrightarrow> R w (snd out)"], goal_cases)
    case (1 loop ag' msgs w out)
    show ?case
    proof (intro impI)
      assume ag: "ag' = ag" and m: "M msgs"
      obtain r w1 where r: "one_round ag msgs w = (r, w1)" by fastforce
      have w1: "R w w1" using movesD [OF moves_one_round r] complete [OF m] emit by blast
      show "R w (snd out)"
      proof (cases "\<exists>t calls. r = Inr (t, calls) \<and> calls \<noteq> []")
        case False
        then have "snd out = w1" using 1(2) ag r by (auto split: sum.splits if_splits)
        with w1 show ?thesis by simp
      next
        case True
        then obtain t calls where tc: "r = Inr (t, calls)" "calls \<noteq> []" by blast
        obtain r2 w2 where e: "execute_calls (ag_run_tool ag) (map snd calls) w1 = (r2, w2)" by fastforce
        have w2: "R w w2" using w1 movesD [OF moves_execute_calls e] tool trans by blast
        show ?thesis
        proof (cases r2)
          case (Inl ex)
          then have "snd out = w2" using 1(2) ag r tc e by auto
          with w2 show ?thesis by simp
        next
          case (Inr rs)
          then have "loop ag (msgs @ assistant_turn t calls # rs) w2 = Some out"
            using 1(2) ag r tc e by auto
          moreover have "M (msgs @ assistant_turn t calls # rs)" by (rule grow [OF m e [unfolded Inr]])
          ultimately have "R w2 (snd out)" using 1(1) by blast
          with w2 show ?thesis by (rule trans)
        qed
      qed
    qed
  qed
  with run M show ?thesis by blast
qed

end

text \<open>A message is one of the first, the model's own turn, or a tool result of the allowed kind.\<close>

definition sendable :: "(pystr \<Rightarrow> bool) \<Rightarrow> json list \<Rightarrow> json \<Rightarrow> bool" where
  "sendable P first m \<longleftrightarrow> m \<in> set first \<or> (\<exists>t calls. m = assistant_turn t calls) \<or>
     (\<exists>c t. m = tool_message c t \<and> P t)"

definition results_in :: "(pystr \<Rightarrow> bool) \<Rightarrow> 'w agent \<Rightarrow> bool" where
  "results_in P ag \<longleftrightarrow> P malformed_args \<and> (\<forall>n a w t w'. ag_run_tool ag n a w = (Inr t, w') \<longrightarrow> P t)"

lemma execute_results:
  "results_in P ag \<Longrightarrow> execute_calls (ag_run_tool ag) cs s = (Inr ms, s') \<Longrightarrow>
     list_all (\<lambda>m. \<exists>c t. m = tool_message c t \<and> P t) ms"
proof (induction cs arbitrary: s ms s')
  case Nil
  then show ?case by (simp add: ret_def)
next
  case (Cons c cs)
  from Cons.prems(2) obtain t u rest where t: "execute_call (ag_run_tool ag) c s = (Inr t, u)"
    and rest: "execute_calls (ag_run_tool ag) cs u = (Inr rest, s')" "ms = tool_message c t # rest"
    by (auto simp: ret_def elim!: andthen_InrE)
  have "P t"
    using t Cons.prems(1) by (auto simp: execute_call_def results_in_def ret_def split: if_splits option.splits) blast+
  with rest Cons.IH [OF Cons.prems(1) rest(1)] show ?case by auto
qed

lemma sendable_grow:
  assumes "results_in P ag" "list_all (sendable P first) msgs"
    and "execute_calls (ag_run_tool ag) cs w = (Inr rs, w')"
  shows "list_all (sendable P first) (msgs @ assistant_turn t calls # rs)"
  using assms(2) execute_results [OF assms(1,3)] by (auto simp: list_all_iff sendable_def)

text \<open>An action beside a component of the state it does not touch.\<close>

definition beside :: "('w, 'a) act \<Rightarrow> ('w \<times> 'l, 'a) act" where
  "beside m = (\<lambda>(w, l). let (r, w') = m w in (r, (w', l)))"

lemma moves_beside: "moves R m \<Longrightarrow> moves (\<lambda>u v. R (fst u) (fst v)) (beside m)"
  by (auto simp: moves_def beside_def Let_def split: prod.split) (metis snd_conv)

section \<open>Ending\<close>

text \<open>
  A bound \<open>f\<close> on the rounds to come that no call raises and every answer with a tool call
  lowers: a provider that asks for tools finitely often.
\<close>

definition asks :: "chunk list \<Rightarrow> bool" where
  "asks cs \<longleftrightarrow> list_ex (\<lambda>c. case c of Chunk p ds \<Rightarrow> ds \<noteq> [] | Malformed_chunk m \<Rightarrow> False) cs"

definition not_more :: "('w \<Rightarrow> nat) \<Rightarrow> 'w \<Rightarrow> 'w \<Rightarrow> bool" where
  "not_more f u v \<longleftrightarrow> f v \<le> f u"

interpretation not_more: state_order "not_more f" for f
  by unfold_locales (auto simp: not_more_def)

definition winds_down :: "('w \<Rightarrow> nat) \<Rightarrow> 'w agent \<Rightarrow> bool" where
  "winds_down f ag \<longleftrightarrow>
     (\<forall>m b t msgs w. case ag_complete ag m b t msgs w of
        (No_completion e, w') \<Rightarrow> f w' \<le> f w
      | (Completion cs fin, w') \<Rightarrow> if asks cs then f w' < f w else f w' \<le> f w) \<and>
     (\<forall>s. moves (not_more f) (ag_emit ag s)) \<and>
     (\<forall>n a. moves (not_more f) (ag_run_tool ag n a))"

lemma dict_put_not_Nil: "dict_put k v d \<noteq> []"
  by (induction k v d rule: dict_put.induct) auto

lemma accumulate_Nil: "foldl accumulate calls ds = [] \<longleftrightarrow> calls = [] \<and> ds = []"
  by (induction ds arbitrary: calls) (auto simp: accumulate_def dict_put_not_Nil)

lemma read_chunks_calls:
  "read_chunks emit cs fin t calls w = (Inr (t', calls'), w') \<Longrightarrow> calls' \<noteq> [] \<Longrightarrow> calls = [] \<Longrightarrow> asks cs"
proof -
  have "read_chunks emit cs fin t calls w = (Inr (t', calls'), w') \<Longrightarrow> calls' = [] \<longleftrightarrow> calls = [] \<and> \<not> asks cs"
    for t calls w
  proof (induction cs arbitrary: t calls w)
    case Nil
    then show ?case by (auto simp: asks_def ret_def raise_def split: option.splits)
  next
    case (Cons c cs)
    then show ?case
      by (cases c) (auto simp: asks_def raise_def accumulate_Nil elim!: andthen_InrE dest!: Cons.IH)
  qed
  then show "read_chunks emit cs fin t calls w = (Inr (t', calls'), w') \<Longrightarrow> calls' \<noteq> [] \<Longrightarrow> calls = [] \<Longrightarrow> asks cs"
    by blast
qed

lemma one_round_measure:
  assumes "winds_down f ag" "one_round ag msgs w = (Inr (t, calls), w')" "calls \<noteq> []"
  shows "f w' < f w"
proof -
  obtain c w1 where c: "ag_complete ag (ag_model ag) (if ag_base ag = Some [] then None else ag_base ag)
      (ag_tools ag) msgs w = (c, w1)" by fastforce
  with assms(2) obtain cs fin where cs: "c = Completion cs fin"
    and r: "read_chunks (ag_emit ag) cs fin [] [] w1 = (Inr (t, calls), w')"
    by (auto simp: one_round_def raise_def split: completion.splits)
  have asks: "asks cs" using read_chunks_calls [OF r assms(3)] by simp
  have "if asks cs then f w1 < f w else f w1 \<le> f w"
  proof -
    have "case ag_complete ag (ag_model ag) (if ag_base ag = Some [] then None else ag_base ag) (ag_tools ag) msgs w of
        (No_completion e, w') \<Rightarrow> f w' \<le> f w
      | (Completion cs fin, w') \<Rightarrow> if asks cs then f w' < f w else f w' \<le> f w"
      using assms(1) by (simp only: winds_down_def)
    then show ?thesis unfolding c cs by simp
  qed
  with asks have "f w1 < f w" by simp
  moreover have "f w' \<le> f w1"
    using movesD [OF not_more.moves_read_chunks r] assms(1) by (auto simp: winds_down_def not_more_def)
  ultimately show ?thesis by simp
qed

lemma agent_loop_returns:
  "winds_down f ag \<Longrightarrow> \<exists>r. agent_loop ag msgs w = Some r"
proof (induction "f w" arbitrary: w msgs rule: less_induct)
  case less
  show ?case
  proof (cases "one_round ag msgs w")
    case (Pair r w')
    show ?thesis
    proof (cases r)
      case (Inl e)
      then show ?thesis using Pair by (subst agent_loop.simps) simp
    next
      case (Inr x)
      then obtain t calls where x: "r = Inr (t, calls)" by (cases x) auto
      show ?thesis
      proof (cases "calls = []")
        case True
        then show ?thesis using Pair x by (subst agent_loop.simps) simp
      next
        case False
        obtain r2 w2 where e: "execute_calls (ag_run_tool ag) (map snd calls) w' = (r2, w2)" by fastforce
        have "f w' < f w"
          using one_round_measure [OF less.prems, of msgs w t calls w'] Pair x False by simp
        moreover have "f w2 \<le> f w'"
          using movesD [OF not_more.moves_execute_calls e] less.prems by (auto simp: winds_down_def not_more_def)
        ultimately have "f w2 < f w" by simp
        then have "\<exists>r. agent_loop ag ms w2 = Some r" for ms by (rule less.hyps [OF _ less.prems])
        then show ?thesis using Pair x False e by (subst agent_loop.simps) (auto split: sum.split)
      qed
    qed
  qed
qed


text \<open>A provider that asks for a tool as many times as the world says, and one that never stops.\<close>

definition ask_tool :: chunk where
  "ask_tool = Chunk [] [\<lparr>td_index = 0, td_id = Some ''call'', td_name = Some ''disk_usage'', td_args = None\<rparr>]"

definition counting_agent :: "nat agent" where
  "counting_agent = \<lparr>ag_import_error = None,
     ag_complete = (\<lambda>m b t msgs n. (Completion (if 0 < n then [ask_tool] else [Chunk ''done'' []]) None, n - 1)),
     ag_model = ''m'', ag_base = None, ag_tools = [],
     ag_run_tool = (\<lambda>name args. ret ''ok''), ag_emit = (\<lambda>s. ret ())\<rparr>"

definition chatty_agent :: "unit agent" where
  "chatty_agent = \<lparr>ag_import_error = None,
     ag_complete = (\<lambda>m b t msgs u. (Completion [ask_tool] None, u)),
     ag_model = ''m'', ag_base = None, ag_tools = [],
     ag_run_tool = (\<lambda>name args. ret ''ok''), ag_emit = (\<lambda>s. ret ())\<rparr>"


text \<open>Nothing in the loop bounds the rounds: with a provider that always asks for a tool it never returns.\<close>

lemma chatty_agent_never_returns: "run_agent chatty_agent query history extra u = None"
proof -
  have "agent_loop ag msgs w = Some r \<Longrightarrow> ag = chatty_agent \<longrightarrow> False" for ag msgs and w :: unit and r
  proof (rule agent_loop.raw_induct [where P = "\<lambda>ag msgs w r. ag = chatty_agent \<longrightarrow> False"], goal_cases)
    case (1 agent_loop' ag' msgs' w' r')
    have "one_round chatty_agent msgs' w' = (Inr ([], [(0, \<lparr>tc_id = ''call'', tc_name = ''disk_usage'', tc_args = []\<rparr>)]), w')"
      by (simp add: one_round_def chatty_agent_def ask_tool_def andthen_def ret_def accumulate_def
          merge_delta_def empty_call_def)
    moreover have "execute_calls (ag_run_tool chatty_agent) [\<lparr>tc_id = ''call'', tc_name = ''disk_usage'', tc_args = []\<rparr>] w'
        = (Inr [tool_message \<lparr>tc_id = ''call'', tc_name = ''disk_usage'', tc_args = []\<rparr> ''ok''], w')"
      by (simp add: chatty_agent_def execute_call_def andthen_def ret_def)
    ultimately show ?case using 1(2,3) by (auto dest!: 1(2))
  qed
  then have "agent_loop chatty_agent msgs w = None" for msgs w
    by (cases "agent_loop chatty_agent msgs w") auto
  then show ?thesis by (simp add: run_agent_def chatty_agent_def)
qed

end
