(* ===== verification/Connections.thy ===== *)
theory Connections
  imports Daemon_State Observability Local_LLM
begin

text \<open>
  \<^verbatim>\<open>connections.py\<close>. First what a handler sees of its client: sending a message within the wire
  limit and asking a question. Then the bookkeeping of one connection (pending questions,
  running queries, owned tasks) and of the connection manager (admission, the reading loop,
  closing, broadcasts). Writing to the socket and the person's answer are parameters; what was
  handed to the transport is kept in \<open>dm_replies\<close>.
\<close>

definition MAX_WIRE_MESSAGE_BYTES :: nat where "MAX_WIRE_MESSAGE_BYTES = 64 * 1024"

text \<open>The default interval of \<^verbatim>\<open>should_log\<close>.\<close>

definition LOG_INTERVAL :: real where "LOG_INTERVAL = 30"

section \<open>One client as its handlers see it\<close>

text \<open>
  \<open>tr_drain\<close> flushes a payload (it can time out, find the peer gone or be cancelled);
  \<open>tr_answer\<close> is the \<^verbatim>\<open>confirmed\<close> field of the response to a question, \<open>None\<close> when the wait was
  cancelled.
\<close>

record 'w transport =
  tr_drain :: "pystr \<Rightarrow> ('w, unit) act"
  tr_answer :: "json \<Rightarrow> 'w \<Rightarrow> json option \<times> 'w"
  tr_float :: "real \<Rightarrow> pystr"

definition fits_wire :: "(real \<Rightarrow> pystr) \<Rightarrow> message \<Rightarrow> bool" where
  "fits_wire frepr m \<longleftrightarrow> utf8_length (encode frepr m) \<le> MAX_WIRE_MESSAGE_BYTES"

definition exceeds_wire :: exn where
  "exceeds_wire = ProtocolError ''outgoing message exceeds wire limit''"

definition client_send :: "'w transport \<Rightarrow> message \<Rightarrow> ('w daemon, unit) act" where
  "client_send tr m d =
     (if \<not> fits_wire (tr_float tr) m then raise exceeds_wire d
      else lift (tr_drain tr (encode (tr_float tr) m)) (d\<lparr>dm_replies := dm_replies d @ [m]\<rparr>))"

definition await_response :: "'w transport \<Rightarrow> json \<Rightarrow> ('w daemon, json option) act" where
  "await_response tr qid = lift (\<lambda>w. let (r, w') = tr_answer tr qid w in (Inr r, w'))"

text \<open>\<^verbatim>\<open>bool(response and response.confirmed)\<close>: the field is tested for truth, whatever its type.\<close>

definition client_confirm :: "'w transport \<Rightarrow> json \<Rightarrow> pystr \<Rightarrow> ('w daemon, bool) act" where
  "client_confirm tr qid txt =
     andthen (client_send tr (mk_message Confirm [qid, JStr txt])) (\<lambda>_.
     andthen (await_response tr qid) (\<lambda>r. ret (case r of None \<Rightarrow> False | Some c \<Rightarrow> truthy c)))"

section \<open>The bookkeeping of a connection\<close>

datatype future = Waiting | Responded message | Cancelled

text \<open>
  Futures and tasks are numbered. A dictionary that loses a future does not change it: whoever
  awaits it goes on waiting.
\<close>

record client =
  cl_pending :: "json \<rightharpoonup> nat"
  cl_futures :: "nat \<Rightarrow> future"
  cl_tasks :: "json \<rightharpoonup> nat"
  cl_owned :: "nat set"

definition new_client :: client where
  "new_client = \<lparr>cl_pending = Map.empty, cl_futures = (\<lambda>_. Waiting), cl_tasks = Map.empty, cl_owned = {}\<rparr>"

definition begin_wait :: "json \<Rightarrow> nat \<Rightarrow> client \<Rightarrow> client" where
  "begin_wait qid f c = c\<lparr>cl_pending := (cl_pending c)(qid \<mapsto> f), cl_futures := (cl_futures c)(f := Waiting)\<rparr>"

definition end_wait :: "json \<Rightarrow> client \<Rightarrow> client" where
  "end_wait qid c = c\<lparr>cl_pending := (cl_pending c)(qid := None)\<rparr>"

definition deliver_response :: "message \<Rightarrow> client \<Rightarrow> exn + client" where
  "deliver_response m c =
     (let qid = get_field m ''id''
      in if unhashable qid then Inl (Foreign ''TypeError'' (''unhashable type: '' @ py_repr (type_name qid)))
         else (case cl_pending c qid of
             None \<Rightarrow> Inr c
           | Some f \<Rightarrow> Inr (if cl_futures c f = Waiting
                           then c\<lparr>cl_futures := (cl_futures c)(f := Responded m)\<rparr> else c)))"

text \<open>A query's task: registered, found by a cancel, dropped by \<^verbatim>\<open>_dispatch\<close> when it ends.\<close>

definition register_query :: "json \<Rightarrow> nat \<Rightarrow> client \<Rightarrow> client" where
  "register_query qid t c = c\<lparr>cl_tasks := (cl_tasks c)(qid \<mapsto> t), cl_owned := insert t (cl_owned c)\<rparr>"

definition forget_query :: "json \<Rightarrow> nat \<Rightarrow> client \<Rightarrow> client" where
  "forget_query qid t c =
     c\<lparr>cl_tasks := (if cl_tasks c qid = Some t then (cl_tasks c)(qid := None) else cl_tasks c),
       cl_owned := cl_owned c - {t}\<rparr>"

definition pop_query :: "json \<Rightarrow> client \<Rightarrow> client" where
  "pop_query qid c = c\<lparr>cl_tasks := (cl_tasks c)(qid := None)\<rparr>"

definition close_futures :: "client \<Rightarrow> client" where
  "close_futures c = c\<lparr>cl_futures := (\<lambda>f. if f \<in> ran (cl_pending c) \<and> cl_futures c f = Waiting
     then Cancelled else cl_futures c f)\<rparr>"

section \<open>The manager\<close>

text \<open>
  The connections in no particular order, each with its number. \<open>mg_closed\<close> keeps the ones that
  were closed, with their open questions cancelled; \<open>mg_cancelled\<close> the tasks that were.
\<close>

record manager =
  mg_clients :: "(nat \<times> client) list"
  mg_closed :: "(nat \<times> client) list"
  mg_closing :: bool
  mg_ops :: operational_state
  mg_cancelled :: "nat set"

text \<open>\<^verbatim>\<open>close\<close>; a connection is closed once.\<close>

definition close_connection :: "nat \<Rightarrow> manager \<Rightarrow> manager" where
  "close_connection n mg =
     (case map_of (mg_clients mg) n of
        None \<Rightarrow> mg
      | Some c \<Rightarrow> mg\<lparr>mg_clients := filter (\<lambda>(k, c). k \<noteq> n) (mg_clients mg),
                   mg_closed := (n, close_futures c) # mg_closed mg,
                   mg_cancelled := mg_cancelled mg \<union> cl_owned c\<rparr>)"

definition close_all :: "manager \<Rightarrow> manager" where
  "close_all mg = foldl (\<lambda>m n. close_connection n m) (mg\<lparr>mg_closing := True\<rparr>) (map fst (mg_clients mg))"

text \<open>One peer of a broadcast, then all of them; \<open>drained n\<close> is the outcome of the flush.\<close>

definition broadcast_one ::
  "(real \<Rightarrow> pystr) \<Rightarrow> (nat \<Rightarrow> exn + unit) \<Rightarrow> message \<Rightarrow> manager \<Rightarrow> nat \<Rightarrow> manager" where
  "broadcast_one frepr drained m mg n =
     (case (if fits_wire frepr m then drained n else Inl exceeds_wire) of
        Inr _ \<Rightarrow> mg
      | Inl e \<Rightarrow> close_connection n (mg\<lparr>mg_ops := increment ''send_failures'' (mg_ops mg)\<rparr>))"

definition broadcast :: "(real \<Rightarrow> pystr) \<Rightarrow> (nat \<Rightarrow> exn + unit) \<Rightarrow> message \<Rightarrow> manager \<Rightarrow> manager" where
  "broadcast frepr drained m mg = foldl (broadcast_one frepr drained m) mg (map fst (mg_clients mg))"

text \<open>
  The reading loop. \<open>on_message\<close> is the daemon's handler of a line. The end of the stream is
  \<open>None\<close> or an exception of the reader; \<open>None\<close> among the lines is one that is no UTF-8.
\<close>

fun read_requests ::
  "(nat \<Rightarrow> pystr \<Rightarrow> manager \<Rightarrow> exn option \<times> manager) \<Rightarrow> real \<Rightarrow> nat \<Rightarrow> pystr option list \<Rightarrow> exn option \<Rightarrow>
     manager \<Rightarrow> exn option \<times> manager" where
  "read_requests on_message t n [] fin mg = (fin, mg)"
| "read_requests on_message t n (None # raws) fin mg =
     (let ops = increment ''invalid_encoding'' (mg_ops mg)
      in (None, mg\<lparr>mg_ops := snd (should_log ''invalid_client_encoding'' LOG_INTERVAL t ops)\<rparr>))"
| "read_requests on_message t n (Some raw # raws) fin mg =
     (if strip raw = [] then read_requests on_message t n raws fin mg
      else (case on_message n (strip raw) mg of
          (Some e, mg') \<Rightarrow> (Some e, mg')
        | (None, mg') \<Rightarrow> read_requests on_message t n raws fin mg'))"

text \<open>The exceptions that end a connection with a warning; every other is passed on.\<close>

definition ends_connection :: "exn \<Rightarrow> bool" where
  "ends_connection e \<longleftrightarrow>
     (case e of Foreign cls msg \<Rightarrow> cls \<in> {''IncompleteReadError'', ''ConnectionResetError'', ''ValueError'', ''TimeoutError''}
      | _ \<Rightarrow> False)"

definition handle_connection ::
  "(real \<Rightarrow> pystr) \<Rightarrow> (nat \<Rightarrow> pystr \<Rightarrow> manager \<Rightarrow> exn option \<times> manager) \<Rightarrow> message \<Rightarrow> (exn + unit) \<Rightarrow> real \<Rightarrow> nat \<Rightarrow>
     pystr option list \<Rightarrow> exn option \<Rightarrow> manager \<Rightarrow> exn option \<times> manager" where
  "handle_connection frepr on_message hello drained t n raws fin mg =
     (if mg_closing mg then (None, mg)
      else (let mg1 = mg\<lparr>mg_clients := (n, new_client) # mg_clients mg\<rparr>;
                (e, mg2) = (case (if fits_wire frepr hello then drained else Inl exceeds_wire) of
                    Inl e \<Rightarrow> (Some e, mg1)
                  | Inr _ \<Rightarrow> read_requests on_message t n raws fin mg1)
            in (case e of Some x \<Rightarrow> if ends_connection x then None else Some x | None \<Rightarrow> None,
                close_connection n mg2)))"

section \<open>Sending\<close>

lemma client_send_value:
  "client_send tr m d =
     (if fits_wire (tr_float tr) m
      then (let (r, w) = tr_drain tr (encode (tr_float tr) m) (dm_world d)
            in (r, d\<lparr>dm_world := w, dm_replies := dm_replies d @ [m]\<rparr>))
      else (Inl exceeds_wire, d))"
  by (simp add: client_send_def lift_def raise_def Let_def split: prod.split)

section \<open>Closing\<close>

lemma closed_clients:
  "mg_clients (close_connection n mg) = filter (\<lambda>(k, c). k \<noteq> n) (mg_clients mg)"
proof (cases "map_of (mg_clients mg) n")
  case None
  then have "n \<notin> fst ` set (mg_clients mg)" by (simp add: map_of_eq_None_iff)
  then have "filter (\<lambda>(k, c). k \<noteq> n) (mg_clients mg) = mg_clients mg"
    by (intro filter_True) (auto simp: image_iff)
  with None show ?thesis by (simp add: close_connection_def)
qed (simp add: close_connection_def)

lemma broadcast_one_clients:
  "mg_clients (broadcast_one frepr drained m mg n) =
     (if fits_wire frepr m \<and> isl (drained n) = False then mg_clients mg
      else filter (\<lambda>(k, c). k \<noteq> n) (mg_clients mg))"
  by (cases "drained n") (simp_all add: broadcast_one_def closed_clients)

lemma broadcast_fold:
  "mg_clients (foldl (broadcast_one frepr drained m) mg ns) =
     filter (\<lambda>(k, c). k \<in> set ns \<longrightarrow> fits_wire frepr m \<and> isl (drained k) = False) (mg_clients mg)"
  by (induction ns arbitrary: mg) (auto simp: broadcast_one_clients intro!: filter_cong)

section \<open>Questions and queries that share an id\<close>

text \<open>
  The id of a query is the client's choice. When a second query with the id of a running one
  is accepted, the end of the first removes the entry of the second: a cancel no longer
  finds it. (\<^verbatim>\<open>_dispatch\<close> pops the id unconditionally; the done-callback compares tasks.)
\<close>

lemma reused_id_loses_cancel:
  "let c = pop_query q (register_query q 2 (register_query q 1 new_client))
   in cl_tasks c q = None \<and> 2 \<in> cl_owned c"
  by (simp add: pop_query_def register_query_def new_client_def Let_def)

text \<open>Two questions asked at once under one id: the first is never answered.\<close>

lemma reused_id_loses_answer:
  "(case deliver_response m (begin_wait (JStr q) 2 (begin_wait (JStr q) 1 new_client)) of
      Inr c \<Rightarrow> cl_futures c 1 = Waiting \<and>
        (case deliver_response m' (end_wait (JStr q) c) of Inr c' \<Rightarrow> cl_futures c' 1 = Waiting | Inl e \<Rightarrow> True)
    | Inl e \<Rightarrow> True)"
  by (auto simp: deliver_response_def begin_wait_def end_wait_def new_client_def Let_def split: option.split)

section \<open>Properties\<close>

text \<open>
   A broadcast keeps exactly the peers it could be delivered to: a peer whose transport fails is
  closed, and none else, unless the message exceeds the wire limit, which closes every peer.
\<close>

theorem broadcast_retires_failed:
  "mg_clients (broadcast frepr drained m mg) =
     filter (\<lambda>(n, c). fits_wire frepr m \<and> isl (drained n) = False) (mg_clients mg)"
  unfolding broadcast_def broadcast_fold by (rule filter_cong) force+

text \<open>
   However a connection ends (a failing hello, the end of the stream, a line that is no UTF-8,
  an exception of the handler), the manager no longer has it afterwards, and of the exceptions
  only those outside the four expected classes are passed on.
\<close>

theorem connection_always_retired:
  "if mg_closing mg then handle_connection frepr on_message hello drained t n raws fin mg = (None, mg)
   else n \<notin> fst ` set (mg_clients (snd (handle_connection frepr on_message hello drained t n raws fin mg))) \<and>
     (case fst (handle_connection frepr on_message hello drained t n raws fin mg) of
        None \<Rightarrow> True | Some e \<Rightarrow> ends_connection e = False)"
  by (auto simp: handle_connection_def Let_def closed_clients split: prod.split option.split sum.split)

end
