(* ===== verification/Context_History.thy ===== *)
theory Context_History
  imports Daemon_State Act_Rules
begin

text \<open>
  \<^verbatim>\<open>context.py\<close> and \<^verbatim>\<open>history.py\<close>: the cached context providers of the remote chain and the
  (stateless) conversation history. A provider is a parameter: its name, its refresh interval
  and what calling it gives.
\<close>

section \<open>Exceptions and cancellation\<close>

text \<open>\<^verbatim>\<open>CancelledError\<close> is no \<^verbatim>\<open>Exception\<close>: \<^verbatim>\<open>except Exception\<close> does not catch it.\<close>

definition cancelled_error :: exn where "cancelled_error = Foreign ''CancelledError'' []"

definition is_cancelled :: "exn \<Rightarrow> bool" where
  "is_cancelled e \<longleftrightarrow> (case e of Foreign cls msg \<Rightarrow> cls = ''CancelledError'' | _ \<Rightarrow> False)"

text \<open>\<^verbatim>\<open>try: m  except Exception as e: h(e)\<close>.\<close>

definition try_exception :: "('w, 'a) act \<Rightarrow> (exn \<Rightarrow> ('w, 'a) act) \<Rightarrow> ('w, 'a) act" where
  "try_exception m f w =
     (case m w of
        (Inl e, w') \<Rightarrow> (if is_cancelled e then (Inl e, w') else f e w')
      | (Inr x, w') \<Rightarrow> (Inr x, w'))"

section \<open>History\<close>

definition history_append :: "pystr \<Rightarrow> pystr \<Rightarrow> pystr \<Rightarrow> ('w, unit) act" where
  "history_append session role content = ret ()"

definition history_recent :: "pystr \<Rightarrow> int \<Rightarrow> ('w, json list) act" where
  "history_recent session n = ret []"

definition make_history :: "pystr \<Rightarrow> exn + unit" where
  "make_history kind =
     (if kind = ''null'' then Inr () else Inl (ConfigError (''unknown history backend: '' @ py_repr kind)))"

section \<open>Context\<close>

record 'w provider =
  pv_name :: pystr
  pv_interval :: "real option"
  pv_get :: "('w, pystr) act"

definition stale :: "'w host \<Rightarrow> 'w provider \<Rightarrow> real \<Rightarrow> 'w daemon \<Rightarrow> bool" where
  "stale h p since d =
     (case pv_interval p of None \<Rightarrow> False | Some i \<Rightarrow> clock h (dm_world d) - since \<ge> i)"

definition fetch_context :: "'w host \<Rightarrow> 'w provider \<Rightarrow> ('w daemon, pystr) act" where
  "fetch_context h p d =
     try_exception
       (andthen (lift (pv_get p)) (\<lambda>t d. (Inr t, d\<lparr>dm_context := (dm_context d)(pv_name p \<mapsto> (t, clock h (dm_world d)))\<rparr>)))
       (\<lambda>e. ret (case dm_context d (pv_name p) of Some (t, since) \<Rightarrow> t | None \<Rightarrow> [])) d"

definition get_context :: "'w host \<Rightarrow> 'w provider \<Rightarrow> ('w daemon, pystr) act" where
  "get_context h p d =
     (case dm_context d (pv_name p) of
        Some (t, since) \<Rightarrow> (if stale h p since d then fetch_context h p d else (Inr t, d))
      | None \<Rightarrow> fetch_context h p d)"

fun context_parts :: "'w host \<Rightarrow> 'w provider list \<Rightarrow> ('w daemon, pystr list) act" where
  "context_parts h [] = ret []"
| "context_parts h (p # ps) =
     andthen (get_context h p) (\<lambda>t. andthen (context_parts h ps) (\<lambda>ts. ret (if t \<noteq> [] then t # ts else ts)))"

definition assemble :: "'w host \<Rightarrow> 'w provider list \<Rightarrow> ('w daemon, pystr) act" where
  "assemble h ps = andthen (context_parts h ps) (\<lambda>ts. ret (join [newline, newline] ts))"

section \<open>What the cache gives\<close>

definition fresh_in :: "'w host \<Rightarrow> 'w daemon \<Rightarrow> 'w provider \<Rightarrow> bool" where
  "fresh_in h d p \<longleftrightarrow> (case dm_context d (pv_name p) of Some (t, since) \<Rightarrow> \<not> stale h p since d | None \<Rightarrow> False)"

lemma get_context_cases:
  assumes "get_context h p d = (Inr t, d')"
  shows "(\<forall>k. k \<noteq> pv_name p \<longrightarrow> dm_context d' k = dm_context d k) \<and>
     (dm_context d' (pv_name p) = None \<or> (\<exists>since. dm_context d' (pv_name p) = Some (t, since)))"
  using assms
  by (auto simp: get_context_def fetch_context_def try_exception_def andthen_def lift_def ret_def
      split: option.splits prod.splits sum.splits if_splits)

lemma context_parts_others:
  "context_parts h ps d = (Inr ts, d') \<Longrightarrow> k \<notin> pv_name ` set ps \<Longrightarrow> dm_context d' k = dm_context d k"
proof (induction ps arbitrary: d ts)
  case Nil
  then show ?case by (simp add: ret_def)
next
  case (Cons p ps)
  from Cons.prems(1) obtain t d1 ts1 where "get_context h p d = (Inr t, d1)" "context_parts h ps d1 = (Inr ts1, d')"
    by (auto simp: ret_def elim!: andthen_InrE)
  with Cons.IH [of d1 ts1] Cons.prems(2) get_context_cases [of h p d t d1] show ?case by simp
qed

text \<open>The parts that a run gives are the ones the cache holds afterwards.\<close>

lemma context_parts_cached:
  assumes "context_parts h ps d = (Inr ts, d')" "distinct (map pv_name ps)"
    and "\<And>p. p \<in> set ps \<Longrightarrow> dm_context d' (pv_name p) \<noteq> None"
  shows "ts = filter (\<lambda>t. t \<noteq> []) (map (\<lambda>p. fst (the (dm_context d' (pv_name p)))) ps)"
  using assms
proof (induction ps arbitrary: d ts)
  case Nil
  then show ?case by (simp add: ret_def)
next
  case (Cons p ps)
  from Cons.prems(1) obtain t d1 ts1 where p: "get_context h p d = (Inr t, d1)"
    and ps: "context_parts h ps d1 = (Inr ts1, d')" and ts: "ts = (if t \<noteq> [] then t # ts1 else ts1)"
    by (auto simp: ret_def elim!: andthen_InrE)
  have "dm_context d' (pv_name p) = dm_context d1 (pv_name p)"
    using context_parts_others [OF ps, of "pv_name p"] Cons.prems(2) by simp
  with get_context_cases [OF p] Cons.prems(3) [of p] have "fst (the (dm_context d' (pv_name p))) = t" by auto
  moreover have "ts1 = filter (\<lambda>t. t \<noteq> []) (map (\<lambda>p. fst (the (dm_context d' (pv_name p)))) ps)"
    using Cons.IH [OF ps] Cons.prems(2,3) by simp
  ultimately show ?case using ts by simp
qed

lemma context_parts_fresh:
  "list_all (fresh_in h d) ps \<Longrightarrow>
     context_parts h ps d = (Inr (filter (\<lambda>t. t \<noteq> []) (map (\<lambda>p. fst (the (dm_context d (pv_name p)))) ps)), d)"
proof (induction ps)
  case (Cons p ps)
  then obtain t since where c: "dm_context d (pv_name p) = Some (t, since)" "\<not> stale h p since d"
    by (auto simp: fresh_in_def split: option.splits)
  then have "get_context h p d = (Inr t, d)" by (simp add: get_context_def)
  with Cons c show ?case by (simp add: andthen_def ret_def)
qed (simp add: ret_def)

text \<open>Nothing but a cancellation leaves the assembly by an exception.\<close>

lemma get_context_error: "get_context h p d = (Inl e, d') \<Longrightarrow> is_cancelled e"
  by (auto simp: get_context_def fetch_context_def try_exception_def andthen_def lift_def ret_def
      split: option.splits prod.splits sum.splits if_splits)

lemma context_parts_error: "context_parts h ps d = (Inl e, d') \<Longrightarrow> is_cancelled e"
proof (induction ps arbitrary: d)
  case (Cons p ps)
  then show ?case
    by (auto simp: andthen_def ret_def split: prod.splits sum.splits dest: get_context_error)
qed (simp add: ret_def)

section \<open>Properties\<close>

text \<open>
   The context block is stable: while every provider's entry is fresh, assembling again gives
  the very same text, calls no provider and changes nothing.
\<close>

theorem context_block_stable:
  assumes "assemble h ps d = (Inr txt, d')" "distinct (map pv_name ps)" "list_all (fresh_in h d') ps"
  shows "assemble h ps d' = (Inr txt, d')"
proof -
  from assms(1) obtain ts where ts: "context_parts h ps d = (Inr ts, d')" and block: "txt = join [newline, newline] ts"
    by (auto simp: assemble_def ret_def elim!: andthen_InrE)
  have "\<And>p. p \<in> set ps \<Longrightarrow> dm_context d' (pv_name p) \<noteq> None"
    using assms(3) by (auto simp: list_all_iff fresh_in_def split: option.splits)
  from context_parts_cached [OF ts assms(2) this] context_parts_fresh [OF assms(3)] block
  show ?thesis by (simp add: assemble_def andthen_def ret_def)
qed

definition still_host :: "unit host" where
  "still_host = \<lparr>spawn = (\<lambda>c t w. (NotFound, w)), kill_group = id, sleep = (\<lambda>t. id),
     clock = (\<lambda>_. 100), db_up = (\<lambda>_. True)\<rparr>"

definition two_providers :: "unit provider list" where
  "two_providers = [\<lparr>pv_name = ''host'', pv_interval = None, pv_get = ret ''nixos''\<rparr>,
     \<lparr>pv_name = ''disk'', pv_interval = Some 60, pv_get = ret ''80% full''\<rparr>]"

theorem context_block_stable_witness:
  "\<exists>d'. assemble still_host two_providers (new_daemon () NullStore)
      = (Inr (''nixos'' @ [newline, newline] @ ''80% full''), d') \<and>
     assemble still_host two_providers d' = (Inr (''nixos'' @ [newline, newline] @ ''80% full''), d')"
proof -
  obtain r d' where r: "assemble still_host two_providers (new_daemon () NullStore) = (r, d')" by fastforce
  then have v: "r = Inr (''nixos'' @ [newline, newline] @ ''80% full'')"
    and fr: "list_all (fresh_in still_host d') two_providers"
    by (auto simp: two_providers_def still_host_def assemble_def get_context_def fetch_context_def
        try_exception_def andthen_def lift_def ret_def new_daemon_def fresh_in_def stale_def)
  have "distinct (map pv_name two_providers)" by (simp add: two_providers_def)
  from context_block_stable [OF r [unfolded v] this fr] r v show ?thesis by blast
qed

end
