(* ===== verification/Services.thy ===== *)
theory Services
  imports Connections Context_History Config Actions Remote_LLM Safety Prefetch Redact
begin

text \<open>
  What the daemon's handlers work with: the machine and its back-ends (all parameters), the
  configuration and the modules, and the lifting of operations on the machine to the state of
  the daemon. The flag \<^verbatim>\<open>local_ready\<close> is kept by a task of its own that runs whenever a handler
  awaits; to a handler it is part of the world.
\<close>

record 'w services =
  sv_host :: "'w host"
  sv_gate :: "'w gate"
  sv_http :: "'w http"
  sv_files :: "'w files"
  sv_shell :: "pystr \<Rightarrow> int \<Rightarrow> 'w \<Rightarrow> shell_result \<times> 'w"
  sv_import_error :: "pystr option"
  sv_complete :: "pystr \<Rightarrow> pystr option \<Rightarrow> json list \<Rightarrow> json list \<Rightarrow> 'w \<Rightarrow> completion \<times> 'w"
  sv_transport :: "'w transport"
  sv_local_ready :: "'w \<Rightarrow> bool"
  sv_wait_local :: "('w, unit) act"
  sv_remote_ready :: bool
  sv_texts :: py_texts
  sv_config :: config
  sv_modules :: "module list"
  sv_provider :: "pystr \<Rightarrow> 'w provider"

definition local_backend :: "'w services \<Rightarrow> backend" where
  "local_backend sv = \<lparr>bk_model = cfg_local_model (sv_config sv), bk_url = cfg_local_url (sv_config sv)\<rparr>"

definition providers :: "'w services \<Rightarrow> 'w provider list" where
  "providers sv = map (sv_provider sv) (List.map_filter md_context (sv_modules sv))"

section \<open>Operations of the machine, on the daemon\<close>

text \<open>A call that cannot raise.\<close>

definition lift_call :: "('w \<Rightarrow> 'a \<times> 'w) \<Rightarrow> ('w daemon, 'a) act" where
  "lift_call f = lift (\<lambda>w. let (x, w') = f w in (Inr x, w'))"

definition raw_lift :: "('w \<Rightarrow> 'a \<times> 'w) \<Rightarrow> 'w daemon \<Rightarrow> 'a \<times> 'w daemon" where
  "raw_lift f d = (let (x, w) = f (dm_world d) in (x, d\<lparr>dm_world := w\<rparr>))"

definition daemon_http :: "'w http \<Rightarrow> 'w daemon http" where
  "daemon_http net = \<lparr>
     http_get = (\<lambda>u t. raw_lift (http_get net u t)),
     http_post = (\<lambda>u b t. raw_lift (http_post net u b t)),
     http_stream = (\<lambda>u b t. raw_lift (http_stream net u b t)),
     status_error = status_error net\<rparr>"

definition daemon_files :: "'w files \<Rightarrow> 'w daemon files" where
  "daemon_files fs = \<lparr>
     fs_exists = (\<lambda>p d. fs_exists fs p (dm_world d)),
     fs_is_dir = (\<lambda>p d. fs_is_dir fs p (dm_world d)),
     fs_read = (\<lambda>p. lift (fs_read fs p)),
     fs_write = (\<lambda>p t. lift (fs_write fs p t)),
     fs_unlink = (\<lambda>p d. d\<lparr>dm_world := fs_unlink fs p (dm_world d)\<rparr>),
     fs_rmtree = (\<lambda>p d. d\<lparr>dm_world := fs_rmtree fs p (dm_world d)\<rparr>),
     fs_mkdtemp = (\<lambda>p. lift (fs_mkdtemp fs p)),
     fs_glob = (\<lambda>r p d. fs_glob fs r p (dm_world d)),
     fs_realpath = (\<lambda>p d. fs_realpath fs p (dm_world d)),
     fs_readlink = (\<lambda>p d. fs_readlink fs p (dm_world d)),
     fs_tempdir = fs_tempdir fs, own_pid = own_pid fs,
     probe_pid = (\<lambda>p d. probe_pid fs p (dm_world d))\<rparr>"

section \<open>Messages to the client\<close>

definition delta_msg :: "json \<Rightarrow> pystr \<Rightarrow> message" where
  "delta_msg qid t = mk_message Delta [qid, JStr t]"

definition status_msg :: "json \<Rightarrow> pystr \<Rightarrow> message" where
  "status_msg qid t = mk_message Status [qid, JStr t]"

definition error_msg :: "json \<Rightarrow> pystr \<Rightarrow> message" where
  "error_msg qid t = mk_message Error [qid, JStr t]"

definition done_msg :: "json \<Rightarrow> pystr \<Rightarrow> pystr \<Rightarrow> message" where
  "done_msg qid chain model = mk_message Done [qid, JStr chain, JStr model]"

definition bare_done :: "json \<Rightarrow> message" where
  "bare_done qid = mk_message Done [qid, JNull, JNull]"

abbreviation tell :: "'w services \<Rightarrow> message \<Rightarrow> ('w daemon, unit) act" where
  "tell sv \<equiv> client_send (sv_transport sv)"

text \<open>\<^verbatim>\<open>conn.send(wire.Done(id=\<dots>, chain="local", model=self.cfg.local_model))\<close>.\<close>

definition tell_done :: "'w services \<Rightarrow> json \<Rightarrow> ('w daemon, unit) act" where
  "tell_done sv qid = tell sv (done_msg qid ''local'' (cfg_local_model (sv_config sv)))"

definition answer_and_done :: "'w services \<Rightarrow> json \<Rightarrow> pystr \<Rightarrow> ('w daemon, unit) act" where
  "answer_and_done sv qid t = andthen (tell sv (delta_msg qid t)) (\<lambda>_. tell_done sv qid)"

definition ask :: "'w services \<Rightarrow> json \<Rightarrow> pystr \<Rightarrow> ('w daemon, bool) act" where
  "ask sv qid t = client_confirm (sv_transport sv) qid t"

definition tell_status :: "'w services \<Rightarrow> json \<Rightarrow> pystr \<Rightarrow> ('w daemon, unit) act" where
  "tell_status sv qid t = tell sv (status_msg qid t)"

text \<open>\<^verbatim>\<open>self.store.append(kind, \<dots>)\<close>.\<close>

definition record_event ::
  "'w services \<Rightarrow> pystr \<Rightarrow> pystr option \<Rightarrow> pystr option \<Rightarrow> pystr option \<Rightarrow> pystr \<Rightarrow>
     (pystr \<times> json) list option \<Rightarrow> ('w daemon, unit) act" where
  "record_event sv kind u scope severity t meta =
     andthen (append_store (sv_host sv) \<lparr>new_kind = kind, new_unit = u, new_scope = scope,
        new_severity = severity, new_text = t, new_meta = meta\<rparr>) (\<lambda>_. ret ())"

end
