(* ===== verification/Dispatch.thy ===== *)
theory Dispatch
  imports Services Routing
begin

text \<open>
  The life of a query in \<^verbatim>\<open>server.py\<close>: remediation, classification, routing, the deterministic
  actions, the offer to escalate, the two chains and \<^verbatim>\<open>_dispatch\<close> around them. The session
  lock makes one query one sequence of steps. The fields of a query have their declared
  types; its id is echoed and may be any JSON value.
\<close>

record user_query =
  qy_id :: json
  qy_text :: pystr
  qy_session :: pystr
  qy_chain :: json

section \<open>The local chain\<close>

definition could_not_check :: pystr where "could_not_check = ''I couldn't check that right now.''"

definition ground :: "'w services \<Rightarrow> module list \<Rightarrow> ('w daemon, pystr) act" where
  "ground sv mods = (if mods = [] then ret [] else lift (prefetch (sv_shell sv) mods))"

definition answer_locally :: "'w services \<Rightarrow> user_query \<Rightarrow> pystr \<Rightarrow> ('w daemon, unit) act" where
  "answer_locally sv q context =
     andthen (Local_LLM.summarize (daemon_http (sv_http sv)) (sv_texts sv) (local_backend sv) (augment (qy_text q) context)
                (\<lambda>piece. tell sv (delta_msg (qy_id q) piece))) (\<lambda>answer.
     andthen (history_append (qy_session q) ''user'' (qy_text q)) (\<lambda>_.
     andthen (history_append (qy_session q) ''assistant'' answer) (\<lambda>_.
     andthen (record_event sv ''ask'' None None None (qy_text q)
                (Some [(''answer'', JStr answer), (''chain'', JStr ''local'')])) (\<lambda>_.
       tell_done sv (qy_id q)))))"

definition run_local :: "'w services \<Rightarrow> user_query \<Rightarrow> module list \<Rightarrow> ('w daemon, unit) act" where
  "run_local sv q mods =
     andthen (ground sv mods) (\<lambda>context.
       if mods \<noteq> [] \<and> strip context = [] then answer_and_done sv (qy_id q) could_not_check
       else answer_locally sv q context)"

section \<open>The remote chain\<close>

text \<open>The dictionary of the exposed tools: of two with one name the later counts.\<close>

definition tool_cmds :: "module list \<Rightarrow> pystr \<rightharpoonup> pystr" where
  "tool_cmds mods = map_of (rev (concat (map (\<lambda>m.
     map (\<lambda>f. (tool_name m f, ft_cmd f)) (filter ft_expose (md_fetchers m))) mods)))"

definition rebuild_tool :: "'w services \<Rightarrow> user_query \<Rightarrow> json \<Rightarrow> ('w daemon, pystr) act" where
  "rebuild_tool sv q args =
     (case args of
        JObj kvs \<Rightarrow>
          (case the_default (JStr []) (map_of kvs ''action'') of
             JStr a \<Rightarrow> rebuild (sv_host sv) (sv_gate sv) (qy_session q) (ask sv (qy_id q)) a
           | j \<Rightarrow> raise (SafetyError (''unknown rebuild action: '' @ repr_json (sv_texts sv) j)))
      | j \<Rightarrow> raise (no_get j))"

definition call_tool :: "'w services \<Rightarrow> user_query \<Rightarrow> pystr \<Rightarrow> json \<Rightarrow> ('w daemon, pystr) act" where
  "call_tool sv q name args =
     (if name = ''nixadmin_rebuild'' then rebuild_tool sv q args
      else (case tool_cmds (sv_modules sv) name of
          None \<Rightarrow> ret (''(unknown tool: '' @ name @ '')'')
        | Some cmd \<Rightarrow> lift (\<lambda>w. let (r, w') = sv_shell sv cmd 15 w in (run_blocking r, w'))))"

text \<open>On an escalated query every result is scrubbed before it joins the conversation.\<close>

definition run_tool :: "'w services \<Rightarrow> user_query \<Rightarrow> bool \<Rightarrow> pystr \<Rightarrow> json \<Rightarrow> ('w daemon, pystr) act" where
  "run_tool sv q escalated name args =
     andthen (call_tool sv q name args) (\<lambda>result. ret (if escalated then sc_text (scrub result) else result))"

text \<open>The agent of a query; the second component of its state is the answer so far.\<close>

definition emit_piece :: "'w services \<Rightarrow> user_query \<Rightarrow> pystr \<Rightarrow> ('w daemon \<times> pystr, unit) act" where
  "emit_piece sv q piece s =
     (case s of (d, answer) \<Rightarrow> beside (tell sv (delta_msg (qy_id q) piece)) (d, answer @ piece))"

definition remote_agent :: "'w services \<Rightarrow> user_query \<Rightarrow> bool \<Rightarrow> ('w daemon \<times> pystr) agent" where
  "remote_agent sv q escalated = \<lparr>
     ag_import_error = sv_import_error sv,
     ag_complete = (\<lambda>m b tools msgs s. case s of (d, answer) \<Rightarrow>
        let (c, d') = raw_lift (sv_complete sv m b tools msgs) d in (c, (d', answer))),
     ag_model = cfg_remote_model (sv_config sv),
     ag_base = cfg_remote_base (sv_config sv),
     ag_tools = build_tools (sv_modules sv),
     ag_run_tool = (\<lambda>name args. beside (run_tool sv q escalated name args)),
     ag_emit = emit_piece sv q\<rparr>"

text \<open>History and context: nothing of either on an escalated query.\<close>

definition remote_context :: "'w services \<Rightarrow> user_query \<Rightarrow> bool \<Rightarrow> ('w daemon, json list \<times> pystr) act" where
  "remote_context sv q escalated =
     (if escalated then ret ([], [])
      else andthen (history_recent (qy_session q) 20) (\<lambda>history.
           andthen (assemble (sv_host sv) (providers sv)) (\<lambda>block. ret (history, [newline, newline] @ block))))"

definition record_remote :: "'w services \<Rightarrow> user_query \<Rightarrow> pystr \<Rightarrow> bool \<Rightarrow> pystr \<Rightarrow> ('w daemon, unit) act" where
  "record_remote sv q sent escalated answer =
     andthen (history_append (qy_session q) ''user'' sent) (\<lambda>_.
     andthen (history_append (qy_session q) ''assistant'' answer) (\<lambda>_.
     andthen (record_event sv ''ask'' None None None sent
                (Some [(''answer'', JStr answer), (''chain'', JStr ''remote''), (''escalated'', JBool escalated)])) (\<lambda>_.
       tell sv (done_msg (qy_id q) ''remote'' (cfg_remote_model (sv_config sv))))))"

definition converse :: "'w services \<Rightarrow> user_query \<Rightarrow> bool \<Rightarrow> pystr \<Rightarrow> json list \<times> pystr \<Rightarrow> ('w daemon, pystr) pact" where
  "converse sv q escalated sent hc d =
     (case run_agent (remote_agent sv q escalated) sent (fst hc) (snd hc) (d, []) of
        None \<Rightarrow> None
      | Some (r, (d', answer)) \<Rightarrow> Some (case r of Inl e \<Rightarrow> Inl e | Inr _ \<Rightarrow> Inr answer, d'))"

definition run_remote :: "'w services \<Rightarrow> user_query \<Rightarrow> pystr option \<Rightarrow> ('w daemon, unit) pact" where
  "run_remote sv q override =
     (let sent = the_default (qy_text q) override; escalated = (override \<noteq> None)
      in pthen (total (remote_context sv q escalated)) (\<lambda>hc.
         pthen (total (touch_session (qy_session q))) (\<lambda>_.
         pthen (converse sv q escalated sent hc) (\<lambda>answer.
           total (record_remote sv q sent escalated answer)))))"

section \<open>Escalation\<close>

definition REMOVED_NAMES :: "(pystr \<times> pystr) list" where
  "REMOVED_NAMES = [(''[email]'', ''email''), (''[ip]'', ''IP address''), (''[api-key]'', ''API key''),
     (''[token]'', ''token''), (''Bearer [token]'', ''token''), (''[aws-key]'', ''AWS key''),
     (''[slack-token]'', ''Slack token''), (''[secret]'', ''secret''),
     (''/home/[user]'', ''home path''), (''/Users/[user]'', ''home path'')]"

definition summarize_removed :: "pystr list \<Rightarrow> pystr" where
  "summarize_removed removed =
     (if removed = [] then '', with any personal details removed''
      else (let names = dict_fromkeys (map (\<lambda>r. the_default ''detail'' (map_of REMOVED_NAMES r)) removed);
                joined = (if length names = 1 then hd names
                          else join '', '' (butlast names) @ '' and '' @ last names)
            in '', with your '' @ joined @ '' removed''))"

definition redact_query :: "'w services \<Rightarrow> pystr \<Rightarrow> ('w daemon, redaction) act" where
  "redact_query sv t =
     (if has_local (sv_config sv) then lift (redact (redact_rewrite (sv_http sv) (local_backend sv)) t)
      else ret (scrub_only t))"

definition stay_local :: "'w services \<Rightarrow> user_query \<Rightarrow> module list \<Rightarrow> bool \<Rightarrow> pystr \<Rightarrow> ('w daemon, unit) act" where
  "stay_local sv q mods local_fallback change_text =
     (if local_fallback \<and> has_local (sv_config sv) then run_local sv q mods
      else answer_and_done sv (qy_id q) change_text)"

definition not_set_up :: pystr where
  "not_set_up = ''I can't make that change on my own yet '' @ [emdash] @ '' it needs the ''
     @ ''fuller assistant, which isn't set up on this machine.''"

definition keeping_here :: pystr where
  "keeping_here = ''Okay '' @ [emdash] @ '' keeping this on your device; I'll leave that '' @ ''change for now.''"

definition escalation_prompt :: "pystr \<Rightarrow> redaction \<Rightarrow> pystr" where
  "escalation_prompt reason r =
     reason @ [newline, newline] @ ''I can ask the fuller (cloud) assistant, but that means ''
     @ ''this leaves your device. Here's exactly what I'd send'' @ summarize_removed (rd_removed r) @ '':''
     @ [newline, newline, ldquote] @ rd_redacted r @ [rdquote, newline, newline]
     @ ''To answer, it may look things up on your device; anything sensitive is ''
     @ ''removed from those too, and nothing else about your machine is sent. '' @ ''Send it?''"

definition offer_escalation ::
  "'w services \<Rightarrow> user_query \<Rightarrow> module list \<Rightarrow> pystr \<Rightarrow> bool \<Rightarrow> ('w daemon, unit) pact" where
  "offer_escalation sv q mods reason local_fallback =
     (if \<not> sv_remote_ready sv then total (stay_local sv q mods local_fallback not_set_up)
      else pthen (total (redact_query sv (qy_text q))) (\<lambda>r.
           pthen (total (ask sv (qy_id q) (escalation_prompt reason r))) (\<lambda>yes.
             if \<not> yes then total (stay_local sv q mods local_fallback keeping_here)
             else run_remote sv q (Some (rd_redacted r)))))"

section \<open>Deterministic changes\<close>

definition suggest_package :: "'w services \<Rightarrow> pystr \<Rightarrow> ('w daemon, pystr) act" where
  "suggest_package sv phrase d =
     (case load_package_names (sv_host sv) (cfg_flake_dir (sv_config sv)) (dm_names d) (dm_world d) of
        (Inl e, w) \<Rightarrow> (Inl e, d\<lparr>dm_world := w\<rparr>)
      | (Inr (names, cache), w) \<Rightarrow>
          (let cands = fuzzy_candidates phrase names 8
           in if cands = [] then ret []
              else lift_call (judge_package (sv_http sv) (local_backend sv) phrase cands))
            (d\<lparr>dm_world := w, dm_names := cache\<rparr>))"

definition query_env :: "'w services \<Rightarrow> json \<Rightarrow> 'w daemon action_env" where
  "query_env sv qid = \<lparr>
     env_files = daemon_files (sv_files sv), env_host = daemon_host (sv_host sv),
     env_flake = cfg_flake_dir (sv_config sv), env_hostname = cfg_hostname (sv_config sv),
     env_confirm = ask sv qid, env_status = tell_status sv qid,
     env_switch = lift (apply_switch (sv_gate sv)),
     env_rollback = Some (lift (apply_revert (sv_gate sv))),
     env_suggest = Some (suggest_package sv)\<rparr>"

definition query_action :: "'w services \<Rightarrow> user_query \<Rightarrow> app_action \<Rightarrow> ('w daemon, unit) act" where
  "query_action sv q a =
     andthen (run_app_action (query_env sv (qy_id q)) a) (\<lambda>result.
     andthen (record_event sv ''action'' None None None result
                (Some [(''kind'', JStr (kind_name (act_kind a))), (''request'', JStr (qy_text q))])) (\<lambda>_.
       answer_and_done sv (qy_id q) result))"

definition query_remediation :: "'w services \<Rightarrow> user_query \<Rightarrow> remediation \<Rightarrow> ('w daemon, unit) act" where
  "query_remediation sv q rem =
     andthen (run_remediation (daemon_host (sv_host sv)) (ask sv (qy_id q)) (tell_status sv (qy_id q))
                (Some (\<lambda>u. lift (apply_restart (sv_gate sv) u))) rem) (\<lambda>result.
     andthen (record_event sv ''restart'' None None None result
                (Some [(''source'', JStr ''query''), (''request'', JStr (qy_text q))])) (\<lambda>_.
       answer_and_done sv (qy_id q) result))"

definition toggle_text :: pystr where
  "toggle_text = ''I can only install and remove apps for now '' @ [emdash] @ '' changing ''
     @ ''settings like that isn't supported yet.''"

definition run_change :: "'w services \<Rightarrow> user_query \<Rightarrow> module list \<Rightarrow> ('w daemon, unit) pact" where
  "run_change sv q mods =
     (case parse_action (qy_text q) of
        Some a \<Rightarrow>
          (if act_kind a = Toggle then total (answer_and_done sv (qy_id q) toggle_text)
           else total (query_action sv q a))
      | None \<Rightarrow> offer_escalation sv q mods ''That's a change I can't make on your device by myself.'' False)"

section \<open>Reads\<close>

definition classify_query :: "'w services \<Rightarrow> user_query \<Rightarrow> ('w daemon, module list) act" where
  "classify_query sv q d =
     (if \<not> has_local (sv_config sv) then ret [] d
      else (let warming = (\<not> sv_local_ready sv (dm_world d))
            in andthen (if warming
                        then tell_status sv (qy_id q) (''Warming up the local assistant'' @ [ellipsis] @ '' one moment.'')
                        else ret ()) (\<lambda>_.
                 lift_call (classify (sv_http sv) (local_backend sv) (qy_text q) (sv_modules sv)
                   (if warming then COLD_CLASSIFY_TIMEOUT else CLASSIFY_TIMEOUT)))) d)"

definition apply_decision :: "'w services \<Rightarrow> user_query \<Rightarrow> decision \<Rightarrow> ('w daemon, chain option) act" where
  "apply_decision sv q dec =
     (case dc_action dec of
        Proceed \<Rightarrow> ret (Some (dc_chain dec))
      | Unavailable_chain \<Rightarrow> andthen (tell sv (error_msg (qy_id q) (dc_message dec))) (\<lambda>_. ret None)
      | Wait_local \<Rightarrow>
          andthen (tell_status sv (qy_id q) (dc_message dec)) (\<lambda>_.
          andthen (lift (sv_wait_local sv)) (\<lambda>_. ret (Some Local)))
      | Confirm_remote \<Rightarrow>
          andthen (tell_status sv (qy_id q) (dc_message dec)) (\<lambda>_.
          andthen (ask sv (qy_id q) (dc_message dec)) (\<lambda>yes d.
            if yes then (Inr (Some Remote), d)
            else if sv_local_ready sv (dm_world d) then (Inr (Some Local), d)
            else andthen (lift (sv_wait_local sv)) (\<lambda>_. ret (Some Local)) d)))"

definition decide_chain :: "'w services \<Rightarrow> user_query \<Rightarrow> chain \<Rightarrow> bool \<Rightarrow> ('w daemon, chain option) act" where
  "decide_chain sv q desired pinned d =
     apply_decision sv q (resolve desired pinned (sv_local_ready sv (dm_world d)) (sv_remote_ready sv)) d"

definition wants_escalation :: "'w services \<Rightarrow> user_query \<Rightarrow> ('w daemon, bool) act" where
  "wants_escalation sv q =
     (if sv_remote_ready sv \<and> has_local (sv_config sv)
      then lift_call (assess_escalation (sv_http sv) (local_backend sv) (qy_text q)) else ret False)"

definition run_read :: "'w services \<Rightarrow> user_query \<Rightarrow> module list \<Rightarrow> chain option \<Rightarrow> ('w daemon, unit) pact" where
  "run_read sv q mods c =
     (case c of
        None \<Rightarrow> total (ret ())
      | Some Remote \<Rightarrow> run_remote sv q None
      | Some Local \<Rightarrow>
          pthen (total (wants_escalation sv q)) (\<lambda>escalate.
            if escalate
            then offer_escalation sv q mods ''I'm not sure I can answer this well on your device alone.'' True
            else total (run_local sv q mods)))"

section \<open>A query\<close>

definition explicit_chain :: "user_query \<Rightarrow> chain option" where
  "explicit_chain q =
     (if qy_chain q = JStr ''local'' then Some Local
      else if qy_chain q = JStr ''remote'' then Some Remote else None)"

definition run_query :: "'w services \<Rightarrow> user_query \<Rightarrow> ('w daemon, unit) pact" where
  "run_query sv q =
     (case parse (qy_text q) of
        Some rem \<Rightarrow> total (query_remediation sv q rem)
      | None \<Rightarrow>
          pthen (total (classify_query sv q)) (\<lambda>mods.
            let (desired, pinned) = resolve_desired_chain (explicit_chain q) mods (cfg_default_chain (sv_config sv))
            in if detect_mutation (qy_text q) then run_change sv q mods
               else pthen (total (decide_chain sv q desired pinned)) (run_read sv q mods)))"

text \<open>\<^verbatim>\<open>_dispatch\<close>: a cancelled query ends with \<^verbatim>\<open>Done\<close>, a failed one with \<^verbatim>\<open>Error\<close>.\<close>

definition end_failed :: "'w services \<Rightarrow> json \<Rightarrow> exn \<Rightarrow> ('w daemon, unit) act" where
  "end_failed sv qid e =
     (if is_cancelled e then tell sv (bare_done qid)
      else if is_nixadmin e then tell sv (error_msg qid (str_exn e))
      else tell sv (error_msg qid (''internal error: '' @ str_exn e)))"

definition dispatch :: "'w services \<Rightarrow> user_query \<Rightarrow> ('w daemon, unit) pact" where
  "dispatch sv q d =
     (case run_query sv q d of
        None \<Rightarrow> None
      | Some (Inr _, d') \<Rightarrow> Some (Inr (), d')
      | Some (Inl e, d') \<Rightarrow> Some (end_failed sv (qy_id q) e d'))"

end
