(* ===== verification/Frames.thy ===== *)
theory Frames
  imports Dispatch
begin

text \<open>
  Frame rules for the flows a handler is composed of: a flow respects an order on states
  when the calls it is given respect it. They are proved once, for any order, and used for
  the messages a handler sends and for what leaves the device.
\<close>

context state_order
begin

definition host_moves :: "'w host \<Rightarrow> bool" where
  "host_moves h \<longleftrightarrow> (\<forall>cmd t w. R w (snd (spawn h cmd t w))) \<and> (\<forall>w. R w (kill_group h w)) \<and> (\<forall>t w. R w (sleep h t w))"

definition files_move :: "'w files \<Rightarrow> bool" where
  "files_move fs \<longleftrightarrow> (\<forall>p. moves R (fs_read fs p)) \<and> (\<forall>p t. moves R (fs_write fs p t)) \<and>
     (\<forall>p. moves R (fs_mkdtemp fs p)) \<and> (\<forall>p w. R w (fs_unlink fs p w)) \<and> (\<forall>p w. R w (fs_rmtree fs p w))"

lemma moves_call: "host_moves h \<Longrightarrow> moves R (run h cmd d)"
  by (rule moves_run) (auto simp: host_moves_def)

lemma moves_call_checked: "host_moves h \<Longrightarrow> moves R (run_checked h cmd d)"
  by (rule moves_run_checked) (auto simp: host_moves_def)

lemma moves_case_prod: "(\<And>x y. moves R (f x y)) \<Longrightarrow> moves R (case p of (x, y) \<Rightarrow> f x y)"
  by (cases p) simp

lemma moves_option: "moves R m \<Longrightarrow> (\<And>x. moves R (f x)) \<Longrightarrow> moves R (case v of None \<Rightarrow> m | Some x \<Rightarrow> f x)"
  by (cases v) simp_all

lemma moves_sum: "(\<And>x. moves R (f x)) \<Longrightarrow> (\<And>y. moves R (g y)) \<Longrightarrow> moves R (case v of Inl x \<Rightarrow> f x | Inr y \<Rightarrow> g y)"
  by (cases v) simp_all

lemmas moves_rules = moves_ret moves_raise moves_andthen moves_try moves_finally moves_tolerate moves_if
  moves_case_prod moves_option moves_sum moves_call moves_call_checked

section \<open>Remediation\<close>

lemma moves_list_units: "host_moves h \<Longrightarrow> moves R (list_units h scope)"
  unfolding list_units_def by (intro moves_rules)

lemma moves_failed_units: "host_moves h \<Longrightarrow> moves R (failed_units h)"
  unfolding failed_units_def by (intro moves_rules moves_list_units)

lemma moves_unit_journal: "host_moves h \<Longrightarrow> moves R (unit_journal h u scope)"
  unfolding unit_journal_def unit_tail_def by (intro moves_rules)

lemma moves_restart_resolved:
  assumes h: "host_moves h" and s: "\<And>t. moves R (status t)" and r: "\<And>u. moves R (restart u)"
  shows "moves R (restart_resolved h status (Some restart) u scope)"
proof -
  have "R w (snd (verify_restart h u scope w))" for w
  proof -
    have "moves R (andthen (is_failed h u scope) (\<lambda>failed. if \<not> failed then ret (mk_outcome True (healthy_again u))
        else andthen (unit_tail h u scope) (\<lambda>reason. ret (mk_outcome False (still_failing u reason)))))"
      unfolding is_failed_def unit_tail_def by (intro moves_rules h)
    then have "R (sleep h 1 w) (snd (verify_restart h u scope w))"
      by (simp only: moves_def verify_restart_def)
    moreover have "R w (sleep h 1 w)" using h by (simp add: host_moves_def)
    ultimately show ?thesis using trans by blast
  qed
  then have v: "moves R (verify_restart h u scope)" by (simp only: moves_def simp_thms)
  show ?thesis
    unfolding restart_resolved_def issue_restart_def option.case
    by (intro moves_rules s r h v)
qed

lemma moves_run_remediation:
  assumes "host_moves h" "\<And>t. moves R (confirm t)" "\<And>t. moves R (status t)" "\<And>u. moves R (restart u)"
  shows "moves R (run_remediation h confirm status (Some restart) rem)"
proof -
  have "moves R (case cs of [] \<Rightarrow> ret (a sys usr)
      | [u] \<Rightarrow> andthen (confirm (''Restart '' @ u @ ''?'')) (\<lambda>yes. if \<not> yes then ret c
          else andthen (restart_resolved h status (Some restart) u (scope_of sys usr u)) (\<lambda>out. ret (out_message out)))
      | u # v # us \<Rightarrow> ret (b u v us))" for cs a b c sys usr
    by (auto split: list.split intro!: moves_rules moves_restart_resolved assms)
  then show ?thesis
    unfolding run_remediation_def
    by (intro moves_andthen moves_list_units assms) (simp only: list.case_eq_if)
qed

section \<open>App actions\<close>

lemma moves_validate:
  assumes "files_move fs" "host_moves h"
  shows "moves R (validate_in_worktree fs h flake hostname edited)"
proof -
  have "moves R (discard_worktree fs h flake wt)" for wt
    unfolding discard_worktree_def git_in_def
    by (intro moves_rules assms moves_do_world) (meson assms(1) files_move_def trans)
  moreover have "moves R (evaluate_edit fs h flake hostname wt edited)" for wt
    unfolding evaluate_edit_def git_in_def
    by (intro moves_rules assms) (use assms(1) in \<open>auto simp: files_move_def\<close>)
  ultimately show ?thesis
    unfolding validate_in_worktree_def
    by (intro moves_rules moves_state [where f = "\<lambda>v. andthen (fs_write fs _ (marker_text v _)) _"])
      (use assms(1) in \<open>auto simp: files_move_def intro: moves_rules\<close>)
qed

definition env_moves :: "'w action_env \<Rightarrow> bool" where
  "env_moves env \<longleftrightarrow> files_move (env_files env) \<and> host_moves (env_host env) \<and>
     (\<forall>t. moves R (env_confirm env t)) \<and> (\<forall>t. moves R (env_status env t)) \<and> moves R (env_switch env) \<and>
     (\<forall>m. env_rollback env = Some m \<longrightarrow> moves R m) \<and> (\<forall>f p. env_suggest env = Some f \<longrightarrow> moves R (f p))"

lemma env_movesD:
  assumes "env_moves env"
  shows "moves R (env_confirm env t)" "moves R (env_status env t)" "moves R (env_switch env)"
    "moves R (validate env edited)" "moves R (fs_write (env_files env) p t)" "moves R (fs_read (env_files env) p)"
  using assms moves_validate [of "env_files env" "env_host env"]
  by (auto simp: env_moves_def files_move_def validate_def)

lemma moves_propose:
  assumes "env_moves env"
  shows "moves R (propose env add original pkg edited)"
proof -
  have "moves R (try_suggestion env f original pkg edited diff)" if "env_suggest env = Some f" for f diff
  proof -
    have "moves R (f p)" for p using assms that by (auto simp: env_moves_def)
    then show ?thesis
      unfolding try_suggestion_def by (intro moves_rules env_movesD [OF assms])
  qed
  then show ?thesis
    unfolding propose_def
    by (cases "env_suggest env") (auto intro!: moves_rules env_movesD [OF assms])
qed

lemma moves_roll_back: "env_moves env \<Longrightarrow> moves R m \<Longrightarrow> moves R (roll_back env e m)"
  unfolding roll_back_def by (intro moves_rules env_movesD)

lemma moves_recover:
  assumes "env_moves env"
  shows "moves R (recover env original g e)"
proof -
  have "moves R (case env_rollback env of None \<Rightarrow> ret (reverted_text e)
      | Some rollback \<Rightarrow> if v \<noteq> g then roll_back env e rollback else ret (reverted_text e))" for v
    using assms by (cases "env_rollback env") (auto simp: env_moves_def intro!: moves_rules moves_roll_back assms)
  then have "moves R (\<lambda>w. (case env_rollback env of None \<Rightarrow> ret (reverted_text e)
      | Some rollback \<Rightarrow> if system_generation env w \<noteq> g then roll_back env e rollback else ret (reverted_text e)) w)"
    by (simp only: moves_def simp_thms)
  then show ?thesis
    unfolding recover_def by (intro moves_andthen env_movesD [OF assms])
qed

lemma moves_apply_proposal:
  assumes "env_moves env"
  shows "moves R (apply_proposal env add original p)"
proof -
  have "moves R (try_nixadmin (andthen (env_switch env) (\<lambda>result. ret (done_text add (pr_pkg p) result)))
      (recover env original g))" for g
    by (intro moves_rules env_movesD [OF assms] moves_recover assms)
  then have "moves R (\<lambda>w. try_nixadmin (andthen (env_switch env) (\<lambda>result. ret (done_text add (pr_pkg p) result)))
      (recover env original (system_generation env w)) w)"
    by (simp only: moves_def simp_thms)
  then show ?thesis
    unfolding apply_proposal_def Let_def by (intro moves_andthen env_movesD [OF assms])
qed

lemma moves_run_app_action:
  assumes "env_moves env"
  shows "moves R (run_app_action env action)"
proof -
  let ?add = "act_kind action = Install_app" and ?pkg = "act_target action"
  have ask: "moves R (ask_and_apply env add original p)" for add original p
    unfolding ask_and_apply_def by (intro moves_rules env_movesD [OF assms] moves_apply_proposal assms)
  define m where "m = andthen (read_text (env_files env) (home_path env)) (\<lambda>original.
      case edit_packages original ?pkg ?add of
        Inl e \<Rightarrow> ret (str_exn e)
      | Inr edited \<Rightarrow> if edited = original
          then ret (?pkg @ '' looks like it's already '' @ (if ?add then ''installed'' else ''not installed'') @ ''.'')
          else andthen (propose env ?add original ?pkg edited) (ask_and_apply env ?add original))"
  have "moves R m"
    unfolding m_def read_text_def by (intro moves_rules env_movesD [OF assms] moves_propose assms ask)
  moreover have "run_app_action env action w =
      (if ?pkg = [] then ret ''I didn't catch which app you meant.'' w
       else if \<not> fs_exists (env_files env) (home_path env) w
       then ret ''I couldn't find the packages file to edit.'' w else m w)" for w
    by (simp only: run_app_action_def Let_def m_def)
  ultimately show ?thesis by (simp add: moves_def ret_def refl)
qed

section \<open>Streams\<close>

lemma moves_stream_answer:
  assumes "\<And>s. moves R (emit s)"
  shows "moves R (stream_answer py emit answer ls fin)"
proof (induction ls arbitrary: answer)
  case Nil
  then show ?case by (auto split: option.split intro: moves_rules)
next
  case (Cons l ls)
  have "moves R (consume emit answer delta)" for delta
    by (auto simp: consume_def split: json.split intro!: moves_rules assms)
  then show ?case
    by (auto split: option.split sum.split intro!: moves_rules Cons.IH)
qed

lemma moves_summarize:
  assumes "\<And>u b t w. R w (snd (http_stream net u b t w))" "\<And>s. moves R (emit s)"
  shows "moves R (Local_LLM.summarize net py b msg emit)"
  unfolding moves_def
proof
  fix w
  obtain reply w1 where r: "http_stream net (bk_url b @ ''/api/chat'') (chat_body (bk_model b) msg) 120 w = (reply, w1)"
    by fastforce
  with assms(1) [of w] have "R w w1" by (metis snd_conv)
  moreover have "R w1 (snd (stream_answer py emit [] ls fin w1))" for ls fin
    using moves_stream_answer [of emit] assms(2) by (auto simp: moves_def)
  ultimately show "R w (snd (Local_LLM.summarize net py b msg emit w))"
    using r by (auto simp: Local_LLM.summarize_def raise_def intro: trans split: stream_reply.split)
qed

end

end
