(* ===== verification/Query_Frames.thy ===== *)
theory Query_Frames
  imports Frames
begin

text \<open>
  The frame of a query: what every part of the dispatch that comes before its last message
  respects. The interface is an order on the machine, one on the daemon and the services; it is
  interpreted for the messages sent and for the requests to the remote model.
\<close>

context state_order
begin

text \<open>The services respect the order, with the exception of the remote completion.\<close>

definition services_move :: "'w services \<Rightarrow> bool" where
  "services_move sv \<longleftrightarrow> host_moves (sv_host sv) \<and> files_move (sv_files sv) \<and>
     (\<forall>req w. R w (snd (talk (sv_gate sv) req w))) \<and>
     (\<forall>u t w. R w (snd (http_get (sv_http sv) u t w))) \<and>
     (\<forall>u b t w. R w (snd (http_post (sv_http sv) u b t w))) \<and>
     (\<forall>u b t w. R w (snd (http_stream (sv_http sv) u b t w))) \<and>
     (\<forall>cmd t w. R w (snd (sv_shell sv cmd t w))) \<and>
     (\<forall>p. moves R (tr_drain (sv_transport sv) p)) \<and>
     (\<forall>qid w. R w (snd (tr_answer (sv_transport sv) qid w))) \<and>
     moves R (sv_wait_local sv) \<and> (\<forall>n. moves R (pv_get (sv_provider sv n)))"

lemma services_moveD:
  assumes "services_move sv"
  shows "host_moves (sv_host sv)" "files_move (sv_files sv)" "R w (snd (talk (sv_gate sv) req w))"
    "R w (snd (http_get (sv_http sv) u t w))" "R w (snd (http_post (sv_http sv) u b t w))"
    "R w (snd (http_stream (sv_http sv) u b t w))" "R w (snd (sv_shell sv cmd n w))"
    "moves R (tr_drain (sv_transport sv) p)" "R w (snd (tr_answer (sv_transport sv) qid w))"
    "moves R (sv_wait_local sv)" "moves R (pv_get (sv_provider sv name))"
  using assms by (auto simp: services_move_def)

lemma moves_run_helper: "services_move sv \<Longrightarrow> moves R (run_helper (sv_gate sv) req)"
  unfolding moves_def run_helper_def Let_def
  using services_moveD(3) [of sv] by (auto split: prod.split) (metis snd_conv)

lemma moves_checked_helper: "services_move sv \<Longrightarrow> moves R (checked_helper (sv_gate sv) what req)"
  unfolding checked_helper_def by (intro moves_rules moves_run_helper)

lemma moves_prefetch:
  assumes "services_move sv"
  shows "moves R (prefetch (sv_shell sv) mods)"
proof -
  have run: "R w (snd (run_all (sv_shell sv) fs w))" for fs w
  proof (induction fs arbitrary: w)
    case Nil
    then show ?case by (simp add: refl)
  next
    case (Cons f fs)
    obtain m f' where f: "f = (m, f')" by (cases f)
    obtain r w1 where r: "sv_shell sv (ft_cmd f') (ft_timeout f') w = (r, w1)" by fastforce
    then have "R w w1" using services_moveD(7) [OF assms, of w] by (metis snd_conv)
    with Cons.IH [of w1] show ?case using f r by (auto simp: Let_def intro: trans split: prod.splits)
  qed
  have "R w (snd (prefetch (sv_shell sv) mods w))" for w
    using run [of w "selected mods"] by (auto simp: prefetch_def Let_def refl split: prod.splits)
  then show ?thesis by (simp add: moves_def)
qed

lemma moves_generate:
  "services_move sv \<Longrightarrow> R w (snd (generate (sv_http sv) b prompt n t w))"
  using services_moveD(5) [of sv] by (auto simp: generate_def Let_def split: prod.split) (metis snd_conv)

lemma moves_model_calls:
  assumes "services_move sv"
  shows "R w (snd (classify (sv_http sv) b query mods t w))"
    "R w (snd (judge_package (sv_http sv) b query cands w))"
    "R w (snd (assess_escalation (sv_http sv) b query w))"
    "R w (snd (is_ready (sv_http sv) b w))"
    "moves R (redact_rewrite (sv_http sv) b s)"
  using moves_generate [OF assms] services_moveD(4) [OF assms]
  by (auto simp: classify_def judge_package_def assess_escalation_def is_ready_def redact_rewrite_def
      moves_def refl Let_def split: prod.split) (metis snd_conv)+

lemma moves_try_exception: "moves R m \<Longrightarrow> (\<And>e. moves R (f e)) \<Longrightarrow> moves R (try_exception m f)"
  unfolding moves_def try_exception_def
  by (auto split: prod.splits sum.splits) (metis refl trans snd_conv)+

lemma fst_order: "state_order (\<lambda>u v. R (fst u) (fst v))"
  by unfold_locales (auto intro: refl trans)

lemma moves_redact: "(\<And>s. moves R (rewrite s)) \<Longrightarrow> moves R (redact rewrite t)"
  unfolding moves_def redact_def Let_def by (auto split: prod.split) (metis snd_conv)

end

locale query_frame = world: state_order Q + daemon: state_order R
  for Q :: "'w \<Rightarrow> 'w \<Rightarrow> bool" and R :: "'w daemon \<Rightarrow> 'w daemon \<Rightarrow> bool" +
  fixes sv :: "'w services" and sendable_classes :: "wire_class set"
  assumes services: "world.services_move sv"
    and world_step: "Q (dm_world d) w \<Longrightarrow> R d (d\<lparr>dm_world := w\<rparr>)"
    and store_step: "R d (d\<lparr>dm_store := st\<rparr>)"
    and sessions_step: "R d (d\<lparr>dm_sessions := ss\<rparr>)"
    and context_step: "R d (d\<lparr>dm_context := cc\<rparr>)"
    and names_step: "R d (d\<lparr>dm_names := nn\<rparr>)"
    and reply_step: "msg_class m \<in> sendable_classes \<Longrightarrow> R d (d\<lparr>dm_replies := dm_replies d @ [m]\<rparr>)"
    and classes: "{Confirm, Status, Delta} \<subseteq> sendable_classes"
begin

lemma moves_lift: "moves Q m \<Longrightarrow> moves R (lift m)"
  unfolding moves_def lift_def using world_step by (auto split: prod.split) (metis snd_conv)

lemma raw_lift_step: "Q (dm_world d) (snd (f (dm_world d))) \<Longrightarrow> R d (snd (raw_lift f d))"
  using world_step by (auto simp: raw_lift_def split: prod.split)

lemma moves_lift_call: "(\<And>w. Q w (snd (f w))) \<Longrightarrow> moves R (lift_call f)"
  unfolding lift_call_def
  by (rule moves_lift) (auto simp: moves_def Let_def split: prod.split, metis snd_conv)

lemma daemon_host_moves: "daemon.host_moves (daemon_host (sv_host sv))"
  using world.services_moveD(1) [OF services] world_step
  by (auto simp: daemon.host_moves_def world.host_moves_def daemon_host_def split: prod.split)
    (metis snd_conv)

lemma daemon_files_move: "daemon.files_move (daemon_files (sv_files sv))"
  using world.services_moveD(2) [OF services] world_step
  by (auto simp: daemon.files_move_def world.files_move_def daemon_files_def intro: moves_lift)

lemma moves_tell: "msg_class m \<in> sendable_classes \<Longrightarrow> moves R (tell sv m)"
proof -
  assume m: "msg_class m \<in> sendable_classes"
  have "R d (snd (tell sv m d))" for d
  proof (cases "fits_wire (tr_float (sv_transport sv)) m")
    case True
    let ?d = "d\<lparr>dm_replies := dm_replies d @ [m]\<rparr>"
    have "R d ?d" by (rule reply_step [OF m])
    moreover have "R ?d (snd (lift (tr_drain (sv_transport sv) (encode (tr_float (sv_transport sv)) m)) ?d))"
      using moves_lift [OF world.services_moveD(8) [OF services]] by (simp only: moves_def)
    ultimately show ?thesis using True daemon.trans by (simp add: client_send_def)
  qed (simp add: client_send_def raise_def daemon.refl)
  then show ?thesis by (simp add: moves_def)
qed

lemma moves_delta: "moves R (tell sv (delta_msg qid s))"
  by (rule moves_tell) (use classes in \<open>auto simp: delta_msg_def mk_message_def\<close>)

lemma moves_status: "moves R (tell_status sv qid s)"
  unfolding tell_status_def
  by (rule moves_tell) (use classes in \<open>auto simp: status_msg_def mk_message_def\<close>)

lemma moves_ask: "moves R (ask sv qid s)"
  unfolding ask_def client_confirm_def await_response_def
proof (intro daemon.moves_rules moves_lift)
  show "moves R (tell sv (mk_message Confirm [qid, JStr s]))"
    by (rule moves_tell) (use classes in \<open>auto simp: mk_message_def\<close>)
  show "moves Q (\<lambda>w. let (r, w') = tr_answer (sv_transport sv) qid w in (Inr r, w'))"
    using world.services_moveD(9) [OF services] by (auto simp: moves_def Let_def split: prod.split) (metis snd_conv)
qed

lemma moves_append_store: "moves R (append_store h e)"
  unfolding moves_def append_store_def Let_def using store_step by (auto split: prod.split)

lemma moves_record_event: "moves R (record_event sv kind u scope severity s meta)"
  unfolding record_event_def by (intro daemon.moves_rules moves_append_store)

lemma moves_history: "moves R (history_append a b c)" "moves R (history_recent a n)"
  unfolding history_append_def history_recent_def by (intro daemon.moves_rules)+

lemma moves_touch: "moves R (touch_session s)"
  unfolding moves_def touch_session_def using sessions_step by auto

lemma moves_get_context: "moves R (get_context h (sv_provider sv n))"
proof -
  have "moves R (andthen (lift (pv_get (sv_provider sv n)))
      (\<lambda>t d. (Inr t, d\<lparr>dm_context := (dm_context d)(k \<mapsto> (t, clock h (dm_world d)))\<rparr>)))" for k
    by (intro daemon.moves_rules moves_lift world.services_moveD [OF services])
      (use context_step in \<open>auto simp: moves_def\<close>)
  then have "moves R (try_exception (andthen (lift (pv_get (sv_provider sv n)))
      (\<lambda>t d. (Inr t, d\<lparr>dm_context := (dm_context d)(k \<mapsto> (t, clock h (dm_world d)))\<rparr>))) (\<lambda>e. ret s))" for k s
    by (rule daemon.moves_try_exception) (rule daemon.moves_ret)
  then have "R d (snd (fetch_context h (sv_provider sv n) d))" for d
    by (simp add: moves_def fetch_context_def)
  then show ?thesis by (auto simp: moves_def get_context_def daemon.refl split: option.split)
qed

lemma moves_assemble: "moves R (assemble h (map (sv_provider sv) ns))"
proof -
  have "moves R (context_parts h (map (sv_provider sv) ns))"
    by (induction ns) (auto intro!: daemon.moves_rules moves_get_context)
  then show ?thesis unfolding assemble_def by (intro daemon.moves_rules)
qed

section \<open>The parts of a query\<close>

lemma moves_ground: "moves R (ground sv mods)"
  unfolding ground_def by (intro daemon.moves_rules moves_lift world.moves_prefetch services)

lemma moves_local_stream:
  "moves R (Local_LLM.summarize (daemon_http (sv_http sv)) py b s (\<lambda>piece. tell sv (delta_msg qid piece)))"
  by (rule daemon.moves_summarize)
    (auto simp: daemon_http_def intro: raw_lift_step moves_delta world.services_moveD [OF services])

lemma moves_rebuild: "moves R (rebuild (sv_host sv) (sv_gate sv) session (ask sv qid) a)"
proof -
  have "moves R (record_test (sv_host sv) session v)" for v
    unfolding moves_def record_test_def using sessions_step by auto
  then have d: "moves R (dispatch_rebuild (sv_host sv) (sv_gate sv) session a)"
    unfolding dispatch_rebuild_def
    by (intro daemon.moves_rules moves_lift world.moves_run_helper services)
  have "R s (snd (rebuild (sv_host sv) (sv_gate sv) session (ask sv qid) a s))" for s
  proof -
    have "moves R (andthen (ask sv qid (confirm_text a)) (\<lambda>yes. if \<not> yes then ret cancelled_text
        else dispatch_rebuild (sv_host sv) (sv_gate sv) session a))"
      by (intro daemon.moves_rules moves_ask d)
    with d show ?thesis by (auto simp: rebuild_def moves_def ret_def raise_def daemon.refl)
  qed
  then show ?thesis by (simp add: moves_def)
qed

lemma moves_call_tool: "moves R (call_tool sv q name args)"
proof -
  have "moves Q (\<lambda>w. let (r, w') = sv_shell sv cmd 15 w in (run_blocking r, w'))" for cmd
    using world.services_moveD(7) [OF services] by (auto simp: moves_def Let_def split: prod.split) (metis snd_conv)
  moreover have "moves R (rebuild_tool sv q args)"
    unfolding rebuild_tool_def by (auto split: json.split intro!: daemon.moves_rules moves_rebuild)
  ultimately show ?thesis
    unfolding call_tool_def by (intro daemon.moves_rules moves_lift)
qed

lemma moves_run_tool: "moves R (run_tool sv q escalated name args)"
  unfolding run_tool_def by (intro daemon.moves_rules moves_call_tool)

lemma moves_remote_context: "moves R (remote_context sv q escalated)"
  unfolding remote_context_def providers_def
  by (intro daemon.moves_rules moves_history moves_assemble)

lemma moves_redact_query: "moves R (redact_query sv s)"
  unfolding redact_query_def
  by (intro daemon.moves_rules moves_lift world.moves_redact world.moves_model_calls services)

lemma moves_suggest: "moves R (suggest_package sv phrase)"
proof -
  have load: "moves Q (load_package_names (sv_host sv) flake cache)" for flake cache
    unfolding load_package_names_def Let_def
    by (intro world.moves_rules world.services_moveD [OF services])
  have judge: "moves R (if cands = [] then ret []
      else lift_call (judge_package (sv_http sv) (local_backend sv) phrase cands))" for cands
    by (intro daemon.moves_rules moves_lift_call world.moves_model_calls services)
  have "R d (snd (suggest_package sv phrase d))" for d
  proof -
    obtain r w where r: "load_package_names (sv_host sv) (cfg_flake_dir (sv_config sv)) (dm_names d) (dm_world d) = (r, w)"
      by fastforce
    then have "Q (dm_world d) w" by (rule movesD [OF load])
    then have 1: "R d (d\<lparr>dm_world := w\<rparr>)" by (rule world_step)
    have 2: "R (d\<lparr>dm_world := w\<rparr>) (d\<lparr>dm_world := w, dm_names := cache\<rparr>)" for cache
      using names_step [of "d\<lparr>dm_world := w\<rparr>"] by simp
    show ?thesis
    proof (cases r)
      case (Inl e)
      with r 1 show ?thesis by (simp add: suggest_package_def)
    next
      case (Inr p)
      obtain names cache where p: "p = (names, cache)" by (cases p)
      have "R (d\<lparr>dm_world := w, dm_names := cache\<rparr>) (snd (suggest_package sv phrase d))"
        using judge [of "fuzzy_candidates phrase names 8"] r Inr p
        by (simp add: suggest_package_def moves_def Let_def)
      with 1 2 show ?thesis using daemon.trans by blast
    qed
  qed
  then show ?thesis by (simp add: moves_def)
qed

lemma moves_action_result: "moves R (run_app_action (query_env sv qid) a)"
proof (rule daemon.moves_run_app_action)
  show "daemon.env_moves (query_env sv qid)"
    unfolding daemon.env_moves_def query_env_def apply_switch_def apply_revert_def
    by (auto intro: daemon_host_moves daemon_files_move moves_ask moves_status moves_suggest
        moves_lift world.moves_checked_helper services)
qed

lemma moves_remediation_result:
  "moves R (run_remediation (daemon_host (sv_host sv)) (ask sv qid) (tell_status sv qid)
     (Some (\<lambda>u. lift (apply_restart (sv_gate sv) u))) rem)"
  unfolding apply_restart_def
  by (intro daemon.moves_run_remediation daemon_host_moves moves_ask moves_status moves_lift
      world.moves_checked_helper services)

lemma moves_classify_query: "moves R (classify_query sv q)"
proof -
  have "moves R (andthen (if warm then tell_status sv (qy_id q) s else ret ()) (\<lambda>_.
      lift_call (classify (sv_http sv) (local_backend sv) (qy_text q) (sv_modules sv) t)))" for warm s t
    by (intro daemon.moves_rules moves_status moves_lift_call world.moves_model_calls services)
  then show ?thesis by (simp add: moves_def classify_query_def ret_def daemon.refl Let_def)
qed

text \<open>Everything of the choice of the chain but the \<^verbatim>\<open>Error\<close> that ends an impossible query.\<close>

lemma moves_apply_decision:
  assumes "dc_action dec \<noteq> Unavailable_chain"
  shows "moves R (apply_decision sv q dec)"
proof -
  have wait: "moves R (andthen (lift (sv_wait_local sv)) (\<lambda>_. ret (Some Local)))"
    by (intro daemon.moves_rules moves_lift world.services_moveD [OF services])
  then have "moves R (\<lambda>d. if yes then (Inr (Some Remote), d)
      else if sv_local_ready sv (dm_world d) then (Inr (Some Local), d)
      else andthen (lift (sv_wait_local sv)) (\<lambda>_. ret (Some Local)) d)" for yes
    by (simp add: moves_def daemon.refl)
  with wait show ?thesis
    using assms unfolding apply_decision_def
    by (cases "dc_action dec") (auto intro!: daemon.moves_rules moves_status moves_ask)
qed

text \<open>The conversation with the remote model, given what its completions do.\<close>

lemma moves_converse:
  assumes run: "converse sv q escalated sent hc d = Some (r, d')"
    and M: "M (first_messages sent (fst hc) (snd hc))"
    and complete: "\<And>msgs d. M msgs \<Longrightarrow> R d (snd (raw_lift (sv_complete sv (cfg_remote_model (sv_config sv))
      (if cfg_remote_base (sv_config sv) = Some [] then None else cfg_remote_base (sv_config sv))
      (build_tools (sv_modules sv)) msgs) d))"
    and grow: "\<And>msgs t calls rs s1 s2. M msgs \<Longrightarrow>
      execute_calls (ag_run_tool (remote_agent sv q escalated)) (map snd calls) s1 = (Inr rs, s2) \<Longrightarrow>
      M (msgs @ assistant_turn t calls # rs)"
  shows "R d d'"
proof -
  let ?ag = "remote_agent sv q escalated"
  let ?c = "\<lambda>m b tools msgs. raw_lift (sv_complete sv m b tools msgs)"
  have step: "R (fst s) (fst (snd (ag_complete ?ag (ag_model ?ag) (if ag_base ?ag = Some [] then None else ag_base ?ag)
      (ag_tools ?ag) msgs s)))" if "M msgs" for msgs s
    using complete [OF that, of "fst s"]
    by (cases s) (simp add: remote_agent_def Let_def split: prod.split, metis snd_conv)
  have emit: "moves (\<lambda>u v. R (fst u) (fst v)) (ag_emit ?ag s)" for s
    using moves_delta [of "qy_id q" s]
    by (auto simp: remote_agent_def emit_piece_def moves_def beside_def Let_def split: prod.split) (metis snd_conv)
  have tool: "moves (\<lambda>u v. R (fst u) (fst v)) (ag_run_tool ?ag n a)" for n a
    by (simp add: remote_agent_def moves_beside moves_run_tool)
  note loop = state_order.agent_loop_moves [OF daemon.fst_order, where ag = ?ag and M = M, OF _ M step emit tool grow]
  from run obtain out where out: "run_agent ?ag sent (fst hc) (snd hc) (d, []) = Some out" and d': "d' = fst (snd out)"
    by (auto simp: converse_def split: option.splits)
  show ?thesis
  proof (cases "ag_import_error ?ag")
    case None
    then have "agent_loop ?ag (first_messages sent (fst hc) (snd hc)) (d, []) = Some out"
      using out by (simp add: run_agent_def)
    from loop [OF this] show ?thesis by (simp add: d')
  next
    case (Some m)
    with out d' show ?thesis by (auto simp: run_agent_def raise_def total_def daemon.refl)
  qed
qed

lemma moves_wants_escalation: "moves R (wants_escalation sv q)"
  unfolding wants_escalation_def
  by (intro daemon.moves_rules moves_lift_call world.moves_model_calls services)

end

end
