(* ===== verification/Dispatch_Messages.thy ===== *)
theory Dispatch_Messages
  imports Query_Frames
begin

text \<open>
  How a query ends for its client: with one \<^verbatim>\<open>Done\<close> or \<^verbatim>\<open>Error\<close>, as its last message.
\<close>

definition terminal :: "message \<Rightarrow> bool" where
  "terminal m \<longleftrightarrow> msg_class m \<in> {Done, Error}"

definition open_ended :: "message list \<Rightarrow> bool" where
  "open_ended ms \<longleftrightarrow> list_all (\<lambda>m. \<not> terminal m) ms"

text \<open>Only messages that end nothing were sent in between.\<close>

definition talks :: "'w daemon \<Rightarrow> 'w daemon \<Rightarrow> bool" where
  "talks d d' \<longleftrightarrow> (\<exists>ms. dm_replies d' = dm_replies d @ ms \<and> open_ended ms)"

interpretation anything: state_order "\<lambda>u v. True"
  by unfold_locales simp_all

interpretation talks: query_frame "\<lambda>u v. True" talks sv "- {Done, Error}" for sv
proof unfold_locales
  fix u v w :: "'a daemon"
  show "talks w w" by (auto simp: talks_def open_ended_def)
  assume "talks u v" "talks v w"
  then show "talks u w" by (fastforce simp: talks_def open_ended_def)
next
  show "anything.services_move sv"
    by (simp add: anything.services_move_def anything.host_moves_def anything.files_move_def moves_def)
qed (auto simp: talks_def open_ended_def terminal_def)

text \<open>The outcome of a flow that is to end the query.\<close>

definition finishes :: "'w daemon \<Rightarrow> exn + unit \<Rightarrow> 'w daemon \<Rightarrow> bool" where
  "finishes d r d' \<longleftrightarrow>
     (case r of
        Inr _ \<Rightarrow> \<exists>ms t. dm_replies d' = dm_replies d @ ms @ [t] \<and> open_ended ms \<and> terminal t
      | Inl e \<Rightarrow> talks d d')"

definition concludes :: "('w daemon, unit) pact \<Rightarrow> bool" where
  "concludes m \<longleftrightarrow> (\<forall>d r d'. m d = Some (r, d') \<longrightarrow> finishes d r d')"

definition drains_ok :: "'w transport \<Rightarrow> bool" where
  "drains_ok tr \<longleftrightarrow> (\<forall>p w. \<exists>w'. tr_drain tr p w = (Inr (), w'))"

lemma talks_finishes: "talks d d1 \<Longrightarrow> finishes d1 r d' \<Longrightarrow> finishes d r d'"
proof -
  assume t: "talks d d1" and f: "finishes d1 r d'"
  from t obtain ms where ms: "dm_replies d1 = dm_replies d @ ms" "open_ended ms" by (auto simp: talks_def)
  show ?thesis
  proof (cases r)
    case (Inl e)
    with f have "talks d1 d'" by (simp add: finishes_def)
    with t Inl show ?thesis by (auto simp: finishes_def intro: talks.daemon.trans)
  next
    case (Inr u)
    with f obtain ms' m where "dm_replies d' = dm_replies d1 @ ms' @ [m]" "open_ended ms'" "terminal m"
      by (auto simp: finishes_def)
    with ms Inr have "dm_replies d' = dm_replies d @ (ms @ ms') @ [m] \<and> open_ended (ms @ ms') \<and> terminal m"
      by (simp add: open_ended_def)
    with Inr show ?thesis by (simp only: finishes_def sum.case) blast
  qed
qed

lemma concludes_pthen:
  assumes "\<And>d r d'. m d = Some (r, d') \<Longrightarrow> talks d d'" "\<And>x. concludes (f x)"
  shows "concludes (pthen m f)"
  unfolding concludes_def
proof (intro allI impI)
  fix d r d'
  assume run: "pthen m f d = Some (r, d')"
  then obtain r1 d1 where m: "m d = Some (r1, d1)" by (auto simp: pthen_def split: option.splits)
  note t = assms(1) [OF m]
  show "finishes d r d'"
  proof (cases r1)
    case (Inl e)
    with run m have "r = Inl e" "d' = d1" by (simp_all add: pthen_def)
    with t show ?thesis by (simp add: finishes_def)
  next
    case (Inr x)
    with run m have "f x d1 = Some (r, d')" by (simp add: pthen_def)
    with assms(2) [of x] have "finishes d1 r d'" by (simp add: concludes_def)
    with t show ?thesis by (rule talks_finishes)
  qed
qed

lemma concludes_andthen:
  assumes "moves talks m" "\<And>x. concludes (total (f x))"
  shows "concludes (total (andthen m f))"
  unfolding pthen_total [symmetric]
  by (rule concludes_pthen [OF _ assms(2)]) (use assms(1) in \<open>auto simp: total_def dest: movesD\<close>)

lemma concludes_total_then:
  assumes "moves talks m" "\<And>x. concludes (f x)"
  shows "concludes (pthen (total m) f)"
  by (rule concludes_pthen [OF _ assms(2)]) (use assms(1) in \<open>auto simp: total_def dest: movesD\<close>)

lemma concludes_if: "concludes m \<Longrightarrow> concludes n \<Longrightarrow> concludes (if c then m else n)"
  by simp

lemma total_if: "total (if c then m else n) = (if c then total m else total n)"
  by simp

lemma concludes_tell:
  assumes "drains_ok (sv_transport sv)" "terminal m"
  shows "concludes (total (tell sv m))"
proof -
  have "finishes d r d'" if r: "tell sv m d = (r, d')" for d r d'
  proof (cases "fits_wire (tr_float (sv_transport sv)) m")
    case True
    obtain w where w: "tr_drain (sv_transport sv) (encode (tr_float (sv_transport sv)) m) (dm_world d) = (Inr (), w)"
      using assms(1) by (auto simp: drains_ok_def)
    from r True w have "r = Inr ()" "dm_replies d' = dm_replies d @ [] @ [m]"
      by (auto simp: client_send_value Let_def)
    then show ?thesis using assms(2) by (auto simp: finishes_def open_ended_def)
  next
    case False
    with r show ?thesis by (auto simp: client_send_value finishes_def intro: talks.daemon.refl)
  qed
  then show ?thesis by (auto simp: concludes_def total_def)
qed

lemma terminal_simps [simp]:
  "terminal (done_msg qid c m)" "terminal (error_msg qid s)" "terminal (bare_done qid)"
  by (simp_all add: terminal_def done_msg_def error_msg_def bare_done_def mk_message_def)

section \<open>The flows that end a query\<close>

lemma concludes_done: "drains_ok (sv_transport sv) \<Longrightarrow> concludes (total (tell_done sv qid))"
  unfolding tell_done_def by (rule concludes_tell) simp_all

lemma concludes_answer: "drains_ok (sv_transport sv) \<Longrightarrow> concludes (total (answer_and_done sv qid s))"
  unfolding answer_and_done_def by (intro concludes_andthen talks.moves_delta concludes_done)

lemmas part_moves = talks.moves_ground talks.moves_local_stream talks.moves_history talks.moves_record_event
  talks.moves_action_result talks.moves_remediation_result talks.moves_remote_context talks.moves_touch
  talks.moves_redact_query talks.moves_ask talks.moves_classify_query talks.moves_wants_escalation

lemma concludes_run_local:
  assumes "drains_ok (sv_transport sv)"
  shows "concludes (total (run_local sv q mods))"
proof -
  have "concludes (total (answer_locally sv q c))" for c
    unfolding answer_locally_def by (intro concludes_andthen part_moves concludes_done assms)
  then show ?thesis
    unfolding run_local_def
    by (intro concludes_andthen part_moves) (simp add: concludes_answer assms)
qed

lemma concludes_stay_local:
  "drains_ok (sv_transport sv) \<Longrightarrow> concludes (total (stay_local sv q mods fallback s))"
  by (simp add: stay_local_def concludes_run_local concludes_answer)

lemma concludes_action: "drains_ok (sv_transport sv) \<Longrightarrow> concludes (total (query_action sv q a))"
  unfolding query_action_def by (intro concludes_andthen part_moves concludes_answer)

lemma concludes_remediation: "drains_ok (sv_transport sv) \<Longrightarrow> concludes (total (query_remediation sv q rem))"
  unfolding query_remediation_def by (intro concludes_andthen part_moves concludes_answer)

lemma talks_converse: "converse sv q escalated sent hc d = Some (r, d') \<Longrightarrow> talks d d'"
  by (erule talks.moves_converse [where M = "\<lambda>_. True"])
    (auto intro: talks.raw_lift_step)

lemma concludes_run_remote:
  assumes "drains_ok (sv_transport sv)"
  shows "concludes (run_remote sv q override)"
proof -
  have "concludes (total (record_remote sv q sent e answer))" for sent e answer
    unfolding record_remote_def
    by (intro concludes_andthen part_moves concludes_tell assms) simp
  then have "concludes (pthen (converse sv q e sent hc) (\<lambda>answer. total (record_remote sv q sent e answer)))" for e sent hc
    by (intro concludes_pthen talks_converse)
  then show ?thesis
    unfolding run_remote_def Let_def by (intro concludes_total_then part_moves)
qed

lemma concludes_offer:
  assumes "drains_ok (sv_transport sv)"
  shows "concludes (offer_escalation sv q mods reason fallback)"
  unfolding offer_escalation_def
  by (intro concludes_if concludes_total_then part_moves concludes_stay_local concludes_run_remote assms)

lemma concludes_change:
  assumes "drains_ok (sv_transport sv)"
  shows "concludes (run_change sv q mods)"
  by (auto simp: run_change_def concludes_answer concludes_action concludes_offer assms split: option.split)

lemma concludes_read:
  assumes "drains_ok (sv_transport sv)" "c \<noteq> None"
  shows "concludes (run_read sv q mods c)"
proof -
  have "concludes (pthen (total (wants_escalation sv q)) (\<lambda>escalate.
      if escalate then offer_escalation sv q mods reason True else total (run_local sv q mods)))" for reason
    by (intro concludes_total_then part_moves concludes_if concludes_offer concludes_run_local assms)
  with assms show ?thesis
    by (cases "the c") (auto simp: run_read_def concludes_run_remote)
qed

text \<open>A chain is chosen, or the query has ended with its \<^verbatim>\<open>Error\<close>.\<close>

lemma apply_decision_chosen:
  "dc_action dec \<noteq> Unavailable_chain \<Longrightarrow> apply_decision sv q dec d = (Inr c, d') \<Longrightarrow> c \<noteq> None"
  by (cases "dc_action dec") (auto simp: apply_decision_def ret_def elim!: andthen_InrE split: if_splits)

lemma concludes_decided:
  assumes "drains_ok (sv_transport sv)"
  shows "concludes (pthen (total (decide_chain sv q desired pinned)) (run_read sv q mods))"
  unfolding concludes_def
proof (intro allI impI)
  fix d r d'
  assume run: "pthen (total (decide_chain sv q desired pinned)) (run_read sv q mods) d = Some (r, d')"
  let ?dec = "resolve desired pinned (sv_local_ready sv (dm_world d)) (sv_remote_ready sv)"
  show "finishes d r d'"
  proof (cases "dc_action ?dec = Unavailable_chain")
    case True
    let ?m = "tell sv (error_msg (qy_id q) (dc_message ?dec))"
    have "decide_chain sv q desired pinned d = andthen ?m (\<lambda>_. ret None) d"
      using True by (simp add: decide_chain_def apply_decision_def)
    with run have "?m d = (r, d')"
      by (cases "?m d"; cases "fst (?m d)")
        (auto simp: pthen_def total_def andthen_def ret_def run_read_def)
    moreover have "concludes (total ?m)" by (rule concludes_tell [OF assms]) simp
    ultimately show ?thesis by (simp add: concludes_def total_def)
  next
    case False
    obtain r1 d1 where m: "apply_decision sv q ?dec d = (r1, d1)" by fastforce
    have t: "talks d d1" by (rule movesD [OF talks.moves_apply_decision [OF False] m])
    show ?thesis
    proof (cases r1)
      case (Inl e)
      with run m have "r = Inl e" "d' = d1" by (simp_all add: pthen_def total_def decide_chain_def)
      with t show ?thesis by (simp add: finishes_def)
    next
      case (Inr c)
      with run m have "run_read sv q mods c d1 = Some (r, d')" by (simp add: pthen_def total_def decide_chain_def)
      moreover have "concludes (run_read sv q mods c)"
        using apply_decision_chosen [OF False m [unfolded Inr]] by (rule concludes_read [OF assms])
      ultimately have "finishes d1 r d'" by (simp add: concludes_def)
      with t show ?thesis by (rule talks_finishes)
    qed
  qed
qed

lemma concludes_query:
  assumes "drains_ok (sv_transport sv)"
  shows "concludes (run_query sv q)"
proof -
  have "concludes (if b then run_change sv q mods
      else pthen (total (decide_chain sv q desired pinned)) (run_read sv q mods))" for desired pinned b mods
    by (simp add: concludes_change concludes_decided assms)
  then show ?thesis
    unfolding run_query_def
    by (auto split: option.split prod.split intro!: concludes_total_then part_moves concludes_remediation assms)
qed

section \<open>Properties\<close>


text \<open>
  A machine on which nothing is installed and nothing answers, with a client that is written to
  as \<open>drain\<close> says. The world is the number of writes so far.
\<close>

definition bare_services :: "(nat \<Rightarrow> exn + unit) \<Rightarrow> nat services" where
  "bare_services drain = \<lparr>
     sv_host = \<lparr>spawn = (\<lambda>c t w. (NotFound, w)), kill_group = id, sleep = (\<lambda>t. id), clock = (\<lambda>_. 0), db_up = (\<lambda>_. True)\<rparr>,
     sv_gate = \<lparr>talk = (\<lambda>req w. (Cannot_connect [], w)),
       texts = \<lparr>json_error = (\<lambda>_. []), init_error = (\<lambda>_ _. []), repr_json = (\<lambda>_. []), str_json = (\<lambda>_. [])\<rparr>, timeout_g = []\<rparr>,
     sv_http = \<lparr>http_get = (\<lambda>u t w. (Request_failed [], w)), http_post = (\<lambda>u b t w. (Request_failed [], w)),
       http_stream = (\<lambda>u b t w. (Stream_failed [], w)), status_error = (\<lambda>_. [])\<rparr>,
     sv_files = \<lparr>fs_exists = (\<lambda>_ _. False), fs_is_dir = (\<lambda>_ _. False), fs_read = (\<lambda>_. ret []), fs_write = (\<lambda>_ _. ret ()),
       fs_unlink = (\<lambda>_. id), fs_rmtree = (\<lambda>_. id), fs_mkdtemp = (\<lambda>_. ret []), fs_glob = (\<lambda>_ _ _. []),
       fs_realpath = (\<lambda>p _. p), fs_readlink = (\<lambda>_ _. None), fs_tempdir = [], own_pid = 1, probe_pid = (\<lambda>_ _. No_process)\<rparr>,
     sv_shell = (\<lambda>c t w. (Shell_timeout, w)), sv_import_error = None,
     sv_complete = (\<lambda>m b t msgs w. (No_completion [], w)),
     sv_transport = \<lparr>tr_drain = (\<lambda>p w. (drain w, Suc w)), tr_answer = (\<lambda>qid w. (None, w)), tr_float = (\<lambda>_. [])\<rparr>,
     sv_local_ready = (\<lambda>_. False), sv_wait_local = ret (), sv_remote_ready = False,
     sv_texts = \<lparr>json_error = (\<lambda>_. []), init_error = (\<lambda>_ _. []), repr_json = (\<lambda>_. []), str_json = (\<lambda>_. [])\<rparr>,
     sv_config = bare_config, sv_modules = [],
     sv_provider = (\<lambda>n. \<lparr>pv_name = n, pv_interval = None, pv_get = ret []\<rparr>)\<rparr>"

definition empty_query :: user_query where
  "empty_query = \<lparr>qy_id = JInt 1, qy_text = [], qy_session = [], qy_chain = JNull\<rparr>"


text \<open>
  A write that fails only after the message was handed over: the client gets two endings, the
  one whose flush timed out and the error about it.
\<close>

lemma empty_query_plain: "parse [] = None \<and> \<not> detect_mutation []"
  by code_simp

definition first_write_fails :: "nat \<Rightarrow> exn + unit" where
  "first_write_fails n = (if n = 0 then Inl (Foreign ''TimeoutError'' []) else Inr ())"

lemma bare_services_simps [simp]:
  "sv_transport (bare_services drain) = \<lparr>tr_drain = (\<lambda>p w. (drain w, Suc w)), tr_answer = (\<lambda>qid w. (None, w)), tr_float = (\<lambda>_. [])\<rparr>"
  "sv_config (bare_services drain) = bare_config" "sv_modules (bare_services drain) = []"
  "sv_local_ready (bare_services drain) w = False" "sv_remote_ready (bare_services drain) = False"
  by (simp_all add: bare_services_def)

lemma bare_config_simps [simp]: "cfg_local_model bare_config = []" "cfg_default_chain bare_config = Remote"
  by (simp_all add: bare_config_def read_config_def env_get_def env_chain_def)

lemma utf8_length_bound: "utf8_length s \<le> 3 * length s"
  unfolding utf8_length_def by (induction s) auto

lemma length_dumps_str: "length (dumps_str s) \<le> 6 * length s + 2"
proof -
  have "length (escape_char c) \<le> 6" for c
    by (simp add: escape_char_def hex4_def)
  then have "length (concat (map escape_char s)) \<le> 6 * length s"
    by (induction s) (simp_all add: add_le_mono)
  then show ?thesis by (simp add: dumps_str_def)
qed

lemma short_errors_fit:
  assumes "length s \<le> 1000"
  shows "fits_wire f (error_msg (JInt 1) s)"
proof -
  have "encode f (error_msg (JInt 1) s) = dumps f (JObj [(''type'', JStr ''error''), (''id'', JInt 1), (''text'', JStr s)]) @ [newline]"
    by (simp add: encode_def error_msg_def mk_message_def)
  then have "length (encode f (error_msg (JInt 1) s)) \<le> 200 + length (dumps_str s)"
    using length_dumps_str [of "''type''"] length_dumps_str [of "''error''"] length_dumps_str [of "''id''"]
      length_dumps_str [of "''text''"]
    by (simp add: show_int_def show_nat.simps [of "Suc 0"])
  with length_dumps_str [of s] assms have "length (encode f (error_msg (JInt 1) s)) \<le> 10000" by simp
  with utf8_length_bound [of "encode f (error_msg (JInt 1) s)"] show ?thesis
    by (simp add: fits_wire_def MAX_WIRE_MESSAGE_BYTES_def)
qed

lemma empty_query_run:
  "run_query (bare_services first_write_fails) empty_query (new_daemon 0 NullStore) =
      Some (Inl (Foreign ''TimeoutError'' []),
        (new_daemon 1 NullStore)\<lparr>dm_replies := [error_msg (JInt 1) ''No assistant is available right now.'']\<rparr>)"
proof -
  have "decide_chain (bare_services first_write_fails) empty_query Remote False (new_daemon 0 NullStore) =
      (Inl (Foreign ''TimeoutError'' []),
        (new_daemon 1 NullStore)\<lparr>dm_replies := [error_msg (JInt 1) ''No assistant is available right now.'']\<rparr>)"
    using short_errors_fit [of "''No assistant is available right now.''"]
    by (simp add: decide_chain_def resolve_def apply_decision_def andthen_def client_send_value empty_query_def
        first_write_fails_def new_daemon_def)
  then show ?thesis
    by (simp add: run_query_def empty_query_plain pthen_def total_def classify_query_def has_local_def
        resolve_desired_chain_def explicit_chain_def empty_query_def ret_def)
qed

lemma failed_write_ends_twice:
  "\<exists>d'. dispatch (bare_services first_write_fails) empty_query (new_daemon 0 NullStore) = Some (Inr (), d') \<and>
     map msg_class (dm_replies d') = [Error, Error]"
  using short_errors_fit [of "''internal error: ''"]
  by (simp add: dispatch_def empty_query_run end_failed_def is_cancelled_def client_send_value)
    (simp add: empty_query_def first_write_fails_def new_daemon_def error_msg_def mk_message_def)

end
