(* ===== verification/Consent.thy ===== *)
theory Consent
  imports Query_Frames Dispatch_Messages
begin

text \<open>
  What leaves the device. The services are tapped: the requests to the remote model and the
  person's answers go on record beside the world. The taps change nothing else, so what
  holds of tapped services for every choice of the services holds of the daemon.
\<close>

section \<open>The taps\<close>

datatype tap_event = Sent_out "json list" | Replied bool

type_synonym 'w tapped = "'w \<times> tap_event list"

definition along :: "('w \<Rightarrow> 'a \<times> 'w) \<Rightarrow> 'w tapped \<Rightarrow> 'a \<times> 'w tapped" where
  "along f s = (let (x, w) = f (fst s) in (x, (w, snd s)))"

definition tapped_files :: "'w files \<Rightarrow> 'w tapped files" where
  "tapped_files fs = \<lparr>
     fs_exists = (\<lambda>p s. fs_exists fs p (fst s)), fs_is_dir = (\<lambda>p s. fs_is_dir fs p (fst s)),
     fs_read = (\<lambda>p. along (fs_read fs p)), fs_write = (\<lambda>p t. along (fs_write fs p t)),
     fs_unlink = (\<lambda>p s. (fs_unlink fs p (fst s), snd s)), fs_rmtree = (\<lambda>p s. (fs_rmtree fs p (fst s), snd s)),
     fs_mkdtemp = (\<lambda>p. along (fs_mkdtemp fs p)), fs_glob = (\<lambda>r p s. fs_glob fs r p (fst s)),
     fs_realpath = (\<lambda>p s. fs_realpath fs p (fst s)), fs_readlink = (\<lambda>p s. fs_readlink fs p (fst s)),
     fs_tempdir = fs_tempdir fs, own_pid = own_pid fs, probe_pid = (\<lambda>p s. probe_pid fs p (fst s))\<rparr>"

definition tapped_host :: "'w host \<Rightarrow> 'w tapped host" where
  "tapped_host h = \<lparr>spawn = (\<lambda>c t. along (spawn h c t)), kill_group = (\<lambda>s. (kill_group h (fst s), snd s)),
     sleep = (\<lambda>t s. (sleep h t (fst s), snd s)), clock = (\<lambda>s. clock h (fst s)), db_up = (\<lambda>s. db_up h (fst s))\<rparr>"

definition yes_to :: "json option \<Rightarrow> bool" where
  "yes_to r = (case r of None \<Rightarrow> False | Some c \<Rightarrow> truthy c)"

definition tapped_transport :: "'w transport \<Rightarrow> 'w tapped transport" where
  "tapped_transport tr = \<lparr>tr_drain = (\<lambda>p. along (tr_drain tr p)),
     tr_answer = (\<lambda>qid s. let (r, w) = tr_answer tr qid (fst s) in (r, (w, snd s @ [Replied (yes_to r)]))),
     tr_float = tr_float tr\<rparr>"

definition tapped_services :: "'w services \<Rightarrow> 'w tapped services" where
  "tapped_services sv = \<lparr>
     sv_host = tapped_host (sv_host sv),
     sv_gate = \<lparr>talk = (\<lambda>req. along (talk (sv_gate sv) req)), texts = texts (sv_gate sv), timeout_g = timeout_g (sv_gate sv)\<rparr>,
     sv_http = \<lparr>http_get = (\<lambda>u t. along (http_get (sv_http sv) u t)), http_post = (\<lambda>u b t. along (http_post (sv_http sv) u b t)),
       http_stream = (\<lambda>u b t. along (http_stream (sv_http sv) u b t)), status_error = status_error (sv_http sv)\<rparr>,
     sv_files = tapped_files (sv_files sv),
     sv_shell = (\<lambda>c t. along (sv_shell sv c t)),
     sv_import_error = sv_import_error sv,
     sv_complete = (\<lambda>m b tools msgs s. let (c, w) = sv_complete sv m b tools msgs (fst s) in (c, (w, snd s @ [Sent_out msgs]))),
     sv_transport = tapped_transport (sv_transport sv),
     sv_local_ready = (\<lambda>s. sv_local_ready sv (fst s)),
     sv_wait_local = along (sv_wait_local sv),
     sv_remote_ready = sv_remote_ready sv, sv_texts = sv_texts sv, sv_config = sv_config sv, sv_modules = sv_modules sv,
     sv_provider = (\<lambda>n. \<lparr>pv_name = pv_name (sv_provider sv n), pv_interval = pv_interval (sv_provider sv n),
       pv_get = along (pv_get (sv_provider sv n))\<rparr>)\<rparr>"

section \<open>Growing records\<close>

text \<open>Every new event of the record has a property.\<close>

definition grows :: "(tap_event \<Rightarrow> bool) \<Rightarrow> 'w tapped \<Rightarrow> 'w tapped \<Rightarrow> bool" where
  "grows P s s' \<longleftrightarrow> (\<exists>es. snd s' = snd s @ es \<and> list_all P es)"

definition taps :: "(tap_event \<Rightarrow> bool) \<Rightarrow> 'w tapped daemon \<Rightarrow> 'w tapped daemon \<Rightarrow> bool" where
  "taps P d d' \<longleftrightarrow> grows P (dm_world d) (dm_world d') \<and> (\<exists>ms. dm_replies d' = dm_replies d @ ms)"

lemma grows_refl: "grows P s s"
  by (simp add: grows_def)

lemma grows_trans: "grows P s t \<Longrightarrow> grows P t u \<Longrightarrow> grows P s u"
  by (auto simp: grows_def)

lemma taps_trans: "taps P u v \<Longrightarrow> taps P v w \<Longrightarrow> taps P u w"
  by (auto simp: taps_def intro: grows_trans)

lemma grows_along: "grows P s (snd (along f s))"
  by (simp add: grows_def along_def split: prod.split)

lemma moves_along: "moves (grows P) (along f)"
  by (simp add: moves_def grows_along)

text \<open>Answers are allowed by every property used here; requests only by some.\<close>

definition allows_answers :: "(tap_event \<Rightarrow> bool) \<Rightarrow> bool" where
  "allows_answers P \<longleftrightarrow> (\<forall>b. P (Replied b))"

definition quiet_event :: "tap_event \<Rightarrow> bool" where
  "quiet_event e \<longleftrightarrow> (case e of Sent_out ms \<Rightarrow> False | Replied b \<Rightarrow> True)"

text \<open>The properties in use: nothing is sent; what is sent is made of some first messages.\<close>

definition scrubbed_result :: "pystr \<Rightarrow> bool" where
  "scrubbed_result s \<longleftrightarrow> s = malformed_args \<or> (\<exists>raw. s = sc_text (scrub raw))"

definition carries_only :: "pystr \<Rightarrow> tap_event \<Rightarrow> bool" where
  "carries_only s e \<longleftrightarrow> (case e of Sent_out ms \<Rightarrow> list_all (sendable scrubbed_result (first_messages s [] [])) ms | Replied b \<Rightarrow> True)"

datatype tap_policy = Nothing_sent | Only_this pystr | Anything_sent

fun permits :: "tap_policy \<Rightarrow> tap_event \<Rightarrow> bool" where
  "permits Nothing_sent e = quiet_event e"
| "permits (Only_this s) e = carries_only s e"
| "permits Anything_sent e = True"

lemma permits_Replied [simp]: "permits p (Replied b)"
  by (cases p) (simp_all add: quiet_event_def carries_only_def)

interpretation grow: state_order "grows P" for P
  by unfold_locales (auto intro: grows_refl grows_trans)

interpretation tap: query_frame "grows (permits p)" "taps (permits p)" "tapped_services sv" UNIV for p sv
proof unfold_locales
  fix u v w :: "'a tapped daemon"
  show "taps (permits p) w w" by (simp add: taps_def grows_refl)
  assume "taps (permits p) u v" "taps (permits p) v w"
  then show "taps (permits p) u w" by (rule taps_trans)
next
  have answer: "grows (permits p) s (snd (tr_answer (tapped_transport tr) qid s))" for tr qid and s :: "'a tapped"
    by (simp add: tapped_transport_def grows_def Let_def split: prod.split)
  have keep: "grows (permits p) s (f (fst s), snd s)" for f and s :: "'a tapped"
    by (simp add: grows_def)
  show "grow.services_move (permits p) (tapped_services sv)"
    by (simp add: grow.services_move_def grow.host_moves_def grow.files_move_def tapped_services_def
        tapped_host_def tapped_files_def grows_along moves_along answer keep)
      (simp add: tapped_transport_def moves_along)
qed (simp_all add: taps_def grows_refl)

section \<open>No request before a yes\<close>

fun consented :: "bool \<Rightarrow> tap_event list \<Rightarrow> bool" where
  "consented c [] = True"
| "consented c (Replied b # es) = consented (c \<or> b) es"
| "consented c (Sent_out ms # es) = (c \<and> consented c es)"

lemma consented_True [simp]: "consented True es"
proof (induction es)
  case (Cons e es)
  then show ?case by (cases e) simp_all
qed simp

lemma consented_weaken: "consented False es \<Longrightarrow> consented c es"
  by (cases c) simp_all

lemma permits_Nothing: "permits Nothing_sent = quiet_event"
  by (rule ext) simp

lemma consented_quiet: "list_all quiet_event es \<Longrightarrow> consented c (es @ fs) \<longleftrightarrow> consented (c \<or> Replied True \<in> set es) fs"
proof (induction es arbitrary: c)
  case (Cons e es)
  then show ?case by (cases e) (auto simp: quiet_event_def)
qed simp

definition asks_first :: "('w tapped daemon, 'a) pact \<Rightarrow> bool" where
  "asks_first m \<longleftrightarrow> (\<forall>d r d'. m d = Some (r, d') \<longrightarrow>
     (\<exists>es. snd (dm_world d') = snd (dm_world d) @ es \<and> consented False es))"

abbreviation silent :: "('w tapped daemon, 'a) act \<Rightarrow> bool" where
  "silent \<equiv> moves (taps (permits Nothing_sent))"

lemma silentD:
  assumes "silent m" "m d = (r, d')"
  obtains es where "snd (dm_world d') = snd (dm_world d) @ es" "list_all quiet_event es"
  using movesD [OF assms] by (auto simp: taps_def grows_def permits_Nothing)

lemma asks_first_total: "silent m \<Longrightarrow> asks_first (total m)"
  unfolding asks_first_def total_def
  by (metis append_Nil2 consented.simps(1) consented_quiet option.inject silentD)

lemma asks_first_pthen:
  assumes "silent m" "\<And>x. asks_first (f x)"
  shows "asks_first (pthen (total m) f)"
  unfolding asks_first_def
proof (intro allI impI)
  fix d r d'
  assume run: "pthen (total m) f d = Some (r, d')"
  obtain r1 d1 where m: "m d = (r1, d1)" by fastforce
  then obtain es where es: "snd (dm_world d1) = snd (dm_world d) @ es" "list_all quiet_event es"
    using silentD [OF assms(1)] by blast
  show "\<exists>es. snd (dm_world d') = snd (dm_world d) @ es \<and> consented False es"
  proof (cases r1)
    case (Inl e)
    with run m es show ?thesis using consented_quiet [of es False "[]"] by (auto simp: pthen_def total_def)
  next
    case (Inr x)
    with run m have "f x d1 = Some (r, d')" by (simp add: pthen_def total_def)
    with assms(2) obtain fs where "snd (dm_world d') = snd (dm_world d1) @ fs" "consented False fs"
      unfolding asks_first_def by blast
    then show ?thesis using es consented_quiet [of es False fs] consented_weaken [of fs] by auto
  qed
qed

text \<open>The record of a question, and of any run of the remote chain.\<close>

lemma ask_yes:
  assumes "ask (tapped_services sv) qid s d = (Inr True, d')"
  shows "\<exists>es. snd (dm_world d') = snd (dm_world d) @ es \<and> list_all quiet_event es \<and> Replied True \<in> set es \<and>
     dm_replies d' = dm_replies d @ [mk_message Confirm [qid, JStr s]]"
  using assms
  by (auto simp: ask_def client_confirm_def client_send_value await_response_def lift_def ret_def
      tapped_services_def tapped_transport_def along_def yes_to_def quiet_event_def Let_def
      elim!: andthen_InrE split: if_splits prod.splits option.splits)

text \<open>The remote chain under a policy that its completions keep.\<close>

definition pmoves :: "('w \<Rightarrow> 'w \<Rightarrow> bool) \<Rightarrow> ('w, 'a) pact \<Rightarrow> bool" where
  "pmoves R m \<longleftrightarrow> (\<forall>d r d'. m d = Some (r, d') \<longrightarrow> R d d')"

lemma pmoves_total: "moves R m \<Longrightarrow> pmoves R (total m)"
  by (auto simp: pmoves_def total_def dest: movesD)

lemma pmoves_pthen:
  assumes "pmoves (taps P) m" "\<And>x. pmoves (taps P) (f x)"
  shows "pmoves (taps P) (pthen m f)"
  unfolding pmoves_def
proof (intro allI impI)
  fix d r d'
  assume run: "pthen m f d = Some (r, d')"
  then obtain r1 d1 where m: "m d = Some (r1, d1)" by (auto simp: pthen_def split: option.splits)
  with assms(1) have t: "taps P d d1" by (simp add: pmoves_def)
  show "taps P d d'"
  proof (cases r1)
    case (Inl e)
    with run m t show ?thesis by (simp add: pthen_def)
  next
    case (Inr x)
    with run m assms(2) [of x] have "taps P d1 d'" by (simp add: pthen_def pmoves_def)
    with t show ?thesis by (rule taps_trans)
  qed
qed

lemma pmoves_run_remote:
  assumes conv: "\<And>sent hc e. pmoves (taps (permits p)) (converse (tapped_services sv) q e sent hc)"
  shows "pmoves (taps (permits p)) (run_remote (tapped_services sv) q override)"
proof -
  have "moves (taps (permits p)) (record_remote (tapped_services sv) q sent e answer)" for sent e answer
    unfolding record_remote_def
    by (intro tap.daemon.moves_rules tap.moves_history tap.moves_record_event tap.moves_tell) simp
  then show ?thesis
    unfolding run_remote_def Let_def
    by (intro pmoves_pthen pmoves_total tap.moves_remote_context tap.moves_touch conv)
qed

lemma extends_converse: "pmoves (taps (permits Anything_sent)) (converse (tapped_services sv) q e sent hc)"
  unfolding pmoves_def
  by (auto elim!: tap.moves_converse [where M = "\<lambda>_. True"])
    (auto simp: taps_def grows_def raw_lift_def tapped_services_def Let_def list_all_iff split: prod.split)

lemma extends_run_remote:
  assumes "run_remote (tapped_services sv) q override d = Some (r, d')"
  shows "\<exists>es. snd (dm_world d') = snd (dm_world d) @ es"
  using pmoves_run_remote [OF extends_converse, of sv q override] assms
  unfolding pmoves_def taps_def grows_def by blast

lemma asks_first_ask:
  assumes no: "asks_first A" and B: "\<And>d r d'. B d = Some (r, d') \<Longrightarrow> \<exists>es. snd (dm_world d') = snd (dm_world d) @ es"
  shows "asks_first (pthen (total (ask (tapped_services sv) qid s)) (\<lambda>yes. if \<not> yes then A else B))"
  unfolding asks_first_def
proof (intro allI impI)
  fix d r d'
  assume run: "pthen (total (ask (tapped_services sv) qid s)) (\<lambda>yes. if \<not> yes then A else B) d = Some (r, d')"
  obtain r1 d1 where m: "ask (tapped_services sv) qid s d = (r1, d1)" by fastforce
  show "\<exists>es. snd (dm_world d') = snd (dm_world d) @ es \<and> consented False es"
  proof (cases "r1 = Inr True")
    case True
    with run m have "B d1 = Some (r, d')" by (simp add: pthen_def total_def)
    with B obtain fs where "snd (dm_world d') = snd (dm_world d1) @ fs" by blast
    with ask_yes [OF m [unfolded True]] show ?thesis using consented_quiet by auto
  next
    case False
    have a: "asks_first (pthen (total (ask (tapped_services sv) qid s)) (\<lambda>_. A))"
      by (rule asks_first_pthen [OF tap.moves_ask no])
    have "pthen (total (ask (tapped_services sv) qid s)) (\<lambda>_. A) d = Some (r, d')"
      using run m False by (auto simp: pthen_def total_def split: sum.splits)
    with a show ?thesis by (auto simp: asks_first_def)
  qed
qed

lemmas silent_parts = tap.moves_ground tap.moves_local_stream tap.moves_history tap.moves_record_event
  tap.moves_action_result tap.moves_remediation_result tap.moves_remote_context tap.moves_touch
  tap.moves_redact_query tap.moves_ask tap.moves_classify_query tap.moves_wants_escalation tap.moves_delta

lemma silent_done: "moves (taps (permits p)) (tell_done (tapped_services sv) qid)"
  unfolding tell_done_def by (rule tap.moves_tell) simp

lemma silent_answer: "moves (taps (permits p)) (answer_and_done (tapped_services sv) qid s)"
  unfolding answer_and_done_def by (intro tap.daemon.moves_rules tap.moves_delta silent_done)

lemma silent_run_local: "moves (taps (permits p)) (run_local (tapped_services sv) q mods)"
  unfolding run_local_def answer_locally_def
  by (intro tap.daemon.moves_rules silent_parts silent_answer silent_done)

lemma silent_stay_local: "moves (taps (permits p)) (stay_local (tapped_services sv) q mods fallback s)"
  unfolding stay_local_def by (intro tap.daemon.moves_rules silent_run_local silent_answer)

lemma silent_query_flows:
  "silent (query_action (tapped_services sv) q a)" "silent (query_remediation (tapped_services sv) q rem)"
  unfolding query_action_def query_remediation_def
  by (intro tap.daemon.moves_rules silent_parts silent_answer)+

lemma asks_first_offer: "asks_first (offer_escalation (tapped_services sv) q mods reason fallback)"
  unfolding offer_escalation_def
  by (auto intro!: asks_first_total silent_stay_local asks_first_pthen silent_parts asks_first_ask extends_run_remote)

lemma asks_first_change: "asks_first (run_change (tapped_services sv) q mods)"
  by (auto simp: run_change_def split: option.split
      intro!: asks_first_total silent_answer silent_query_flows asks_first_offer)

lemma asks_first_read_local: "asks_first (run_read (tapped_services sv) q mods (Some Local))"
  unfolding run_read_def option.case chain.case
  by (intro asks_first_pthen silent_parts) (auto intro!: asks_first_total silent_run_local asks_first_offer)

text \<open>A desired local chain becomes remote only by a yes.\<close>

lemma resolve_local:
  "dc_action (resolve Local pinned lr rr) \<noteq> Unavailable_chain"
  "dc_action (resolve Local pinned lr rr) = Proceed \<Longrightarrow> dc_chain (resolve Local pinned lr rr) = Local"
  by (auto simp: resolve_def split: if_splits)

lemma decided_remote:
  assumes "decide_chain (tapped_services sv) q Local pinned d = (Inr (Some Remote), d')"
  shows "\<exists>es. snd (dm_world d') = snd (dm_world d) @ es \<and> list_all quiet_event es \<and> Replied True \<in> set es"
proof -
  let ?sv = "tapped_services sv"
  let ?dec = "resolve Local pinned (sv_local_ready ?sv (dm_world d)) (sv_remote_ready ?sv)"
  have "dc_action ?dec = Confirm_remote"
    using assms resolve_local [of pinned "sv_local_ready ?sv (dm_world d)" "sv_remote_ready ?sv"]
    by (cases "dc_action ?dec") (auto simp: decide_chain_def apply_decision_def ret_def elim!: andthen_InrE)
  with assms obtain d1 d2 where s: "tell_status ?sv (qy_id q) (dc_message ?dec) d = (Inr (), d1)"
    and y: "ask ?sv (qy_id q) (dc_message ?dec) d1 = (Inr True, d2)" and d2: "d' = d2"
    by (auto simp: decide_chain_def apply_decision_def ret_def elim!: andthen_InrE split: if_splits)
  from silentD [OF tap.moves_status s] obtain es where "snd (dm_world d1) = snd (dm_world d) @ es" "list_all quiet_event es" .
  with ask_yes [OF y] d2 show ?thesis by auto
qed

lemma asks_first_decided:
  "asks_first (pthen (total (decide_chain (tapped_services sv) q Local pinned)) (run_read (tapped_services sv) q mods))"
  unfolding asks_first_def
proof (intro allI impI)
  fix d r d'
  let ?sv = "tapped_services sv"
  assume run: "pthen (total (decide_chain ?sv q Local pinned)) (run_read ?sv q mods) d = Some (r, d')"
  obtain r1 d1 where m: "decide_chain ?sv q Local pinned d = (r1, d1)" by fastforce
  have sil: "silent (apply_decision ?sv q (resolve Local pinned lr rr))" for lr rr
    by (rule tap.moves_apply_decision) (rule resolve_local)
  have "apply_decision ?sv q (resolve Local pinned (sv_local_ready ?sv (dm_world d)) (sv_remote_ready ?sv)) d = (r1, d1)"
    using m unfolding decide_chain_def .
  from silentD [OF sil this] obtain es where es: "snd (dm_world d1) = snd (dm_world d) @ es" "list_all quiet_event es" .
  show "\<exists>es. snd (dm_world d') = snd (dm_world d) @ es \<and> consented False es"
  proof (cases "r1 = Inr (Some Remote)")
    case True
    with run m have "run_remote ?sv q None d1 = Some (r, d')" by (simp add: pthen_def total_def run_read_def)
    then obtain fs where "snd (dm_world d') = snd (dm_world d1) @ fs" using extends_run_remote by blast
    moreover from decided_remote [OF m [unfolded True]] obtain gs where
      "snd (dm_world d1) = snd (dm_world d) @ gs" "list_all quiet_event gs" "Replied True \<in> set gs" by blast
    ultimately show ?thesis using consented_quiet [of gs False fs] by auto
  next
    case False
    consider (exn) e where "r1 = Inl e" | (none) "r1 = Inr None" | (here) "r1 = Inr (Some Local)"
    proof (cases r1)
      case (Inr c)
      then show ?thesis using False that by (cases c; cases "the c") simp_all
    qed (rule that(1))
    then show ?thesis
    proof cases
      case exn
      with run m have "d' = d1" by (simp add: pthen_def total_def)
      with es show ?thesis using consented_quiet [of es False "[]"] by auto
    next
      case none
      with run m have "d' = d1" by (simp add: pthen_def total_def run_read_def ret_def)
      with es show ?thesis using consented_quiet [of es False "[]"] by auto
    next
      case here
      with run m have "run_read ?sv q mods (Some Local) d1 = Some (r, d')" by (simp add: pthen_def total_def)
      with asks_first_read_local obtain fs where "snd (dm_world d') = snd (dm_world d1) @ fs" "consented False fs"
        unfolding asks_first_def by blast
      with es show ?thesis using consented_quiet [of es False fs] consented_weaken [of fs] by auto
    qed
  qed
qed

text \<open>What is matched are modules of the daemon.\<close>

lemma classified_modules:
  assumes "classify_query sv q d = (Inr mods, d')"
  shows "set mods \<subseteq> set (sv_modules sv)"
proof -
  have "set (fst (classify net b s ms t w)) \<subseteq> set ms" for net :: "'a http" and b s ms t w
    by (auto simp: classify_def parse_classify_response_def Let_def split: prod.split option.split)
  then have call: "set ms \<subseteq> set (sv_modules sv)"
    if "lift_call (classify (sv_http sv) (local_backend sv) (qy_text q) (sv_modules sv) t) d = (Inr ms, d')" for t d ms d'
    using that by (simp add: lift_call_def lift_def Let_def split: prod.splits) (metis fst_conv)
  show ?thesis
  proof (cases "has_local (sv_config sv)")
    case True
    with assms obtain t u d1 where "lift_call (classify (sv_http sv) (local_backend sv) (qy_text q) (sv_modules sv) t) d1 = (Inr mods, d')"
      unfolding classify_query_def Let_def by (simp only: if_False simp_thms) (erule andthen_InrE, blast)
    then show ?thesis by (rule call)
  next
    case False
    with assms show ?thesis by (simp add: classify_query_def ret_def)
  qed
qed

lemma desired_local:
  assumes "cfg_default_chain (sv_config sv) = Local" "qy_chain q \<noteq> JStr ''remote''"
    "list_all (\<lambda>m. md_routing m \<noteq> Route_remote) mods"
  shows "fst (resolve_desired_chain (explicit_chain q) mods Local) = Local"
  using assms by (auto simp: resolve_desired_chain_def explicit_chain_def list_all_iff split: if_splits)

definition local_by_default :: "'w services \<Rightarrow> user_query \<Rightarrow> bool" where
  "local_by_default sv q \<longleftrightarrow> cfg_default_chain (sv_config sv) = Local \<and> qy_chain q \<noteq> JStr ''remote'' \<and>
     list_all (\<lambda>m. md_routing m \<noteq> Route_remote) (sv_modules sv)"

lemma asks_first_query:
  assumes "local_by_default sv q"
  shows "asks_first (run_query (tapped_services sv) q)"
proof (cases "parse (qy_text q)")
  case (Some rem)
  then show ?thesis by (simp add: run_query_def asks_first_total silent_query_flows)
next
  case None
  let ?sv = "tapped_services sv"
  have sv: "sv_config ?sv = sv_config sv" "sv_modules ?sv = sv_modules sv"
    by (simp_all add: tapped_services_def)
  define rest where "rest mods = (let (desired, pinned) = resolve_desired_chain (explicit_chain q) mods (cfg_default_chain (sv_config ?sv))
      in if detect_mutation (qy_text q) then run_change ?sv q mods
         else pthen (total (decide_chain ?sv q desired pinned)) (run_read ?sv q mods))" for mods
  have rest: "asks_first (rest mods)" if "set mods \<subseteq> set (sv_modules sv)" for mods
  proof -
    have "fst (resolve_desired_chain (explicit_chain q) mods Local) = Local"
      using that assms by (intro desired_local [of sv]) (auto simp: local_by_default_def list_all_iff)
    with assms sv show ?thesis
      by (auto simp: rest_def local_by_default_def asks_first_change asks_first_decided split: prod.split)
  qed
  have "asks_first (pthen (total (classify_query ?sv q)) (\<lambda>mods. if set mods \<subseteq> set (sv_modules sv) then rest mods else (\<lambda>d. None)))"
    by (intro asks_first_pthen tap.moves_classify_query) (auto simp: rest, simp add: asks_first_def)
  moreover have "pthen (total (classify_query ?sv q)) (\<lambda>mods. if set mods \<subseteq> set (sv_modules sv) then rest mods else (\<lambda>d. None))
      = pthen (total (classify_query ?sv q)) rest"
    using classified_modules [of ?sv q] sv
    by (auto simp: fun_eq_iff pthen_def total_def split: prod.split sum.split)
  ultimately show ?thesis
    using None by (simp add: run_query_def rest_def [abs_def])
qed

section \<open>What an escalation sends\<close>

lemma escalated_results: "results_in scrubbed_result (remote_agent sv q True)"
proof -
  have r: "scrubbed_result t" if "run_tool sv q True n a d = (Inr t, d')" for n a d t d'
    using that by (auto simp: run_tool_def ret_def scrubbed_result_def elim!: andthen_InrE)
  have "scrubbed_result malformed_args" by (simp add: scrubbed_result_def)
  then show ?thesis
    by (auto simp: results_in_def remote_agent_def beside_def Let_def split: prod.splits intro: r)
qed

lemma carries_converse: "pmoves (taps (permits (Only_this s))) (converse (tapped_services sv) q True s ([], []))"
proof -
  let ?M = "list_all (sendable scrubbed_result (first_messages s [] []))"
  have first: "?M (first_messages s [] [])" by (simp add: list_all_iff sendable_def)
  have complete: "taps (permits (Only_this s)) d (snd (raw_lift (sv_complete (tapped_services sv) m b tools msgs) d))"
    if "?M msgs" for msgs d m b tools
    using that by (auto simp: taps_def grows_def raw_lift_def tapped_services_def carries_only_def Let_def split: prod.split)
  show ?thesis
    unfolding pmoves_def
  proof (intro allI impI)
    fix d r d'
    assume run: "converse (tapped_services sv) q True s ([], []) d = Some (r, d')"
    show "taps (permits (Only_this s)) d d'"
      by (rule tap.moves_converse [OF run, where M = ?M])
        (simp_all only: fst_conv snd_conv first complete sendable_grow [OF escalated_results])
  qed
qed

lemma pthen_ret: "pthen (total (ret x)) f = f x"
  by (simp add: fun_eq_iff pthen_def total_def ret_def)

lemma carries_run_remote: "pmoves (taps (permits (Only_this s))) (run_remote (tapped_services sv) q (Some s))"
proof -
  have "moves (taps (permits (Only_this s))) (record_remote (tapped_services sv) q s True answer)" for answer
    unfolding record_remote_def
    by (intro tap.daemon.moves_rules tap.moves_history tap.moves_record_event tap.moves_tell) simp
  then have "pmoves (taps (permits (Only_this s))) (pthen (total (touch_session (qy_session q))) (\<lambda>_.
      pthen (converse (tapped_services sv) q True s ([], [])) (\<lambda>answer. total (record_remote (tapped_services sv) q s True answer))))"
    by (intro pmoves_pthen pmoves_total tap.moves_touch carries_converse)
  then show ?thesis
    by (simp add: run_remote_def remote_context_def pthen_ret)
qed

text \<open>The redaction of a query always gives a text, and says nothing to anyone.\<close>

lemma redact_query_value:
  "\<exists>rd. redact_query sv s d = (Inr rd, snd (redact_query sv s d)) \<and> rd_original rd = s"
  by (auto simp: redact_query_def redact_def scrub_only_def lift_def ret_def Let_def split: prod.split)

lemma redact_query_replies: "dm_replies (snd (redact_query sv s d)) = dm_replies d"
  by (auto simp: redact_query_def lift_def ret_def split: prod.split)

lemma quiet_carries: "quiet_event e \<Longrightarrow> carries_only s e"
  by (cases e) (simp_all add: quiet_event_def carries_only_def)

section \<open>Properties\<close>

text \<open>
  C4: Nothing leaves unasked: on a machine whose default chain is local, for a query that does
  not ask for the remote chain itself and modules that do not either, no request is made to the
  remote model before the person has said yes to a question, whatever the text, the models and
  the machine do.
\<close>

theorem nothing_leaves_unasked:
  assumes "local_by_default sv q"
  shows "case dispatch (tapped_services sv) q d of
     None \<Rightarrow> True
   | Some (r, d') \<Rightarrow> \<exists>es. snd (dm_world d') = snd (dm_world d) @ es \<and> consented False es"
proof (cases "run_query (tapped_services sv) q d")
  case None
  then show ?thesis by (simp add: dispatch_def)
next
  case (Some out)
  obtain r d1 where out: "out = (r, d1)" by (cases out)
  from asks_first_query [OF assms] Some out obtain es where
    es: "snd (dm_world d1) = snd (dm_world d) @ es" "consented False es"
    unfolding asks_first_def by blast
  show ?thesis
  proof (cases r)
    case (Inr u)
    with Some out es show ?thesis by (simp add: dispatch_def)
  next
    case (Inl e)
    obtain r2 d2 where t: "end_failed (tapped_services sv) (qy_id q) e d1 = (r2, d2)" by fastforce
    have "silent (end_failed (tapped_services sv) (qy_id q) e)"
      unfolding end_failed_def by (intro tap.daemon.moves_rules tap.moves_tell) simp_all
    from silentD [OF this t] obtain fs where fs: "snd (dm_world d2) = snd (dm_world d1) @ fs" "list_all quiet_event fs" .
    have "consented c xs \<Longrightarrow> consented c (xs @ fs)" for c xs
      using consented_quiet [OF fs(2), of _ "[]"] by (induction c xs rule: consented.induct) simp_all
    with Some out Inl t es fs show ?thesis by (auto simp: dispatch_def)
  qed
qed

text \<open>An accepted escalation: the question comes first, then the requests, each of which carries only
  the redacted text.\<close>

lemma accepted_escalation:
  fixes sv q reason rd
  defines "question \<equiv> mk_message Confirm [qy_id q, JStr (escalation_prompt reason rd)]"
  assumes d1: "taps quiet_event d d1"
    and y: "ask (tapped_services sv) (qy_id q) (escalation_prompt reason rd) d1 = (Inr True, d2)"
    and rem: "run_remote (tapped_services sv) q (Some (rd_redacted rd)) d2 = Some (r, d')"
  shows "\<exists>es ms. snd (dm_world d') = snd (dm_world d) @ es \<and> dm_replies d' = dm_replies d @ ms \<and>
    consented False es \<and> list_all (carries_only (rd_redacted rd)) es \<and> question \<in> set ms"
proof -
  from carries_run_remote rem have "taps (permits (Only_this (rd_redacted rd))) d2 d'"
    unfolding pmoves_def by blast
  then obtain es ms where e: "snd (dm_world d') = snd (dm_world d2) @ es" "list_all (carries_only (rd_redacted rd)) es"
    "dm_replies d' = dm_replies d2 @ ms" by (auto simp: taps_def grows_def list_all_iff)
  from ask_yes [OF y] obtain gs where g: "snd (dm_world d2) = snd (dm_world d1) @ gs"
    "list_all quiet_event gs" "Replied True \<in> set gs" "dm_replies d2 = dm_replies d1 @ [question]"
    unfolding question_def by blast
  from d1 obtain hs ns where h: "snd (dm_world d1) = snd (dm_world d) @ hs" "list_all quiet_event hs"
    "dm_replies d1 = dm_replies d @ ns" by (auto simp: taps_def grows_def)
  have "consented False ((hs @ gs) @ es)"
    using consented_quiet [of "hs @ gs" False es] g h by (auto simp: list_all_iff)
  moreover have "list_all (carries_only (rd_redacted rd)) ((hs @ gs) @ es)"
    using e(2) g(2) h(2) quiet_carries by (auto simp: list_all_iff)
  moreover have "snd (dm_world d') = snd (dm_world d) @ (hs @ gs) @ es" using e(1) g(1) h(1) by simp
  moreover have "dm_replies d' = dm_replies d @ ns @ question # ms" using e(3) g(4) h(3) by simp
  moreover have "question \<in> set (ns @ question # ms)" by simp
  ultimately show ?thesis by blast
qed

text \<open>
  C5: What an escalation sends is what was shown: every request consists of the fixed system
  prompt, the redacted text, the model's own turns and scrubbed tool results (no context, no
  history, no raw query), and a request is made only after a yes to the question that quotes
  exactly this redacted text.
\<close>

theorem escalation_sends_what_was_shown:
  "case offer_escalation (tapped_services sv) q mods reason fallback d of
     None \<Rightarrow> True
   | Some (r, d') \<Rightarrow> \<exists>rd es ms. fst (redact_query (tapped_services sv) (qy_text q) d) = Inr rd \<and>
       snd (dm_world d') = snd (dm_world d) @ es \<and> dm_replies d' = dm_replies d @ ms \<and>
       consented False es \<and> list_all (carries_only (rd_redacted rd)) es \<and>
       (list_all quiet_event es \<or> mk_message Confirm [qy_id q, JStr (escalation_prompt reason rd)] \<in> set ms)"
proof (cases "offer_escalation (tapped_services sv) q mods reason fallback d")
  case None
  then show ?thesis by simp
next
  case (Some out)
  let ?sv = "tapped_services sv"
  obtain r d' where out: "out = (r, d')" by (cases out)
  obtain rd d1 where rd: "redact_query ?sv (qy_text q) d = (Inr rd, d1)"
    using redact_query_value by blast
  have quiet: ?thesis if "taps quiet_event d d'"
    using that Some out rd quiet_carries consented_quiet [of _ False "[]"]
    by (auto simp: taps_def grows_def list_all_iff)
  show ?thesis
  proof (cases "sv_remote_ready ?sv")
    case False
    then have "stay_local ?sv q mods fallback not_set_up d = (r, d')"
      using Some out by (simp add: offer_escalation_def total_def)
    from movesD [OF silent_stay_local this, of Nothing_sent] show ?thesis
      by (intro quiet) (simp add: permits_Nothing)
  next
    case True
    obtain y d2 where y: "ask ?sv (qy_id q) (escalation_prompt reason rd) d1 = (y, d2)" by fastforce
    have d1: "taps quiet_event d d1" using movesD [OF tap.moves_redact_query rd, of Nothing_sent] by (simp add: permits_Nothing)
    have d2: "taps quiet_event d1 d2" using movesD [OF tap.moves_ask y, of Nothing_sent] by (simp add: permits_Nothing)
    note run = Some [unfolded out offer_escalation_def] True rd y
    show ?thesis
    proof (cases "y = Inr True")
      case True
      with run have rem: "run_remote ?sv q (Some (rd_redacted rd)) d2 = Some (r, d')"
        by (simp add: pthen_def total_def)
      from accepted_escalation [OF d1 y [unfolded True] rem] show ?thesis using Some out rd by auto
    next
      case False
      have "taps quiet_event d2 d'"
      proof (cases y)
        case (Inl e)
        with run show ?thesis by (simp add: pthen_def total_def taps_def grows_def)
      next
        case (Inr b)
        with run False have "stay_local ?sv q mods fallback keeping_here d2 = (r, d')"
          by (simp add: pthen_def total_def)
        from movesD [OF silent_stay_local this, of Nothing_sent] show ?thesis by (simp add: permits_Nothing)
      qed
      with d1 d2 show ?thesis by (intro quiet) (blast intro: taps_trans)
    qed
  qed
qed

definition local_services :: "nat services" where
  "local_services = (bare_services (\<lambda>_. Inr ()))\<lparr>sv_config := bare_config\<lparr>cfg_default_chain := Local\<rparr>, sv_remote_ready := True\<rparr>"

theorem nothing_leaves_unasked_witness:
  "local_by_default local_services empty_query \<and>
   (case dispatch (tapped_services local_services) empty_query (new_daemon (0, []) NullStore) of
     None \<Rightarrow> True
   | Some (r, d') \<Rightarrow> \<exists>es. snd (dm_world d') = snd (dm_world (new_daemon (0 :: nat, []) NullStore)) @ es \<and> consented False es)"
proof -
  have l: "local_by_default local_services empty_query"
    by (simp add: local_by_default_def local_services_def empty_query_def)
  from nothing_leaves_unasked [OF l, where d = "new_daemon (0, []) NullStore"] l show ?thesis by blast
qed

section \<open>Consent that means something else\<close>

text \<open>
  When the remote chain is desired but not there, the person is asked whether to use the
  on-device model; a yes selects the remote chain and a no the local one.
\<close>

lemma use_on_device_is_inverted:
  assumes "tell_status sv (qy_id q) ''The remote assistant is unavailable. Use the on-device model instead?'' d = (Inr (), d1)"
    and "ask sv (qy_id q) ''The remote assistant is unavailable. Use the on-device model instead?'' d1 = (Inr yes, d2)"
    and "sv_local_ready sv (dm_world d2)"
  shows "apply_decision sv q (resolve Remote pinned True False) d = (Inr (Some (if yes then Remote else Local)), d2)"
  using assms by (simp add: apply_decision_def resolve_def andthen_def)

text \<open>
  The yes to "the on-device model is starting, use the remote assistant instead?" sends the
  query as it is, with history and context and unscrubbed tool results: no redaction takes place.
\<close>

lemma starting_model_sends_raw:
  "run_read sv q mods (Some Remote) = run_remote sv q None \<and>
   run_remote sv q None = pthen (total (remote_context sv q False)) (\<lambda>hc.
     pthen (total (touch_session (qy_session q))) (\<lambda>_.
     pthen (converse sv q False (qy_text q) hc) (\<lambda>answer. total (record_remote sv q (qy_text q) False answer))))"
  by (simp add: run_read_def run_remote_def Let_def)

end
