(* ===== verification/Handlers.thy ===== *)
theory Handlers
  imports Dispatch Timeline_Service
begin

text \<open>
  The other requests of \<^verbatim>\<open>server.py\<close>: failures, restart, explanation, journal, timeline, ledger
  and health; the handler of an incoming line; the hello; pruning, readiness and monitor
  events. The fields of a request have their declared types.
\<close>

section \<open>Replies\<close>

definition opt_str :: "pystr option \<Rightarrow> json" where
  "opt_str x = (case x of None \<Rightarrow> JNull | Some s \<Rightarrow> JStr s)"

definition failed_json :: "failed_unit \<Rightarrow> json" where
  "failed_json f = JObj [(''unit'', JStr (fu_unit f)), (''scope'', JStr (fu_scope f)),
     (''description'', JStr (fu_description f))]"

definition event_json :: "event \<Rightarrow> json" where
  "event_json e = JObj [(''id'', JInt (ev_id e)), (''ts'', JFloat (ev_ts e)), (''kind'', JStr (ev_kind e)),
     (''unit'', opt_str (ev_unit e)), (''scope'', opt_str (ev_scope e)), (''severity'', opt_str (ev_severity e)),
     (''text'', JStr (ev_text e)), (''meta'', JObj (ev_meta e))]"

definition ledger_json :: "ledger \<Rightarrow> json" where
  "ledger_json l = JObj [(''streak_days'', JInt (streak_days l)), (''healthy_now'', JBool (healthy_now l)),
     (''since_ts'', (case since_ts l of None \<Rightarrow> JNull | Some t \<Rightarrow> JFloat t)),
     (''auto_restarts'', JInt (auto_restarts l)), (''recoveries'', JInt (recoveries l)),
     (''attention'', JInt (attention l)), (''headline'', JStr (headline l)),
     (''tally'', JArr (map JStr (tally_items l)))]"

section \<open>Failures, timeline, ledger\<close>

definition current_failed :: "'w services \<Rightarrow> ('w daemon, failed_unit list) act" where
  "current_failed sv = lift (failed_units (sv_host sv))"

definition list_failures :: "'w services \<Rightarrow> (unit_key set \<Rightarrow> unit_key list) \<Rightarrow> json \<Rightarrow> ('w daemon, unit) act" where
  "list_failures sv enum qid =
     andthen (current_failed sv) (\<lambda>us.
     andthen (record_failure_transitions (sv_host sv) enum us) (\<lambda>_.
       tell sv (mk_message Failures [qid, JArr (map failed_json us)])))"

definition get_timeline ::
  "'w services \<Rightarrow> json \<Rightarrow> int \<Rightarrow> pystr option \<Rightarrow> int option \<Rightarrow> ('w daemon, unit) act" where
  "get_timeline sv qid limit u before_id =
     andthen (page (sv_host sv) limit u before_id) (\<lambda>(events, cursor).
       tell sv (mk_message Timeline [qid, JArr (map event_json events),
         case cursor of None \<Rightarrow> JNull | Some i \<Rightarrow> JInt i]))"

definition get_ledger :: "'w services \<Rightarrow> json \<Rightarrow> ('w daemon, unit) act" where
  "get_ledger sv qid =
     andthen (kept_well (sv_host sv)) (\<lambda>l. tell sv (mk_message Ledger [qid, ledger_json l]))"

section \<open>Acting on one failed unit\<close>

text \<open>\<^verbatim>\<open>try: \<dots> except NixadminError as e: await conn.send(wire.Error(\<dots>))\<close>.\<close>

definition or_error :: "'w services \<Rightarrow> json \<Rightarrow> ('w daemon, unit) act \<Rightarrow> ('w daemon, unit) act" where
  "or_error sv qid m = try_nixadmin m (\<lambda>e. tell sv (error_msg qid (str_exn e)))"

definition fails_now :: "failed_unit list \<Rightarrow> pystr \<Rightarrow> pystr \<Rightarrow> bool" where
  "fails_now us u scope \<longleftrightarrow> (\<exists>f \<in> set us. fu_unit f = u \<and> fu_scope f = scope)"

definition not_failing :: "pystr \<Rightarrow> pystr" where "not_failing u = u @ '' isn't failing right now.''"

definition restart_unit :: "'w services \<Rightarrow> json \<Rightarrow> pystr \<Rightarrow> pystr \<Rightarrow> ('w daemon, unit) act" where
  "restart_unit sv qid u scope = or_error sv qid
     (andthen (current_failed sv) (\<lambda>us.
        if \<not> fails_now us u scope then answer_and_done sv qid (not_failing u)
        else andthen (restart_resolved (daemon_host (sv_host sv)) (tell_status sv qid)
                        (Some (\<lambda>u. lift (apply_restart (sv_gate sv) u))) u scope) (\<lambda>outcome.
             andthen (record_event sv ''restart'' (Some u) (Some scope) None (out_message outcome)
                        (Some [(''source'', JStr ''tray''), (''ok'', JBool (out_ok outcome))])) (\<lambda>_.
               answer_and_done sv qid (out_message outcome)))))"

definition tell_bare :: "'w services \<Rightarrow> json \<Rightarrow> pystr \<Rightarrow> ('w daemon, unit) act" where
  "tell_bare sv qid t = andthen (tell sv (delta_msg qid t)) (\<lambda>_. tell sv (bare_done qid))"

definition explain_question :: "pystr \<Rightarrow> pystr" where
  "explain_question u = ''Why did '' @ u @ '' fail, and will restarting it fix it?''"

definition explain_failed :: "'w services \<Rightarrow> json \<Rightarrow> pystr \<Rightarrow> pystr \<Rightarrow> ('w daemon, unit) act" where
  "explain_failed sv qid u scope =
     andthen (lift (unit_journal (sv_host sv) u scope)) (\<lambda>journal.
     andthen (lift_call (is_ready (sv_http sv) (local_backend sv))) (\<lambda>ready.
     andthen (if ready then ret () else tell_status sv qid (''warming up the local model'' @ [ellipsis])) (\<lambda>_.
     andthen (Local_LLM.summarize (daemon_http (sv_http sv)) (sv_texts sv) (local_backend sv)
                (augment (explain_question u) journal) (\<lambda>piece. tell sv (delta_msg qid piece))) (\<lambda>answer.
     andthen (if strip answer \<noteq> []
              then record_event sv ''explanation'' (Some u) (Some scope) None answer
                     (Some [(''model'', JStr (cfg_local_model (sv_config sv)))])
              else ret ()) (\<lambda>_. tell_done sv qid)))))"

definition explain_unit :: "'w services \<Rightarrow> json \<Rightarrow> pystr \<Rightarrow> pystr \<Rightarrow> ('w daemon, unit) act" where
  "explain_unit sv qid u scope = or_error sv qid
     (andthen (current_failed sv) (\<lambda>us.
        if \<not> fails_now us u scope then tell_bare sv qid (not_failing u)
        else if \<not> has_local (sv_config sv) then tell_bare sv qid ''I need a local model configured to explain this.''
        else explain_failed sv qid u scope))"

definition journal_of_unit :: "'w services \<Rightarrow> json \<Rightarrow> pystr \<Rightarrow> pystr \<Rightarrow> ('w daemon, unit) act" where
  "journal_of_unit sv qid u asked_scope =
     (let scope = (if asked_scope \<in> {''system'', ''user''} then asked_scope else ''system'')
      in andthen (lift (unit_journal (sv_host sv) u scope)) (\<lambda>t.
         andthen (record_event sv ''journal_snapshot'' (Some u) (Some scope) None t None) (\<lambda>_.
           tell sv (mk_message Journal [qid, JStr u, JStr t]))))"

section \<open>Hello and health\<close>

definition chains :: "config \<Rightarrow> pystr list" where
  "chains cfg = (if has_local cfg then [''local''] else []) @ (if cfg_remote_model cfg \<noteq> [] then [''remote''] else [])"

definition ready_json :: "bool \<Rightarrow> bool \<Rightarrow> json" where
  "ready_json local_ready remote_ready = JObj [(''local'', JBool local_ready), (''remote'', JBool remote_ready)]"

definition daemon_hello :: "'w services \<Rightarrow> 'w \<Rightarrow> message" where
  "daemon_hello sv w = mk_message Hello [
     JArr (map JStr (chains (sv_config sv))),
     ready_json (sv_local_ready sv w) (sv_remote_ready sv),
     JStr (chain_name (cfg_default_chain (sv_config sv))),
     JArr (map (\<lambda>m. JStr (md_name m)) (sv_modules sv)),
     JInt VERSION, JInt MIN_VERSION]"

text \<open>The rounded uptime, the sizes and the counters are read off the running objects.\<close>

record gauges =
  ga_uptime :: real
  ga_clients :: nat
  ga_tasks :: nat
  ga_monitor_tasks :: nat
  ga_counters :: "(pystr \<times> int) list"

definition store_class :: "store \<Rightarrow> pystr" where
  "store_class st = (case st of NullStore \<Rightarrow> ''NullStore'' | EventStore db \<Rightarrow> ''EventStore'')"

definition get_health :: "'w services \<Rightarrow> gauges \<Rightarrow> json \<Rightarrow> ('w daemon, unit) act" where
  "get_health sv g qid d = tell sv (mk_message Health [qid, JObj [
     (''uptime_s'', JFloat (ga_uptime g)),
     (''ready'', ready_json (sv_local_ready sv (dm_world d)) (sv_remote_ready sv)),
     (''clients'', JInt (int (ga_clients g))),
     (''background_tasks'', JInt (int (ga_tasks g))),
     (''monitors'', JObj [(''configured'', JInt (int (sum_list (map (\<lambda>m. length (md_monitors m)) (sv_modules sv))))),
        (''active_tasks'', JInt (int (ga_monitor_tasks g)))]),
     (''store'', JObj [(''backend'', JStr (store_class (dm_store d))),
        (''enabled'', JBool (cfg_events (sv_config sv) \<noteq> ''null''))]),
     (''counters'', JObj (map (\<lambda>(k, n). (k, JInt n)) (ga_counters g)))]]) d"

section \<open>Incoming lines\<close>

text \<open>
  The task a message starts, by its class; what belongs to no request is ignored. Tasks are
  numbered in the order they are spawned.
\<close>

record server_conn =
  sc_client :: client
  sc_ops :: operational_state
  sc_spawned :: "(nat \<times> message) list"
  sc_cancelled :: "nat set"

definition spawns_task :: "wire_class \<Rightarrow> bool" where
  "spawns_task c \<longleftrightarrow> c \<in> {Query, ListFailures, RestartUnit, ExplainUnit, UnitJournal, GetTimeline, GetLedger, GetHealth}"

definition spawn_task :: "message \<Rightarrow> server_conn \<Rightarrow> server_conn" where
  "spawn_task m s =
     (let t = length (sc_spawned s)
      in s\<lparr>sc_spawned := sc_spawned s @ [(t, m)],
           sc_client := (sc_client s)\<lparr>cl_owned := insert t (cl_owned (sc_client s))\<rparr>\<rparr>)"

definition unhashable_id :: "json \<Rightarrow> exn" where
  "unhashable_id j = Foreign ''TypeError'' (''unhashable type: '' @ py_repr (type_name j))"

definition on_request :: "message \<Rightarrow> server_conn \<Rightarrow> exn option \<times> server_conn" where
  "on_request m s =
     (let qid = get_field m ''id''
      in if msg_class m = Cancel then
           (if unhashable qid then (Some (unhashable_id qid), s)
            else (case cl_tasks (sc_client s) qid of
                None \<Rightarrow> (None, s)
              | Some t \<Rightarrow> (None, s\<lparr>sc_cancelled := insert t (sc_cancelled s)\<rparr>)))
         else if msg_class m = Respond then
           (case deliver_response m (sc_client s) of
              Inl e \<Rightarrow> (Some e, s)
            | Inr c \<Rightarrow> (None, s\<lparr>sc_client := c\<rparr>))
         else if msg_class m = Query then
           (let s' = spawn_task m s
            in if unhashable qid then (Some (unhashable_id qid), s')
               else (None, s'\<lparr>sc_client := register_query qid (length (sc_spawned s)) (sc_client s')\<rparr>))
         else (None, if spawns_task (msg_class m) then spawn_task m s else s))"

definition on_line :: "py_texts \<Rightarrow> real \<Rightarrow> pystr \<Rightarrow> server_conn \<Rightarrow> exn option \<times> server_conn" where
  "on_line py t line s =
     (case decode py line of
        Inr m \<Rightarrow> on_request m s
      | Inl e \<Rightarrow>
          (if is_nixadmin e
           then (None, s\<lparr>sc_ops := snd (should_log ''malformed_message'' LOG_INTERVAL t
                   (increment ''malformed_messages'' (sc_ops s)))\<rparr>)
           else (Some e, s)))"

section \<open>Housekeeping and events\<close>

definition prune_events :: "'w services \<Rightarrow> 'w daemon \<Rightarrow> 'w daemon" where
  "prune_events sv d =
     (let cutoff = clock (sv_host sv) (dm_world d) - of_int (cfg_retention_days (sv_config sv)) * 24 * 60 * 60
      in d\<lparr>dm_store := snd (st_prune (db_up (sv_host sv) (dm_world d)) cutoff (dm_store d))\<rparr>)"

text \<open>One turn of the readiness loop: the new flag, whether \<^verbatim>\<open>Ready\<close> is broadcast, the delay.\<close>

definition readiness_step :: "bool \<Rightarrow> bool \<Rightarrow> bool \<times> bool \<times> real" where
  "readiness_step ready local_ready = (ready, ready \<and> \<not> local_ready, if ready then 30 else 2)"

definition ready_event :: message where "ready_event = mk_message Ready [JStr ''local'']"

definition monitor_event :: "'w services \<Rightarrow> pystr \<Rightarrow> pystr \<Rightarrow> pystr \<Rightarrow> ('w daemon, unit) act" where
  "monitor_event sv source severity t =
     andthen (record_event sv ''monitor_event'' None None (Some severity) t (Some [(''source'', JStr source)])) (\<lambda>_.
       send_event source severity t)"

end
