(* ===== verification/Handler_Properties.thy ===== *)
theory Handler_Properties
  imports Handlers Dispatch_Messages
begin

text \<open>
  The other requests of the daemon: how a request about a unit ends, what an incoming line
  can do, and that the daemon's greeting is one its clients accept.
\<close>

section \<open>Requests about a unit\<close>

lemma concludes_or_error:
  assumes "drains_ok (sv_transport sv)" "concludes (total m)"
  shows "concludes (total (or_error sv qid m))"
  unfolding concludes_def
proof (intro allI impI)
  fix d r d'
  assume run: "total (or_error sv qid m) d = Some (r, d')"
  obtain r1 d1 where m: "m d = (r1, d1)" by fastforce
  then have f: "finishes d r1 d1" using assms(2) by (simp add: concludes_def total_def)
  show "finishes d r d'"
  proof (cases "\<exists>e. r1 = Inl e \<and> is_nixadmin e")
    case True
    then obtain e where e: "r1 = Inl e" "is_nixadmin e" by blast
    with run m have "tell sv (error_msg qid (str_exn e)) d1 = (r, d')"
      by (simp add: total_def or_error_def try_nixadmin_def)
    with concludes_tell [OF assms(1), of "error_msg qid (str_exn e)"] have "finishes d1 r d'"
      by (simp add: concludes_def total_def)
    moreover have "talks d d1" using f e by (simp add: finishes_def)
    ultimately show ?thesis by (rule talks_finishes [rotated])
  next
    case False
    with run m have "r = r1" "d' = d1"
      by (auto simp: total_def or_error_def try_nixadmin_def split: sum.splits)
    with f show ?thesis by simp
  qed
qed

lemma moves_current_failed: "moves talks (current_failed sv)"
  unfolding current_failed_def
  by (intro talks.moves_lift anything.moves_failed_units anything.services_moveD(1) talks.services)

lemma moves_restart: "moves talks (restart_resolved (daemon_host (sv_host sv)) (tell_status sv qid)
    (Some (\<lambda>u. lift (apply_restart (sv_gate sv) u))) u scope)"
  unfolding apply_restart_def
  by (intro talks.daemon.moves_restart_resolved talks.daemon_host_moves talks.moves_status talks.moves_lift
      anything.moves_checked_helper talks.services)

lemma concludes_bare: "drains_ok (sv_transport sv) \<Longrightarrow> concludes (total (tell_bare sv qid s))"
  unfolding tell_bare_def by (intro concludes_andthen talks.moves_delta concludes_tell) simp_all

lemma concludes_restart_unit:
  assumes "drains_ok (sv_transport sv)"
  shows "concludes (total (restart_unit sv qid u scope))"
  unfolding restart_unit_def
  by (intro concludes_or_error concludes_andthen moves_current_failed assms)
    (simp add: total_if concludes_answer assms concludes_andthen moves_restart part_moves)

lemma concludes_explain_failed:
  assumes "drains_ok (sv_transport sv)"
  shows "concludes (total (explain_failed sv qid u scope))"
proof -
  have "moves talks (lift (unit_journal (sv_host sv) u scope))"
    by (intro talks.moves_lift anything.moves_unit_journal anything.services_moveD(1) talks.services)
  moreover have "moves talks (lift_call (is_ready (sv_http sv) (local_backend sv)))"
    by (rule talks.moves_lift_call) simp
  ultimately show ?thesis
    unfolding explain_failed_def
    by (intro concludes_andthen part_moves talks.daemon.moves_rules talks.moves_status concludes_done assms)
qed

lemma concludes_explain_unit:
  assumes "drains_ok (sv_transport sv)"
  shows "concludes (total (explain_unit sv qid u scope))"
  unfolding explain_unit_def
  by (intro concludes_or_error concludes_andthen moves_current_failed assms)
    (simp add: total_if concludes_bare concludes_explain_failed assms)

section \<open>The greeting\<close>

lemma hello_wire_ready: "wire_ready (daemon_hello sv w)"
  by (auto simp: wire_ready_def daemon_hello_def mk_message_def ready_json_def list_all_iff)

lemma hello_compatible: "require_compatible (daemon_hello sv w) VERSION = Inr ()"
  by (simp add: require_compatible_def daemon_hello_def mk_message_def get_field_def VERSION_def MIN_VERSION_def)

lemma hello_class [simp]: "msg_class (daemon_hello sv w) = Hello"
  by (simp add: daemon_hello_def mk_message_def)

section \<open>Lines\<close>

lemma decode_error: "decode py line = Inl e \<Longrightarrow> is_nixadmin e \<or> (\<exists>msg. e = Foreign ''TypeError'' msg)"
  by (auto simp: decode_def decode_object_def build_def split: option.splits json.splits if_splits)

definition harmless_line :: "server_conn \<Rightarrow> exn option \<times> server_conn \<Rightarrow> bool" where
  "harmless_line s out \<longleftrightarrow>
     (case fst out of None \<Rightarrow> True | Some x \<Rightarrow> \<exists>msg. x = Foreign ''TypeError'' msg) \<and>
     (\<exists>ms. sc_spawned (snd out) = sc_spawned s @ ms \<and> length ms \<le> 1 \<and> set (map fst ms) \<subseteq> cl_owned (sc_client (snd out))) \<and>
     sc_cancelled (snd out) \<subseteq> sc_cancelled s \<union> ran (cl_tasks (sc_client s))"

lemma harmless_same:
  "sc_spawned s' = sc_spawned s \<Longrightarrow> sc_cancelled s' \<subseteq> sc_cancelled s \<union> ran (cl_tasks (sc_client s)) \<Longrightarrow>
     e = None \<or> (\<exists>m. e = Some (Foreign ''TypeError'' m)) \<Longrightarrow> harmless_line s (e, s')"
  by (auto simp: harmless_line_def)

lemma harmless_spawn:
  "sc_spawned s' = sc_spawned (spawn_task m s) \<Longrightarrow> sc_cancelled s' = sc_cancelled s \<Longrightarrow>
     cl_owned (sc_client (spawn_task m s)) \<subseteq> cl_owned (sc_client s') \<Longrightarrow>
     e = None \<or> (\<exists>m. e = Some (Foreign ''TypeError'' m)) \<Longrightarrow> harmless_line s (e, s')"
  by (auto simp: harmless_line_def spawn_task_def Let_def)

lemma harmless_request: "harmless_line s (on_request m s)"
proof -
  let ?qid = "get_field m ''id''"
  consider "msg_class m = Cancel" | "msg_class m = Respond" | "msg_class m = Query"
    | "msg_class m \<notin> {Cancel, Respond, Query}" by blast
  then show ?thesis
  proof cases
    case 1
    then show ?thesis
      by (auto simp: on_request_def Let_def unhashable_id_def ran_def split: option.split intro!: harmless_same)
  next
    case 2
    then show ?thesis
      by (auto simp: on_request_def deliver_response_def Let_def split: option.split sum.split intro!: harmless_same)
  next
    case 3
    then show ?thesis
      by (auto simp: on_request_def Let_def unhashable_id_def register_query_def spawn_task_def intro!: harmless_spawn)
  next
    case 4
    then show ?thesis
      by (cases "spawns_task (msg_class m)")
        (simp_all add: on_request_def Let_def harmless_same, rule harmless_spawn [where m = m],
          simp_all add: spawn_task_def Let_def)
  qed
qed

section \<open>Properties\<close>



text \<open>
   The greeting of every daemon, in any state of readiness, is read back by every client as it
  was sent and passes the version check, as long as it is within the wire limit.
\<close>

theorem greeting_accepted:
  "if fits_wire frepr (daemon_hello sv w)
   then negotiate py (encode frepr (daemon_hello sv w)) = Inr (daemon_hello sv w)
   else negotiate py (encode frepr (daemon_hello sv w)) = Inl (ProtocolError ''wire message exceeds size limit'')"
proof -
  have "decode py (strip (encode frepr (daemon_hello sv w))) = Inr (daemon_hello sv w)"
    unfolding strip_encode by (rule decode_encoded [OF hello_wire_ready])
  moreover have "strip (encode frepr (daemon_hello sv w)) \<noteq> []"
    unfolding strip_encode encoded_object_def by simp
  ultimately show ?thesis
    by (simp add: negotiate_def decode_line_def fits_wire_def MAX_LINE_BYTES_def MAX_WIRE_MESSAGE_BYTES_def
        validate_hello_def hello_compatible)
qed

text \<open>
   What one line of a client does: it ends the connection only by a \<^verbatim>\<open>TypeError\<close> (an unhashable
  type or id), starts at most one task, owned by its connection, and cancels nothing but the
  query this connection has registered under the id.
\<close>

theorem line_effects: "harmless_line s (on_line py t line s)"
proof (cases "decode py line")
  case (Inl e)
  then show ?thesis
    using decode_error [OF Inl] by (auto simp: on_line_def intro!: harmless_same)
next
  case (Inr m)
  then show ?thesis using harmless_request by (simp add: on_line_def)
qed

end
