(* ===== verification/Web_Guard.thy ===== *)
theory Web_Guard
  imports Protocol Py_Path
begin

text \<open>
  The checks of the local web view before anything else happens: \<^verbatim>\<open>web/security.py\<close> (host,
  origin and token of a request) and \<^verbatim>\<open>web/requests.py\<close> (the typed request bodies). A header
  that is absent is \<open>None\<close>; a query string is the dictionary that \<^verbatim>\<open>parse_qs\<close> gives.
\<close>

section \<open>Partition\<close>

text \<open>\<^verbatim>\<open>s.partition(sep)\<close> for a longer separator, and \<^verbatim>\<open>s.rpartition(c)\<close> without the separator itself.\<close>

fun partition_str :: "pystr \<Rightarrow> pystr \<Rightarrow> pystr \<times> pystr" where
  "partition_str sep [] = ([], [])"
| "partition_str sep (c # cs) =
     (if startswith sep (c # cs) then ([], drop (length sep) (c # cs))
      else (let (u, v) = partition_str sep cs in (c # u, v)))"

definition rpartition_at :: "char \<Rightarrow> pystr \<Rightarrow> pystr \<times> pystr" where
  "rpartition_at sep s =
     (if sep \<in> set s then (rev (tl (dropWhile (\<lambda>c. c \<noteq> sep) (rev s))), after_last sep s) else ([], s))"

lemma rpartition_at_absent: "sep \<notin> set s \<Longrightarrow> rpartition_at sep s = ([], s)"
  by (simp add: rpartition_at_def)

lemma rpartition_at_found: "sep \<notin> set v \<Longrightarrow> rpartition_at sep (u @ sep # v) = (u, v)"
proof -
  assume v: "sep \<notin> set v"
  then have "dropWhile (\<lambda>c. c \<noteq> sep) (rev v @ sep # rev u) = sep # rev u"
    by (subst dropWhile_append2) auto
  with v show ?thesis by (simp add: rpartition_at_def after_last_found)
qed

lemma rpartition_at_cases:
  obtains "sep \<notin> set s" "rpartition_at sep s = ([], s)"
  | u v where "s = u @ sep # v" "sep \<notin> set v" "rpartition_at sep s = (u, v)"
proof (cases "sep \<in> set s")
  case True
  then obtain u v where "s = u @ sep # v" "sep \<notin> set v" using split_list_last by fastforce
  with that(2) rpartition_at_found show thesis by metis
next
  case False
  with that(1) rpartition_at_absent show thesis by metis
qed

lemma partition_str_found: "CHR '':'' \<notin> set u \<Longrightarrow> partition_str (CHR '':'' # r) (u @ CHR '':'' # r @ v) = (u, v)"
  by (induction u) (auto simp: startswith_def)

lemma partition_str_parts:
  "partition_str sep s = (u, v) \<Longrightarrow> s = u @ sep @ v \<or> (s = u \<and> v = [])"
proof (induction sep s arbitrary: u rule: partition_str.induct)
  case (2 sep c cs)
  then show ?case by (fastforce simp: startswith_iff split: if_splits prod.splits)
qed simp

section \<open>Host, origin, token\<close>

definition LOOPBACK_HOSTS :: "pystr list" where
  "LOOPBACK_HOSTS = [''127.0.0.1'', ''localhost'', ''[::1]'', ''::1'']"

text \<open>
  \<^verbatim>\<open>hmac.compare_digest\<close> raises \<^verbatim>\<open>TypeError\<close> on text outside ASCII, and \<^verbatim>\<open>token_ok\<close> passes it on.
\<close>

definition ascii :: "pystr \<Rightarrow> bool" where
  "ascii s \<longleftrightarrow> list_all (\<lambda>c. code c < 128) s"

definition token_ok :: "pystr option \<Rightarrow> pystr \<Rightarrow> exn + bool" where
  "token_ok provided expected =
     (case provided of
        None \<Rightarrow> Inr False
      | Some p \<Rightarrow>
          (if p = [] \<or> expected = [] then Inr False
           else if \<not> (ascii p \<and> ascii expected)
           then Inl (Foreign ''TypeError'' ''comparing strings with non-ASCII characters is not supported'')
           else Inr (p = expected)))"

definition host_ok :: "pystr option \<Rightarrow> int \<Rightarrow> bool" where
  "host_ok host_header port =
     (case host_header of
        None \<Rightarrow> False
      | Some h \<Rightarrow>
          (if h = [] then False
           else (let (host, hport) = rpartition_at (CHR '':'') h;
                     name = (if host \<noteq> [] then host else hport);
                     port_part = (if host \<noteq> [] then hport else [])
                 in if port_part \<noteq> [] \<and> port_part \<noteq> show_int port then False
                    else name \<in> set LOOPBACK_HOSTS)))"

definition origin_ok :: "pystr option \<Rightarrow> int \<Rightarrow> bool \<Rightarrow> bool" where
  "origin_ok origin port require =
     (case origin of
        None \<Rightarrow> \<not> require
      | Some s \<Rightarrow>
          (if s = [] then \<not> require
           else (let (scheme, rest) = partition_str ''://'' s
                 in if scheme \<notin> set [''http'', ''https''] then False
                    else (let (host, found, oport) = partition_at (CHR '':'') rest
                          in if oport \<noteq> [] \<and> oport \<noteq> show_int port then False
                             else host \<in> set LOOPBACK_HOSTS))))"

section \<open>Request bodies\<close>

type_synonym request_error = "int \<times> pystr"

definition MAX_REQUEST_BODY_BYTES :: int where "MAX_REQUEST_BODY_BYTES = 64 * 1024"
definition MAX_QUERY_CHARS :: nat where "MAX_QUERY_CHARS = 4000"

record query_spec =
  qs_qid :: pystr
  qs_text :: pystr
  qs_session_id :: pystr

text \<open>\<^verbatim>\<open>(query.get(key) or [default])[0]\<close>.\<close>

definition first_value :: "pystr \<Rightarrow> (pystr \<times> pystr list) list \<Rightarrow> pystr \<Rightarrow> pystr" where
  "first_value dflt query key =
     (case map_of query key of Some (v # vs) \<Rightarrow> v | _ \<Rightarrow> dflt)"

definition or_else :: "pystr \<Rightarrow> pystr \<Rightarrow> pystr" where
  "or_else s other = (if s \<noteq> [] then s else other)"

text \<open>\<open>fresh\<close> is the identifier made with \<^verbatim>\<open>uuid4().hex[:12]\<close>.\<close>

definition from_query :: "pystr \<Rightarrow> (pystr \<times> pystr list) list \<Rightarrow> request_error + query_spec" where
  "from_query fresh query =
     (let t = strip (first_value [] query ''text'')
      in if t = [] then Inl (400, ''empty query'')
         else if MAX_QUERY_CHARS < length t then Inl (413, ''query too large'')
         else Inr \<lparr>qs_qid = or_else (strip (first_value [] query ''qid'')) fresh, qs_text = t,
                   qs_session_id = or_else (strip (first_value ''web'' query ''session'')) ''web''\<rparr>)"

record unit_spec =
  us_unit :: pystr
  us_scope :: pystr

text \<open>\<^verbatim>\<open>str(x)\<close> of a decoded value.\<close>

definition py_str :: "py_texts \<Rightarrow> json \<Rightarrow> pystr" where
  "py_str py j = (case j of JStr s \<Rightarrow> s | _ \<Rightarrow> str_json py j)"

definition from_body :: "py_texts \<Rightarrow> (pystr \<times> json) list \<Rightarrow> request_error + unit_spec" where
  "from_body py body =
     (let unit = strip (py_str py (the_default (JStr []) (map_of body ''unit'')));
          scope = py_str py (the_default (JStr ''system'') (map_of body ''scope''))
      in if unit = [] then Inl (400, ''unit is required'')
         else if scope \<notin> set [''system'', ''user''] then Inl (400, ''scope must be 'system' or 'user'' @ [CHR 0x27])
         else Inr \<lparr>us_unit = unit, us_scope = scope\<rparr>)"

record http_result =
  hr_status :: int
  hr_payload :: json

definition error_result :: "request_error \<Rightarrow> http_result" where
  "error_result e = \<lparr>hr_status = fst e, hr_payload = JObj [(''error'', JStr (snd e))]\<rparr>"

definition content_length :: "pystr option \<Rightarrow> request_error + int" where
  "content_length value =
     (case py_int (or_else (the_default [] value) ''0'') of
        None \<Rightarrow> Inl (400, ''invalid content length'')
      | Some n \<Rightarrow>
          (if n < 0 then Inl (400, ''invalid content length'')
           else if MAX_REQUEST_BODY_BYTES < n then Inl (413, ''request body too large'')
           else Inr n))"

text \<open>The body as text; \<open>None\<close> stands for bytes that decode to no text.\<close>

definition json_object :: "pystr option \<Rightarrow> request_error + (pystr \<times> json) list" where
  "json_object raw =
     (case raw of
        None \<Rightarrow> Inl (400, ''invalid JSON body'')
      | Some s \<Rightarrow>
          (case loads (or_else s ''{}'') of
             None \<Rightarrow> Inl (400, ''invalid JSON body'')
           | Some (JObj kvs) \<Rightarrow> Inr kvs
           | Some _ \<Rightarrow> Inl (400, ''JSON body must be an object'')))"

section \<open>Which hosts and origins pass\<close>

lemma colon_not_in_port: "CHR '':'' \<notin> set (show_int port)"
  using show_nat_digits [of "nat port"] show_nat_digits [of "nat (- port)"]
  by (auto simp: show_int_def list_all_iff is_digit_def code_def)

lemma loopback_nonempty: "n \<in> set LOOPBACK_HOSTS \<Longrightarrow> n \<noteq> []"
  by (auto simp: LOOPBACK_HOSTS_def)

lemma show_int_nonempty: "show_int i \<noteq> []"
  by (simp add: show_int_def show_nat_nonempty)

text \<open>The names without a colon, and the odd header whose only colon comes first.\<close>

lemma plain_loopback:
  assumes "CHR '':'' \<notin> set h"
  shows "h \<in> set LOOPBACK_HOSTS \<longleftrightarrow> h \<in> {''127.0.0.1'', ''localhost''}"
    and "h \<notin> {'':127.0.0.1'', '':localhost''}"
proof -
  have "h \<in> {''127.0.0.1'', ''localhost''}" if "h \<in> set LOOPBACK_HOSTS"
    using that assms unfolding LOOPBACK_HOSTS_def by (simp, elim disjE) simp_all
  moreover have "''127.0.0.1'' \<in> set LOOPBACK_HOSTS \<and> ''localhost'' \<in> set LOOPBACK_HOSTS"
    by (simp add: LOOPBACK_HOSTS_def)
  ultimately show "h \<in> set LOOPBACK_HOSTS \<longleftrightarrow> h \<in> {''127.0.0.1'', ''localhost''}" by fast
  show "h \<notin> {'':127.0.0.1'', '':localhost''}" using assms by auto
qed

lemma leading_colon_loopback:
  "CHR '':'' \<notin> set v \<Longrightarrow> v \<in> set LOOPBACK_HOSTS \<longleftrightarrow> CHR '':'' # v \<in> {'':127.0.0.1'', '':localhost''}"
  using plain_loopback(1) [of v] by simp

text \<open>
   The host check passes exactly these headers: one of the four loopback names followed by a
  colon, with this server's port or with nothing after it; or \<^verbatim>\<open>127.0.0.1\<close> or \<^verbatim>\<open>localhost\<close>
  alone, also behind a colon. No other name passes, so a page whose name was made to resolve to
  this machine is refused; and the bare IPv6 forms \<^verbatim>\<open>::1\<close> and \<^verbatim>\<open>[::1]\<close> are refused too.
\<close>

theorem host_gate_exact:
  "host_ok header port \<longleftrightarrow> (case header of
      None \<Rightarrow> False
    | Some h \<Rightarrow> (\<exists>n p. h = n @ p \<and> n \<in> set LOOPBACK_HOSTS \<and> p \<in> {'':'', CHR '':'' # show_int port}) \<or>
        h \<in> {''127.0.0.1'', ''localhost'', '':127.0.0.1'', '':localhost''})"
proof (cases header)
  case None
  then show ?thesis by (simp add: host_ok_def)
next
  case (Some h)
  let ?named = "\<exists>n p. h = n @ p \<and> n \<in> set LOOPBACK_HOSTS \<and> p \<in> {'':'', CHR '':'' # show_int port}"
  have "host_ok header port \<longleftrightarrow> ?named \<or> h \<in> {''127.0.0.1'', ''localhost'', '':127.0.0.1'', '':localhost''}"
  proof (cases rule: rpartition_at_cases [of "CHR '':''" h])
    case 1
    then have "host_ok header port \<longleftrightarrow> h \<in> set LOOPBACK_HOSTS"
      using loopback_nonempty by (auto simp: Some host_ok_def)
    moreover have "\<not> ?named" using 1(1) by fastforce
    ultimately show ?thesis using plain_loopback [OF 1(1)] by blast
  next
    case (2 u v)
    have "host_ok header port \<longleftrightarrow>
        (if u = [] then v \<in> set LOOPBACK_HOSTS else v \<in> {[], show_int port} \<and> u \<in> set LOOPBACK_HOSTS)"
      using 2 by (auto simp: Some host_ok_def)
    moreover have "?named \<longleftrightarrow> u \<in> set LOOPBACK_HOSTS \<and> v \<in> {[], show_int port}" (is "?l \<longleftrightarrow> ?r")
    proof
      assume ?l
      then obtain n w where n: "h = n @ CHR '':'' # w" "n \<in> set LOOPBACK_HOSTS" "w \<in> {[], show_int port}" by blast
      then have "CHR '':'' \<notin> set w" using colon_not_in_port by auto
      then have "rpartition_at (CHR '':'') h = (n, w)" using n(1) rpartition_at_found by simp
      with 2(3) n show ?r by simp
    next
      assume ?r
      with 2(1) show ?l by blast
    qed
    moreover have "h \<in> {'':127.0.0.1'', '':localhost''} \<longleftrightarrow> u = [] \<and> v \<in> set LOOPBACK_HOSTS"
    proof (cases u)
      case Nil
      with leading_colon_loopback [OF 2(2)] 2(1) show ?thesis by simp
    next
      case (Cons c cs)
      have "h \<noteq> '':127.0.0.1''" "h \<noteq> '':localhost''"
        using rpartition_at_found [of "CHR '':''" "''127.0.0.1''" "[]"] 
          rpartition_at_found [of "CHR '':''" "''localhost''" "[]"] 2(3) Cons by auto
      with Cons show ?thesis by simp
    qed
    moreover have "CHR '':'' \<in> set h" using 2(1) by simp
    then have "h \<notin> {''127.0.0.1'', ''localhost''}" by auto
    ultimately show ?thesis using loopback_nonempty [of u] by (cases "u = []") auto
  qed
  then show ?thesis unfolding Some option.case .
qed

text \<open>
   The origin check passes exactly the origins of \<^verbatim>\<open>127.0.0.1\<close> and \<^verbatim>\<open>localhost\<close> over HTTP, with
  this server's port or none, and a request without an origin only when it is not required. In
  particular a change needs an origin.
\<close>

theorem origin_gate_exact:
  "origin_ok origin port require \<longleftrightarrow>
     (if the_default [] origin = [] then \<not> require
      else \<exists>scheme n p. origin = Some (scheme @ ''://'' @ n @ p) \<and> scheme \<in> {''http'', ''https''} \<and>
        n \<in> {''127.0.0.1'', ''localhost''} \<and> p \<in> {[], '':'', CHR '':'' # show_int port})"
proof (cases "the_default [] origin = []")
  case True
  then show ?thesis by (auto simp: origin_ok_def split: option.splits)
next
  case False
  then obtain s where s: "origin = Some s" "s \<noteq> []" by (cases origin) auto
  obtain u v where uv: "partition_str ''://'' s = (u, v)" by fastforce
  obtain n found p where np: "partition_at (CHR '':'') v = (n, found, p)" by (metis prod_cases3)
  let ?passes = "u \<in> {''http'', ''https''} \<and> p \<in> {[], show_int port} \<and> n \<in> {''127.0.0.1'', ''localhost''}"
  from partition_at_parts [OF np] have v: "v = n @ (if found then CHR '':'' # p else [])" and n: "CHR '':'' \<notin> set n"
    by auto
  have "origin_ok origin port require \<longleftrightarrow> ?passes"
    using s uv np plain_loopback(1) [OF n] by (auto simp: origin_ok_def)
  moreover have "?passes \<longleftrightarrow> (\<exists>scheme n p. s = scheme @ ''://'' @ n @ p \<and> scheme \<in> {''http'', ''https''} \<and>
      n \<in> {''127.0.0.1'', ''localhost''} \<and> p \<in> {[], '':'', CHR '':'' # show_int port})" (is "_ \<longleftrightarrow> ?r")
  proof
    assume l: ?passes
    then have "v \<noteq> []" using v by auto
    then have "s = u @ ''://'' @ v" using partition_str_parts [OF uv] by simp
    then have "s = u @ ''://'' @ n @ (if found then CHR '':'' # p else [])" using v by simp
    moreover have "(if found then CHR '':'' # p else []) \<in> {[], '':'', CHR '':'' # show_int port}" using l by auto
    ultimately show ?r using l by blast
  next
    assume ?r
    then obtain scheme m w where r: "s = scheme @ ''://'' @ m @ w" "scheme \<in> {''http'', ''https''}"
      "m \<in> {''127.0.0.1'', ''localhost''}" "w \<in> {[], '':'', CHR '':'' # show_int port}" by blast
    have "CHR '':'' \<notin> set scheme" "CHR '':'' \<notin> set m" using r(2,3) by auto
    then have "u = scheme" "v = m @ w"
      using partition_str_found [of scheme "''//''" "m @ w"] r(1) uv by simp_all
    moreover have "n = m" "p \<in> {[], show_int port}"
      using np \<open>v = m @ w\<close> \<open>CHR '':'' \<notin> set m\<close> r(4) partition_at_absent [of "CHR '':''" m]
        partition_at_found [of "CHR '':''" m] by auto
    ultimately show ?passes using r by simp
  qed
  ultimately show ?thesis using s by simp
qed

lemma from_query_checked:
  "case from_query fresh query of
      Inr q \<Rightarrow> qs_text q = strip (first_value [] query ''text'') \<and> qs_text q \<noteq> [] \<and> length (qs_text q) \<le> 4000 \<and>
        (qs_qid q = [] \<longleftrightarrow> fresh = [] \<and> strip (first_value [] query ''qid'') = []) \<and> qs_session_id q \<noteq> []
    | Inl e \<Rightarrow> fst e = (if strip (first_value [] query ''text'') = [] then 400 else 413) \<and>
        (fst e = 413 \<longleftrightarrow> 4000 < length (strip (first_value [] query ''text'')))"
  by (simp add: from_query_def Let_def or_else_def MAX_QUERY_CHARS_def)

lemma from_body_checked:
  "case from_body py body of Inr u \<Rightarrow> us_unit u \<noteq> [] \<and> us_scope u \<in> {''system'', ''user''} | Inl e \<Rightarrow> fst e = 400"
  by (simp add: from_body_def Let_def)

lemma content_length_checked:
  "case content_length header of Inr n \<Rightarrow> 0 \<le> n \<and> n \<le> 65536
    | Inl e \<Rightarrow> fst e \<in> {400, 413} \<and>
        (fst e = 413 \<longleftrightarrow> (\<exists>n > 65536. py_int (or_else (the_default [] header) ''0'') = Some n))"
  by (cases "py_int (or_else (the_default [] header) ''0'')")
    (auto simp: content_length_def MAX_REQUEST_BODY_BYTES_def)

text \<open>
   What the request bodies let through. A query has text of at most 4000 characters, trimmed,
  and a non-empty identifier and session; otherwise the answer is 400 (empty) or 413 (too long).
  A unit request names a unit and one of the two scopes, or is answered with 400. A body is read
  only up to 64 KiB.
\<close>

theorem request_specs_checked:
  "(case from_query fresh query of
      Inr q \<Rightarrow> qs_text q = strip (first_value [] query ''text'') \<and> qs_text q \<noteq> [] \<and> length (qs_text q) \<le> 4000 \<and>
        (qs_qid q = [] \<longleftrightarrow> fresh = [] \<and> strip (first_value [] query ''qid'') = []) \<and> qs_session_id q \<noteq> []
    | Inl e \<Rightarrow> fst e = (if strip (first_value [] query ''text'') = [] then 400 else 413) \<and>
        (fst e = 413 \<longleftrightarrow> 4000 < length (strip (first_value [] query ''text'')))) \<and>
   (case from_body py body of
      Inr u \<Rightarrow> us_unit u \<noteq> [] \<and> us_scope u \<in> {''system'', ''user''}
    | Inl e \<Rightarrow> fst e = 400) \<and>
   (case content_length header of
      Inr n \<Rightarrow> 0 \<le> n \<and> n \<le> 65536
    | Inl e \<Rightarrow> fst e \<in> {400, 413} \<and> (fst e = 413 \<longleftrightarrow> (\<exists>n > 65536. py_int (or_else (the_default [] header) ''0'') = Some n)))"
  by (intro conjI from_query_checked from_body_checked content_length_checked)

end
