(* ===== verification/Web_Session.thy ===== *)
theory Web_Session
  imports Web_Guard
begin

text \<open>
  \<^verbatim>\<open>web/session.py\<close>: one query of the web view over a daemon socket of its own, and the frames its
  messages are shown as. Several threads share a session: the one that streams the messages (a
  generator driven by its consumer) and those that serve the browser's answers and
  cancellations. Each atomic step of any of them is an event, so a run is the list of events in
  the order they happen; whether a write on the socket succeeds is part of the event.
\<close>

section \<open>State\<close>

text \<open>
  Where the generator stands: reading, suspended after it yielded a message, waiting for the
  answer to a question, or finished (with the exception it raised, if any).
\<close>

datatype phase = Reading | Yielded message | Awaiting message | Finished "exn option"

text \<open>
  An entry \<open>None\<close> of the queue is a cancel. The last two fields only record: what was ever put in
  the queue, and what the consumer was given.
\<close>

record web_session =
  ws_qid :: pystr
  ws_answers :: "message option list"
  ws_open :: bool
  ws_closed :: bool
  ws_sent :: "message list"
  ws_phase :: phase
  ws_given :: "message option list"
  ws_shown :: "message list"

definition new_web_session :: "pystr \<Rightarrow> web_session" where
  "new_web_session qid = \<lparr>ws_qid = qid, ws_answers = [], ws_open = False, ws_closed = False, ws_sent = [],
     ws_phase = Reading, ws_given = [], ws_shown = []\<rparr>"

section \<open>Operations\<close>

definition broken_pipe :: exn where "broken_pipe = Foreign ''BrokenPipeError'' ''Broken pipe''"

definition close_session :: "web_session \<Rightarrow> web_session" where
  "close_session s = (if ws_closed s then s else s\<lparr>ws_closed := True\<rparr>)"

text \<open>\<^verbatim>\<open>_write\<close>: nothing without an open socket; \<open>wire_ok\<close> is whether \<^verbatim>\<open>sendall\<close> succeeds.\<close>

definition write_message :: "bool \<Rightarrow> message \<Rightarrow> web_session \<Rightarrow> exn option \<times> web_session" where
  "write_message wire_ok m s =
     (if ws_open s \<and> \<not> ws_closed s
      then (if wire_ok then (None, s\<lparr>ws_sent := ws_sent s @ [m]\<rparr>) else (Some broken_pipe, s))
      else (None, s))"

definition cancel_msg :: "pystr \<Rightarrow> message" where
  "cancel_msg qid = mk_message Cancel [JStr qid]"

definition cancel_daemon :: "bool \<Rightarrow> web_session \<Rightarrow> web_session" where
  "cancel_daemon wire_ok s =
     (if ws_open s \<and> \<not> ws_closed s \<and> wire_ok
      then s\<lparr>ws_sent := ws_sent s @ [cancel_msg (ws_qid s)]\<rparr> else s)"

definition query_msg :: "query_spec \<Rightarrow> message" where
  "query_msg request = mk_message Query [JStr (qs_qid request), JStr (qs_text request), JStr (qs_session_id request), JNull]"

text \<open>
  \<^verbatim>\<open>open\<close>: connect, read the daemon's hello, send the query. \<open>hello\<close> is the line read or the
  exception of the read.
\<close>

definition open_session ::
  "py_texts \<Rightarrow> exn + unit \<Rightarrow> exn + pystr \<Rightarrow> bool \<Rightarrow> query_spec \<Rightarrow> web_session \<Rightarrow> exn option \<times> web_session" where
  "open_session py dialled hello wire_ok request s =
     (case dialled of
        Inl e \<Rightarrow> (Some e, s)
      | Inr _ \<Rightarrow>
          (let s1 = s\<lparr>ws_open := True\<rparr>
           in case (case (case hello of Inl e \<Rightarrow> Inl e | Inr line \<Rightarrow> negotiate py line) of
                   Inl e \<Rightarrow> (Some e, s1)
                 | Inr _ \<Rightarrow> write_message wire_ok (query_msg request) s1) of
                (None, s2) \<Rightarrow> (None, s2)
              | (Some x, s2) \<Rightarrow> (Some x, if is_os_error x \<or> is_protocol_error x then close_session s2 else s2)))"

text \<open>The generator ends: its \<^verbatim>\<open>finally\<close> closes the session.\<close>

definition finish :: "exn option \<Rightarrow> web_session \<Rightarrow> web_session" where
  "finish e s = close_session (s\<lparr>ws_phase := Finished e\<rparr>)"

definition is_question :: "message \<Rightarrow> bool" where
  "is_question m \<longleftrightarrow> msg_class m = Confirm \<or> msg_class m = Input"

definition is_final :: "message \<Rightarrow> bool" where
  "is_final m \<longleftrightarrow> msg_class m = Done \<or> msg_class m = Error"

definition respond_msg :: "pystr \<Rightarrow> bool option \<Rightarrow> pystr option \<Rightarrow> message" where
  "respond_msg qid confirmed value =
     mk_message Respond [JStr qid, case confirmed of None \<Rightarrow> JNull | Some b \<Rightarrow> JBool b,
       case value of None \<Rightarrow> JNull | Some v \<Rightarrow> JStr v]"

section \<open>Events\<close>

text \<open>
  Of the generator: a line came, the stream ended (with the exception of the read, if any), the
  consumer asked for the next message, the wait for an answer got one or expired, the consumer
  dropped the generator. Of the other threads: an answer, a cancellation, a close.
\<close>

datatype session_event =
    Line_read pystr | Stream_ended "exn option" | Next | Answer_taken bool | Wait_expired bool | Dropped
  | Answer_posted "bool option" "pystr option" | Cancel_posted bool | Close_called

definition read_line :: "py_texts \<Rightarrow> pystr \<Rightarrow> web_session \<Rightarrow> web_session" where
  "read_line py raw s =
     (if strip raw = [] then s
      else (case decode py (strip raw) of
          Inl e \<Rightarrow> (if is_protocol_error e then s else finish (Some e) s)
        | Inr m \<Rightarrow> s\<lparr>ws_phase := Yielded m, ws_shown := ws_shown s @ [m]\<rparr>))"

definition resume_after :: "message \<Rightarrow> web_session \<Rightarrow> web_session" where
  "resume_after m s =
     (if is_question m then s\<lparr>ws_phase := Awaiting m\<rparr>
      else if is_final m then finish None s
      else s\<lparr>ws_phase := Reading\<rparr>)"

definition take_answer :: "bool \<Rightarrow> web_session \<Rightarrow> web_session" where
  "take_answer wire_ok s =
     (case ws_answers s of
        [] \<Rightarrow> s
      | None # q \<Rightarrow> finish None (cancel_daemon wire_ok (s\<lparr>ws_answers := q\<rparr>))
      | Some r # q \<Rightarrow>
          (case write_message wire_ok r (s\<lparr>ws_answers := q\<rparr>) of
             (Some e, s') \<Rightarrow> finish (Some e) s'
           | (None, s') \<Rightarrow> s'\<lparr>ws_phase := Reading\<rparr>))"

definition wait_expired :: "bool \<Rightarrow> web_session \<Rightarrow> web_session" where
  "wait_expired wire_ok s = (if ws_answers s = [] then finish None (cancel_daemon wire_ok s) else s)"

definition put_answer :: "message option \<Rightarrow> web_session \<Rightarrow> web_session" where
  "put_answer r s = s\<lparr>ws_answers := ws_answers s @ [r], ws_given := ws_given s @ [r]\<rparr>"

definition answer :: "bool option \<Rightarrow> pystr option \<Rightarrow> web_session \<Rightarrow> web_session" where
  "answer confirmed value s = put_answer (Some (respond_msg (ws_qid s) confirmed value)) s"

definition cancel :: "bool \<Rightarrow> web_session \<Rightarrow> web_session" where
  "cancel wire_ok s = put_answer None (cancel_daemon wire_ok s)"

definition session_step :: "py_texts \<Rightarrow> web_session \<Rightarrow> session_event \<Rightarrow> web_session" where
  "session_step py s ev =
     (case ev of
        Line_read raw \<Rightarrow> (if ws_phase s = Reading then read_line py raw s else s)
      | Stream_ended e \<Rightarrow> (if ws_phase s = Reading then finish e s else s)
      | Next \<Rightarrow> (case ws_phase s of Yielded m \<Rightarrow> resume_after m s | _ \<Rightarrow> s)
      | Answer_taken wire_ok \<Rightarrow> (case ws_phase s of Awaiting m \<Rightarrow> take_answer wire_ok s | _ \<Rightarrow> s)
      | Wait_expired wire_ok \<Rightarrow> (case ws_phase s of Awaiting m \<Rightarrow> wait_expired wire_ok s | _ \<Rightarrow> s)
      | Dropped \<Rightarrow> (case ws_phase s of Yielded m \<Rightarrow> finish None s | _ \<Rightarrow> s)
      | Answer_posted confirmed value \<Rightarrow> answer confirmed value s
      | Cancel_posted wire_ok \<Rightarrow> cancel wire_ok s
      | Close_called \<Rightarrow> close_session s)"

section \<open>Frames\<close>

definition sse :: "(real \<Rightarrow> pystr) \<Rightarrow> pystr \<Rightarrow> (pystr \<times> json) list \<Rightarrow> pystr" where
  "sse frepr event payload =
     ''event: '' @ event @ [newline] @ ''data: '' @ dumps frepr (JObj payload) @ [newline, newline]"

text \<open>\<^verbatim>\<open>_to_sse\<close>: the name and the payload of a message's frame, and the frame, or nothing.\<close>

definition sse_parts :: "message \<Rightarrow> (pystr \<times> (pystr \<times> json) list) option" where
  "sse_parts m =
     (let f = get_field m
      in case msg_class m of
           Status \<Rightarrow> Some (''status'', [(''text'', f ''text'')])
         | Delta \<Rightarrow> Some (''delta'', [(''text'', f ''text'')])
         | Confirm \<Rightarrow> Some (''confirm'', [(''id'', f ''id''), (''text'', f ''text'')])
         | Input \<Rightarrow> Some (''input'', [(''id'', f ''id''), (''prompt'', f ''prompt'')])
         | Done \<Rightarrow> Some (''done'', [(''chain'', f ''chain''), (''model'', f ''model'')])
         | Error \<Rightarrow> Some (''failed'', [(''text'', f ''text'')])
         | _ \<Rightarrow> None)"

definition to_sse :: "(real \<Rightarrow> pystr) \<Rightarrow> message \<Rightarrow> pystr option" where
  "to_sse frepr m = map_option (\<lambda>(event, payload). sse frepr event payload) (sse_parts m)"

section \<open>The invariant of a session\<close>

definition responds :: "web_session \<Rightarrow> message list" where
  "responds s = filter (\<lambda>m. msg_class m = Respond) (ws_sent s)"

text \<open>A question was shown and its answer is still to be sent.\<close>

definition owed :: "web_session \<Rightarrow> nat" where
  "owed s = (case ws_phase s of Yielded m \<Rightarrow> if is_question m then 1 else 0 | Awaiting m \<Rightarrow> 1 | _ \<Rightarrow> 0)"

definition questions :: "web_session \<Rightarrow> nat" where
  "questions s = length (filter is_question (ws_shown s))"

fun finished :: "phase \<Rightarrow> bool" where
  "finished (Finished e) = True"
| "finished _ = False"

definition live :: "web_session \<Rightarrow> bool" where
  "live s \<longleftrightarrow> ws_open s \<and> \<not> ws_closed s \<and> \<not> finished (ws_phase s)"

definition own_answer :: "pystr \<Rightarrow> message option \<Rightarrow> bool" where
  "own_answer qid r \<longleftrightarrow> r = None \<or> (\<exists>confirmed value. r = Some (respond_msg qid confirmed value))"

text \<open>
  What was answered to the daemon is the beginning of what the browser gave, and while the
  session lives the rest is the queue; no question gets two answers; a finished session is closed;
  besides the query only cancellations and the browser's answers are sent.
\<close>

definition session_inv :: "query_spec \<Rightarrow> web_session \<Rightarrow> bool" where
  "session_inv q s \<longleftrightarrow>
     ws_qid s = qs_qid q \<and>
     (\<exists>rest. ws_given s = map Some (responds s) @ rest \<and> (live s \<longrightarrow> rest = ws_answers s)) \<and>
     list_all (own_answer (qs_qid q)) (ws_given s @ ws_answers s) \<and>
     length (responds s) + owed s \<le> questions s \<and>
     (finished (ws_phase s) \<longrightarrow> ws_closed s) \<and>
     (\<forall>m \<in> set (ws_sent s). m = query_msg q \<or> m = cancel_msg (qs_qid q) \<or> msg_class m = Respond)"

lemma message_classes [simp]:
  "msg_class (respond_msg qid c v) = Respond" "msg_class (cancel_msg qid) = Cancel" "msg_class (query_msg q) = Query"
  by (simp_all add: respond_msg_def cancel_msg_def query_msg_def mk_message_def)

lemmas session_defs = session_inv_def responds_def owed_def questions_def live_def

lemma inv_close [step_intros]: "session_inv q s \<Longrightarrow> session_inv q (close_session s)"
  by (auto simp: session_defs close_session_def)

lemma inv_finish [step_intros]: "session_inv q s \<Longrightarrow> session_inv q (finish e s)"
  by (auto simp: session_defs close_session_def finish_def)

lemma inv_cancel_daemon [step_intros]: "session_inv q s \<Longrightarrow> session_inv q (cancel_daemon ok s)"
  by (auto simp: session_defs cancel_daemon_def split: phase.splits)

lemma inv_put_answer [step_intros]:
  "session_inv q s \<Longrightarrow> own_answer (qs_qid q) r \<Longrightarrow> session_inv q (put_answer r s)"
  by (auto simp: session_defs put_answer_def split: phase.splits)

lemma inv_read_line [step_intros]: "session_inv q s \<Longrightarrow> ws_phase s = Reading \<Longrightarrow> session_inv q (read_line py raw s)"
  by (auto simp: read_line_def step_intros split: sum.splits) (auto simp: session_defs)

lemma inv_resume [step_intros]: "session_inv q s \<Longrightarrow> ws_phase s = Yielded m \<Longrightarrow> session_inv q (resume_after m s)"
  by (auto simp: resume_after_def step_intros) (auto simp: session_defs)

lemma inv_take_answer [step_intros]:
  assumes "session_inv q s" "ws_phase s = Awaiting m"
  shows "session_inv q (take_answer ok s)"
proof (cases "ws_answers s")
  case Nil
  with assms show ?thesis by (simp add: take_answer_def)
next
  case (Cons r rs)
  show ?thesis
  proof (cases r)
    case None
    have "session_inv q (finish None (s\<lparr>ws_answers := rs\<rparr>))"
      using assms Cons None by (auto simp: session_defs finish_def close_session_def)
    then show ?thesis
      using assms Cons None
      by (auto simp: session_defs take_answer_def finish_def close_session_def cancel_daemon_def)
  next
    case (Some a)
    then show ?thesis
      using assms Cons
      by (auto simp: session_defs take_answer_def write_message_def finish_def close_session_def own_answer_def)
  qed
qed

lemma inv_wait_expired [step_intros]: "session_inv q s \<Longrightarrow> session_inv q (wait_expired ok s)"
  by (simp add: wait_expired_def step_intros)

lemma inv_answer [step_intros]:
  assumes "session_inv q s"
  shows "session_inv q (answer c v s)"
proof -
  from assms have "ws_qid s = qs_qid q" by (simp add: session_inv_def)
  moreover have "own_answer (qs_qid q) (Some (respond_msg (qs_qid q) c v))" by (auto simp: own_answer_def)
  ultimately show ?thesis using inv_put_answer [OF assms] by (simp add: answer_def)
qed

lemma inv_cancel [step_intros]: "session_inv q s \<Longrightarrow> session_inv q (cancel ok s)"
  by (auto simp: cancel_def own_answer_def intro!: step_intros)

interpretation browser_session: event_machine "session_step py" "session_inv q" for py q
proof
  fix s e
  assume "session_inv q s"
  then show "session_inv q (session_step py s e)"
    by (cases e) (auto simp: session_step_def intro: step_intros split: phase.split)
qed

lemma session_inv_open:
  "session_inv q (snd (open_session py dialled hello ok q (new_web_session (qs_qid q))))"
  by (auto simp: open_session_def new_web_session_def write_message_def close_session_def session_defs Let_def
      split: sum.splits)

lemma closed_stays_silent: "ws_closed s \<Longrightarrow> ws_sent (session_step py s e) = ws_sent s"
  by (auto simp: session_step_def read_line_def finish_def close_session_def resume_after_def take_answer_def
      write_message_def cancel_daemon_def wait_expired_def answer_def cancel_def put_answer_def
      split: session_event.split phase.split list.split option.split sum.split)

section \<open>Properties\<close>


text \<open>
  An answer posted before its question was shown is kept and given to the next question: the
  second yes of a double click confirms whatever the daemon asks next.
\<close>

lemma early_answer_confirms:
  assumes "strip raw \<noteq> []" "decode py (strip raw) = Inr m" "is_question m"
    and "ws_phase s = Reading" "ws_answers s = []" "ws_open s" "\<not> ws_closed s"
  shows "ws_sent (foldl (session_step py) s
      [Answer_posted (Some True) None, Line_read raw, Next, Answer_taken True]) =
    ws_sent s @ [respond_msg (ws_qid s) (Some True) None]"
  using assms
  by (simp add: session_step_def answer_def put_answer_def read_line_def resume_after_def take_answer_def
      write_message_def)

text \<open>A cancelled question is never answered: the daemon is told to cancel and the stream ends.\<close>

lemma cancelled_question_unanswered:
  assumes "ws_phase s = Awaiting m" "ws_answers s = []"
  shows "let s' = foldl (session_step py) s [Cancel_posted ok1, Answer_taken ok2]
    in ws_phase s' = Finished None \<and> ws_closed s' \<and> responds s' = responds s"
  using assms
  by (simp add: session_step_def cancel_def put_answer_def take_answer_def cancel_daemon_def finish_def
      close_session_def responds_def Let_def)

lemma dumps_str_printable: "c \<in> set (dumps_str s) \<Longrightarrow> 32 \<le> code c"
  using escape_char_ascii by (auto simp: dumps_str_def quote_def code_def)

lemma show_int_printable: "c \<in> set (show_int i) \<Longrightarrow> 32 \<le> code c"
  using show_nat_digits [of "nat i"] show_nat_digits [of "nat (- i)"]
  by (auto simp: show_int_def list_all_iff is_digit_def code_def split: if_splits)

lemma join_printable:
  "c \<in> set (join '', '' xs) \<Longrightarrow> (\<And>x. x \<in> set xs \<Longrightarrow> \<forall>c \<in> set x. 32 \<le> code c) \<Longrightarrow> 32 \<le> code c"
  using set_join [of "'', ''" xs] by (force simp: code_def)

lemma dumps_printable: "plain j \<Longrightarrow> \<forall>c \<in> set (dumps frepr j). 32 \<le> code c"
proof (induction j)
  case (JArr xs)
  then have "\<forall>c \<in> set x. 32 \<le> code c" if "x \<in> set (map (dumps frepr) xs)" for x
    using that by (auto simp: list_all_iff)
  then have "\<forall>c \<in> set (join '', '' (map (dumps frepr) xs)). 32 \<le> code c" using join_printable by blast
  then show ?case by (simp add: code_def)
next
  case (JObj kvs)
  let ?member = "\<lambda>(k, v). dumps_str k @ '': '' @ dumps frepr v"
  have "\<forall>c \<in> set x. 32 \<le> code c" if "x \<in> set (map ?member kvs)" for x
  proof -
    from that obtain k v where kv: "(k, v) \<in> set kvs" "x = dumps_str k @ '': '' @ dumps frepr v" by auto
    with JObj have "\<forall>c \<in> set (dumps frepr v). 32 \<le> code c" by (fastforce simp: list_all_iff)
    with kv(2) show ?thesis using dumps_str_printable by (auto simp: code_def)
  qed
  then have "\<forall>c \<in> set (join '', '' (map ?member kvs)). 32 \<le> code c" using join_printable by blast
  then show ?case by (simp add: code_def)
next
  case (JStr s)
  then show ?case using dumps_str_printable by simp
next
  case (JInt i)
  then show ?case using show_int_printable by simp
qed (simp_all add: code_def)

lemma sse_parts_fields:
  "sse_parts m = Some (ev, kvs) \<Longrightarrow> ev \<in> {''status'', ''delta'', ''confirm'', ''input'', ''done'', ''failed''} \<and>
     distinct (map fst kvs) \<and> list_all (\<lambda>(k, v). v = get_field m k) kvs"
  by (cases "msg_class m") (auto simp: sse_parts_def Let_def)



end
