(* ===== verification/Web_Client.thy ===== *)
theory Web_Client
  imports Web_Session
begin

text \<open>
  \<^verbatim>\<open>web/dclient.py\<close> and \<^verbatim>\<open>web/page.py\<close>: the one-shot requests of the web view to the daemon, each
  over a socket of its own, and the packaged files.
\<close>

section \<open>The socket\<close>

text \<open>
  Connecting, reading the hello line and sending are calls that may raise; then come the lines
  the daemon sends until the stream ends, with the exception of the last read, if any. The
  remaining calls serve the streaming sessions: whether a write of another thread succeeds, and
  a fresh identifier.
\<close>

record 'w web_net =
  wn_connect :: "('w, unit) act"
  wn_hello :: "('w, pystr) act"
  wn_send :: "pystr \<Rightarrow> ('w, unit) act"
  wn_lines :: "'w \<Rightarrow> (pystr list \<times> exn option) \<times> 'w"
  wn_wire_ok :: "'w \<Rightarrow> bool \<times> 'w"
  wn_fresh :: "'w \<Rightarrow> pystr \<times> 'w"
  wn_float :: "real \<Rightarrow> pystr"

section \<open>One request\<close>

text \<open>\<^verbatim>\<open>"".join(deltas)\<close>: every piece has to be a text.\<close>

fun join_texts :: "json list \<Rightarrow> exn + pystr" where
  "join_texts [] = Inr []"
| "join_texts (JStr s # js) = (case join_texts js of Inl e \<Rightarrow> Inl e | Inr t \<Rightarrow> Inr (s @ t))"
| "join_texts (j # js) = Inl (Foreign ''TypeError'' (''sequence item: expected str instance, '' @ type_name j @ '' found''))"

text \<open>The loop over the lines: junk is skipped, a terminal message ends it.\<close>

fun scan_reply ::
  "py_texts \<Rightarrow> wire_class list \<Rightarrow> bool \<Rightarrow> json list \<Rightarrow> pystr list \<Rightarrow> exn option \<Rightarrow> exn + message option \<times> json list" where
  "scan_reply py terminal collect deltas [] fin =
     (case fin of Some e \<Rightarrow> Inl e | None \<Rightarrow> Inr (None, deltas))"
| "scan_reply py terminal collect deltas (raw # raws) fin =
     (if strip raw = [] then scan_reply py terminal collect deltas raws fin
      else (case decode py (strip raw) of
          Inl e \<Rightarrow> (if is_protocol_error e then scan_reply py terminal collect deltas raws fin else Inl e)
        | Inr m \<Rightarrow>
            (let deltas = (if collect \<and> msg_class m = Delta then deltas @ [get_field m ''text''] else deltas)
             in if msg_class m \<in> set terminal then Inr (Some m, deltas)
                else scan_reply py terminal collect deltas raws fin)))"

definition exchange ::
  "'w web_net \<Rightarrow> py_texts \<Rightarrow> json \<Rightarrow> wire_class list \<Rightarrow> bool \<Rightarrow> ('w, message option \<times> json list) act" where
  "exchange net py req terminal collect =
     andthen (wn_connect net) (\<lambda>_.
     andthen (wn_hello net) (\<lambda>line.
       case negotiate py line of
         Inl e \<Rightarrow> raise e
       | Inr hello \<Rightarrow>
           andthen (wn_send net (dumps (wn_float net) req @ [newline])) (\<lambda>_ w.
             let ((raws, fin), w') = wn_lines net w
             in (scan_reply py terminal collect [] raws fin, w'))))"

text \<open>\<^verbatim>\<open>_roundtrip\<close>: a transport or protocol error is an absent reply.\<close>

definition roundtrip ::
  "'w web_net \<Rightarrow> py_texts \<Rightarrow> json \<Rightarrow> wire_class list \<Rightarrow> bool \<Rightarrow> ('w, message option \<times> pystr) act" where
  "roundtrip net py req terminal collect w =
     (case exchange net py req terminal collect w of
        (Inl e, w') \<Rightarrow> (if is_os_error e \<or> is_protocol_error e then Inr (None, []) else Inl e, w')
      | (Inr (result, deltas), w') \<Rightarrow> (map_sum id (Pair result) (join_texts deltas), w'))"

definition request_json :: "pystr \<Rightarrow> pystr \<Rightarrow> (pystr \<times> json) list \<Rightarrow> json" where
  "request_json kind rid args = JObj ((''type'', JStr kind) # (''id'', JStr rid) # args)"

text \<open>A request whose reply is one message of a class, read off in one of its fields.\<close>

definition fetch ::
  "'w web_net \<Rightarrow> py_texts \<Rightarrow> pystr \<Rightarrow> (pystr \<times> json) list \<Rightarrow> wire_class \<Rightarrow> ('w, message option) act" where
  "fetch net py kind args cls w =
     (let (rid, w) = wn_fresh net w
      in andthen (roundtrip net py (request_json kind rid args) [cls] False) (\<lambda>(msg, _).
           ret (case msg of Some m \<Rightarrow> if msg_class m = cls then Some m else None | None \<Rightarrow> None)) w)"

definition list_failures :: "'w web_net \<Rightarrow> py_texts \<Rightarrow> ('w, json option) act" where
  "list_failures net py =
     andthen (fetch net py ''list_failures'' [] Failures) (\<lambda>m. ret (map_option (\<lambda>m. get_field m ''units'') m))"

definition journal :: "'w web_net \<Rightarrow> py_texts \<Rightarrow> pystr \<Rightarrow> pystr \<Rightarrow> ('w, json option) act" where
  "journal net py unit scope =
     andthen (fetch net py ''unit_journal'' [(''unit'', JStr unit), (''scope'', JStr scope)] Journal)
       (\<lambda>m. ret (map_option (\<lambda>m. get_field m ''text'') m))"

definition timeline :: "'w web_net \<Rightarrow> py_texts \<Rightarrow> int \<Rightarrow> pystr option \<Rightarrow> int option \<Rightarrow> ('w, json \<times> json) act" where
  "timeline net py limit unit before_id =
     andthen (fetch net py ''get_timeline''
         ((''limit'', JInt limit) # (if the_default [] unit \<noteq> [] then [(''unit'', JStr (the_default [] unit))] else [])
          @ (case before_id of Some b \<Rightarrow> [(''before_id'', JInt b)] | None \<Rightarrow> [])) Timeline)
       (\<lambda>m. ret (case m of Some m \<Rightarrow> (get_field m ''events'', get_field m ''next_cursor'') | None \<Rightarrow> (JArr [], JNull)))"

definition ledger :: "'w web_net \<Rightarrow> py_texts \<Rightarrow> ('w, json option) act" where
  "ledger net py =
     andthen (fetch net py ''get_ledger'' [] Ledger) (\<lambda>m. ret (map_option (\<lambda>m. get_field m ''data'') m))"

definition health :: "'w web_net \<Rightarrow> py_texts \<Rightarrow> ('w, json option) act" where
  "health net py =
     andthen (fetch net py ''get_health'' [] Health) (\<lambda>m. ret (map_option (\<lambda>m. get_field m ''data'') m))"

text \<open>\<^verbatim>\<open>restart\<close> and \<^verbatim>\<open>explain\<close>: the text and whether it went well.\<close>

definition unit_action :: "'w web_net \<Rightarrow> py_texts \<Rightarrow> pystr \<Rightarrow> pystr \<Rightarrow> unit_spec \<Rightarrow> ('w, json \<times> bool) act" where
  "unit_action net py kind nothing u w =
     (let (rid, w) = wn_fresh net w
      in andthen (roundtrip net py
             (request_json kind rid [(''unit'', JStr (us_unit u)), (''scope'', JStr (us_scope u))]) [Done, Error] True)
           (\<lambda>(msg, deltas). ret (case msg of
               None \<Rightarrow> (JStr ''daemon unreachable'', False)
             | Some m \<Rightarrow> (if msg_class m = Error then (get_field m ''text'', False)
                         else if msg_class m = Done then (JStr (or_else deltas nothing), True)
                         else (JStr ''daemon unreachable'', False)))) w)"

definition restart :: "'w web_net \<Rightarrow> py_texts \<Rightarrow> unit_spec \<Rightarrow> ('w, json \<times> bool) act" where
  "restart net py = unit_action net py ''restart_unit'' ''done''"

definition explain :: "'w web_net \<Rightarrow> py_texts \<Rightarrow> unit_spec \<Rightarrow> ('w, json \<times> bool) act" where
  "explain net py = unit_action net py ''explain_unit'' ''(no explanation available)''"

section \<open>Packaged files\<close>

fun replace_all :: "pystr \<Rightarrow> pystr \<Rightarrow> nat \<Rightarrow> pystr \<Rightarrow> pystr" where
  "replace_all old new 0 s = s"
| "replace_all old new (Suc n) [] = []"
| "replace_all old new (Suc n) (c # cs) =
     (if startswith old (c # cs) then new @ replace_all old new n (drop (length old) (c # cs))
      else c # replace_all old new n cs)"

text \<open>\<^verbatim>\<open>render\<close> on the text of \<^verbatim>\<open>page.html\<close>; the fuel is the length of the text.\<close>

definition render :: "pystr \<Rightarrow> pystr \<Rightarrow> pystr" where
  "render html token = replace_all ''__NIXADMIN_TOKEN__'' token (length html) html"

definition content_type :: "pystr \<Rightarrow> pystr option" where
  "content_type name =
     (if endswith ''.css'' name then Some ''text/css; charset=utf-8''
      else if endswith ''.js'' name then Some ''text/javascript; charset=utf-8'' else None)"

text \<open>\<open>file\<close> gives the contents of a regular file of the package directory.\<close>

definition asset :: "(pystr \<Rightarrow> pystr option) \<Rightarrow> pystr \<Rightarrow> (pystr \<times> pystr) option" where
  "asset file name =
     (if CHR ''/'' \<in> set name \<or> backslash \<in> set name \<or> startswith ''.'' name then None
      else (case (content_type name, file name) of
          (Some ctype, Some body) \<Rightarrow> Some (ctype, body)
        | _ \<Rightarrow> None))"

section \<open>Properties\<close>

lemma scan_reply_terminal:
  "scan_reply py terminal collect ds raws fin = Inr (Some m, ds') \<Longrightarrow> msg_class m \<in> set terminal"
  by (induction py terminal collect ds raws fin rule: scan_reply.induct)
    (auto simp: Let_def split: if_splits sum.splits option.splits)

lemma exchange_terminal:
  "exchange net py req terminal collect w = (Inr (Some m, ds), w') \<Longrightarrow> msg_class m \<in> set terminal"
  by (auto simp: exchange_def andthen_def raise_def scan_reply_terminal split: prod.splits sum.splits)

lemma join_texts_error: "join_texts js = Inl e \<Longrightarrow> \<exists>t. e = Foreign ''TypeError'' t"
  by (induction js rule: join_texts.induct) (auto split: sum.splits)

text \<open>
   A unit action is reported as successful only when the daemon's answer ended with a \<^verbatim>\<open>Done\<close>.
  Whatever goes wrong on the socket or in the daemon's lines is reported as a failure or raised.
\<close>

theorem unit_action_honest:
  "case unit_action net py kind nothing u w of
     (Inr (text, success), w') \<Rightarrow>
       (let (rid, w1) = wn_fresh net w;
            req = request_json kind rid [(''unit'', JStr (us_unit u)), (''scope'', JStr (us_scope u))]
        in case exchange net py req [Done, Error] True w1 of
             (Inr (Some m, deltas), _) \<Rightarrow>
               (success \<longleftrightarrow> msg_class m = Done) \<and>
               (if success then Inr text = map_sum id (\<lambda>t. JStr (or_else t nothing)) (join_texts deltas)
                else text = get_field m ''text'')
           | _ \<Rightarrow> \<not> success \<and> text = JStr ''daemon unreachable'')
   | (Inl e, w') \<Rightarrow> \<not> (is_os_error e \<or> is_protocol_error e)"
proof -
  obtain rid w1 where f: "wn_fresh net w = (rid, w1)" by fastforce
  let ?x = "exchange net py (request_json kind rid [(''unit'', JStr (us_unit u)), (''scope'', JStr (us_scope u))])
    [Done, Error] True w1"
  show ?thesis
  proof (cases ?x)
    case (Pair r w2)
    show ?thesis
    proof (cases r)
      case (Inl e)
      with Pair f show ?thesis by (simp add: unit_action_def andthen_def roundtrip_def ret_def)
    next
      case (Inr md)
      obtain m ds where md: "md = (m, ds)" by fastforce
      show ?thesis
      proof (cases "join_texts ds")
        case (Inl e)
        have "\<not> (is_os_error e \<or> is_protocol_error e)" using join_texts_error [OF Inl] by (auto simp: is_os_error_def)
        with Pair f Inr md Inl show ?thesis by (simp add: unit_action_def andthen_def roundtrip_def)
      next
        case join: (Inr t)
        show ?thesis
        proof (cases m)
          case None
          with Pair f Inr md join show ?thesis by (simp add: unit_action_def andthen_def roundtrip_def ret_def)
        next
          case (Some msg)
          from exchange_terminal [of net py _ "[Done, Error]" True w1] Pair Inr md Some
          have "msg_class msg = Done \<or> msg_class msg = Error" by fastforce
          with Pair f Inr md join Some show ?thesis
            by (auto simp: unit_action_def andthen_def roundtrip_def ret_def)
        qed
      qed
    qed
  qed
qed

end
