(* ===== verification/Web_Server.thy ===== *)
theory Web_Server
  imports Web_Client
begin

text \<open>
  \<^verbatim>\<open>web/server.py\<close>: the loopback HTTP server. Requests are served by threads; what they share is
  the table of streaming sessions, under a lock. A request other than a stream is one step; a
  stream is its opening, then one step per event of its session. A run of the server is the
  list of these steps in the order they happen.
\<close>

definition MAX_ACTIVE_SESSIONS :: nat where "MAX_ACTIVE_SESSIONS = 16"
definition MAX_HTTP_THREADS :: nat where "MAX_HTTP_THREADS = 32"

section \<open>Requests and replies\<close>

text \<open>
  A request with its path, its query string as \<^verbatim>\<open>parse_qs\<close> gives it, the headers the server
  reads and its body (the text of the first bytes of it, \<open>None\<close> if they are no text).
\<close>

record http_request =
  rq_path :: pystr
  rq_query :: "(pystr \<times> pystr list) list"
  rq_host :: "pystr option"
  rq_origin :: "pystr option"
  rq_token :: "pystr option"
  rq_length :: "pystr option"
  rq_body :: "int \<Rightarrow> pystr option"

datatype reply = Page int pystr pystr | Json int json | Event_stream pystr | Frame pystr pystr

record 'w web_config =
  wc_net :: "'w web_net"
  wc_texts :: py_texts
  wc_port :: int
  wc_token :: pystr
  wc_html :: pystr
  wc_file :: "pystr \<Rightarrow> pystr option"

text \<open>
  The sessions in the order they were registered. \<open>wb_ended\<close> keeps those that are over, \<open>wb_replies\<close>
  what was written to the browser.
\<close>

record 'w web =
  wb_world :: 'w
  wb_sessions :: "(pystr \<times> web_session) list"
  wb_replies :: "reply list"
  wb_ended :: "web_session list"

definition reply :: "reply \<Rightarrow> ('w web, unit) act" where
  "reply r w = (Inr (), w\<lparr>wb_replies := wb_replies w @ [r]\<rparr>)"

definition error_reply :: "int \<Rightarrow> pystr \<Rightarrow> reply" where
  "error_reply status msg = Json status (JObj [(''error'', JStr msg)])"

definition in_world :: "('w, 'a) act \<Rightarrow> ('w web, 'a) act" where
  "in_world m w = (case m (wb_world w) of (r, v) \<Rightarrow> (r, w\<lparr>wb_world := v\<rparr>))"

section \<open>The guard\<close>

definition request_token :: "http_request \<Rightarrow> pystr option" where
  "request_token rq =
     (if the_default [] (rq_token rq) \<noteq> [] then rq_token rq
      else (case map_of (rq_query rq) ''token'' of Some (v # vs) \<Rightarrow> Some v | _ \<Rightarrow> None))"

text \<open>\<open>Some r\<close>: the request is refused with the reply \<open>r\<close>.\<close>

definition guard :: "'w web_config \<Rightarrow> http_request \<Rightarrow> bool \<Rightarrow> exn + reply option" where
  "guard cfg rq mutation =
     (if \<not> host_ok (rq_host rq) (wc_port cfg) then Inr (Some (error_reply 403 ''bad host''))
      else if \<not> origin_ok (rq_origin rq) (wc_port cfg) mutation then Inr (Some (error_reply 403 ''bad origin''))
      else (case token_ok (request_token rq) (wc_token cfg) of
          Inl e \<Rightarrow> Inl e
        | Inr True \<Rightarrow> Inr None
        | Inr False \<Rightarrow> Inr (Some (error_reply 401 ''unauthorized''))))"

definition guarded :: "'w web_config \<Rightarrow> http_request \<Rightarrow> bool \<Rightarrow> ('w web, unit) act \<Rightarrow> ('w web, unit) act" where
  "guarded cfg rq mutation handler =
     (case guard cfg rq mutation of Inl e \<Rightarrow> raise e | Inr (Some r) \<Rightarrow> reply r | Inr None \<Rightarrow> handler)"

section \<open>The table of sessions\<close>

datatype registration = Ok | Duplicate | Full

definition register_session :: "web_session \<Rightarrow> 'w web \<Rightarrow> registration \<times> 'w web" where
  "register_session s w =
     (if ws_qid s \<in> fst ` set (wb_sessions w) then (Duplicate, w)
      else if MAX_ACTIVE_SESSIONS \<le> length (wb_sessions w) then (Full, w)
      else (Ok, w\<lparr>wb_sessions := wb_sessions w @ [(ws_qid s, s)]\<rparr>))"

definition get_session :: "pystr \<Rightarrow> 'w web \<Rightarrow> web_session option" where
  "get_session qid w = map_of (wb_sessions w) qid"

definition update_session :: "pystr \<Rightarrow> web_session \<Rightarrow> 'w web \<Rightarrow> 'w web" where
  "update_session qid s w = w\<lparr>wb_sessions := map (\<lambda>(k, v). (k, if k = qid then s else v)) (wb_sessions w)\<rparr>"

text \<open>The end of a stream: drop the session from the table and close it.\<close>

definition end_session :: "pystr \<Rightarrow> web_session \<Rightarrow> 'w web \<Rightarrow> 'w web" where
  "end_session qid s w =
     w\<lparr>wb_sessions := filter (\<lambda>(k, v). k \<noteq> qid) (wb_sessions w), wb_ended := wb_ended w @ [close_session s]\<rparr>"

section \<open>Reading requests\<close>

definition get_state :: "'w web_config \<Rightarrow> ('w web, unit) act" where
  "get_state cfg =
     andthen (in_world (list_failures (wc_net cfg) (wc_texts cfg))) (\<lambda>units.
       reply (Json 200 (JObj [(''connected'', JBool (units \<noteq> None)),
         (''units'', case units of Some u \<Rightarrow> if truthy u then u else JArr [] | None \<Rightarrow> JArr [])])))"

definition get_journal :: "'w web_config \<Rightarrow> http_request \<Rightarrow> ('w web, unit) act" where
  "get_journal cfg rq =
     andthen (in_world (journal (wc_net cfg) (wc_texts cfg) (first_value [] (rq_query rq) ''unit'')
         (first_value ''system'' (rq_query rq) ''scope''))) (\<lambda>t.
       reply (Json 200 (JObj [(''text'', case t of Some j \<Rightarrow> if truthy j then j else JStr [] | None \<Rightarrow> JStr [])])))"

definition get_timeline :: "'w web_config \<Rightarrow> http_request \<Rightarrow> ('w web, unit) act" where
  "get_timeline cfg rq =
     (let unit = first_value [] (rq_query rq) ''unit'';
          limit = the_default 10 (py_int (first_value ''10'' (rq_query rq) ''limit''));
          before_id = py_int (first_value [] (rq_query rq) ''before'')
      in andthen (in_world (timeline (wc_net cfg) (wc_texts cfg) limit (if unit \<noteq> [] then Some unit else None) before_id))
           (\<lambda>(events, next_cursor). reply (Json 200 (JObj [(''events'', events), (''next_cursor'', next_cursor)]))))"

definition get_ledger :: "'w web_config \<Rightarrow> ('w web, unit) act" where
  "get_ledger cfg =
     andthen (in_world (ledger (wc_net cfg) (wc_texts cfg))) (\<lambda>l.
       reply (Json 200 (JObj [(''ledger'', the_default JNull l)])))"

definition get_health :: "'w web_config \<Rightarrow> ('w web, unit) act" where
  "get_health cfg =
     andthen (in_world (health (wc_net cfg) (wc_texts cfg))) (\<lambda>h.
       reply (Json (if h \<noteq> None then 200 else 503) (JObj [(''health'', the_default JNull h)])))"

definition get_asset :: "'w web_config \<Rightarrow> http_request \<Rightarrow> ('w web, unit) act" where
  "get_asset cfg rq =
     (if \<not> host_ok (rq_host rq) (wc_port cfg) then reply (error_reply 403 ''bad host'')
      else (case asset (wc_file cfg) (drop (length ''/assets/'') (rq_path rq)) of
          None \<Rightarrow> reply (error_reply 404 ''not found'')
        | Some (ctype, body) \<Rightarrow> reply (Page 200 ctype body)))"

section \<open>Streams\<close>

text \<open>\<^verbatim>\<open>session.open()\<close> over the socket: connect, hello line, the query.\<close>

definition open_over :: "'w web_config \<Rightarrow> query_spec \<Rightarrow> 'w \<Rightarrow> (exn option \<times> web_session) \<times> 'w" where
  "open_over cfg q w =
     (let net = wc_net cfg; s = new_web_session (qs_qid q); py = wc_texts cfg
      in case wn_connect net w of
           (Inl e, w1) \<Rightarrow> (open_session py (Inl e) (Inr []) True q s, w1)
         | (Inr _, w1) \<Rightarrow>
             (case wn_hello net w1 of
                (Inl e, w2) \<Rightarrow> (open_session py (Inr ()) (Inl e) True q s, w2)
              | (Inr line, w2) \<Rightarrow>
                  (case negotiate py line of
                     Inl e \<Rightarrow> (open_session py (Inr ()) (Inr line) True q s, w2)
                   | Inr _ \<Rightarrow>
                       (case wn_send net (encode (wn_float net) (query_msg q)) w2 of
                          (sent, w3) \<Rightarrow> (open_session py (Inr ()) (Inr line) (sent = Inr ()) q s, w3)))))"

text \<open>\<^verbatim>\<open>_stream\<close> up to its headers. Only an \<^verbatim>\<open>OSError\<close> of the opening is answered.\<close>

definition open_stream :: "'w web_config \<Rightarrow> http_request \<Rightarrow> ('w web, unit) act" where
  "open_stream cfg rq w =
     (let (fresh, v) = wn_fresh (wc_net cfg) (wb_world w); w = w\<lparr>wb_world := v\<rparr>
      in case from_query fresh (rq_query rq) of
           Inl e \<Rightarrow> reply (Json (hr_status (error_result e)) (hr_payload (error_result e))) w
         | Inr q \<Rightarrow>
             (let ((e, s), v) = open_over cfg q (wb_world w); w = w\<lparr>wb_world := v\<rparr>
              in case e of
                   Some x \<Rightarrow>
                     (if is_os_error x then reply (error_reply 503 ''daemon unreachable'') w else raise x w)
                 | None \<Rightarrow>
                     (case register_session s w of
                        (Ok, w) \<Rightarrow> reply (Event_stream (qs_qid q)) w
                      | (Duplicate, w) \<Rightarrow>
                          reply (error_reply 409 ''query already exists'') (w\<lparr>wb_ended := wb_ended w @ [close_session s]\<rparr>)
                      | (Full, w) \<Rightarrow>
                          reply (error_reply 503 ''busy'') (w\<lparr>wb_ended := wb_ended w @ [close_session s]\<rparr>))))"

definition do_GET :: "'w web_config \<Rightarrow> http_request \<Rightarrow> ('w web, unit) act" where
  "do_GET cfg rq =
     (let path = rq_path rq
      in if path = ''/'' then
           guarded cfg rq False (reply (Page 200 ''text/html; charset=utf-8'' (render (wc_html cfg) (wc_token cfg))))
         else if startswith ''/assets/'' path then get_asset cfg rq
         else if path = ''/api/state'' then guarded cfg rq False (get_state cfg)
         else if path = ''/api/journal'' then guarded cfg rq False (get_journal cfg rq)
         else if path = ''/api/timeline'' then guarded cfg rq False (get_timeline cfg rq)
         else if path = ''/api/ledger'' then guarded cfg rq False (get_ledger cfg)
         else if path = ''/api/health'' then guarded cfg rq False (get_health cfg)
         else if path = ''/api/stream'' then guarded cfg rq False (open_stream cfg rq)
         else reply (error_reply 404 ''not found''))"

section \<open>Changing requests\<close>

definition read_body :: "http_request \<Rightarrow> request_error + (pystr \<times> json) list" where
  "read_body rq =
     (case content_length (rq_length rq) of
        Inl e \<Rightarrow> Inl e
      | Inr n \<Rightarrow> json_object (if 0 < n then rq_body rq n else Some ''{}''))"

text \<open>\<^verbatim>\<open>bool(x) if x is not None else None\<close> and the same with \<^verbatim>\<open>str\<close>.\<close>

definition given :: "(json \<Rightarrow> 'a) \<Rightarrow> json option \<Rightarrow> 'a option" where
  "given f x = (case x of None \<Rightarrow> None | Some JNull \<Rightarrow> None | Some j \<Rightarrow> Some (f j))"

definition invoke_control :: "'w web_config \<Rightarrow> pystr \<Rightarrow> (pystr \<times> json) list \<Rightarrow> ('w web, unit) act" where
  "invoke_control cfg path body w =
     (let qid = py_str (wc_texts cfg) (the_default (JStr []) (map_of body ''qid''))
      in case get_session qid w of
           None \<Rightarrow> reply (error_reply 404 ''no such query'') w
         | Some s \<Rightarrow>
             (if path = ''/api/cancel'' then
                (let (wire_ok, v) = wn_wire_ok (wc_net cfg) (wb_world w)
                 in reply (Json 200 (JObj [(''ok'', JBool True)])) (update_session qid (cancel wire_ok s) (w\<lparr>wb_world := v\<rparr>)))
              else reply (Json 200 (JObj [(''ok'', JBool True)]))
                (update_session qid (answer (given truthy (map_of body ''confirmed''))
                   (given (py_str (wc_texts cfg)) (map_of body ''value'')) s) w)))"

definition post_unit :: "'w web_config \<Rightarrow> pystr \<Rightarrow> (pystr \<times> json) list \<Rightarrow> ('w web, unit) act" where
  "post_unit cfg path body =
     (case from_body (wc_texts cfg) body of
        Inl e \<Rightarrow> reply (Json (hr_status (error_result e)) (hr_payload (error_result e)))
      | Inr u \<Rightarrow>
          (if path = ''/api/restart''
           then andthen (in_world (restart (wc_net cfg) (wc_texts cfg) u)) (\<lambda>(result, success).
                  reply (Json 200 (JObj [(''result'', result), (''ok'', JBool success)])))
           else andthen (in_world (explain (wc_net cfg) (wc_texts cfg) u)) (\<lambda>(t, success).
                  reply (Json 200 (JObj [(''text'', t), (''ok'', JBool success)])))))"

definition POST_ROUTES :: "pystr list" where
  "POST_ROUTES = [''/api/restart'', ''/api/explain'', ''/api/respond'', ''/api/cancel'']"

definition do_POST :: "'w web_config \<Rightarrow> http_request \<Rightarrow> ('w web, unit) act" where
  "do_POST cfg rq =
     (if rq_path rq \<notin> set POST_ROUTES then reply (error_reply 404 ''not found'')
      else guarded cfg rq True
        (case read_body rq of
           Inl e \<Rightarrow> reply (Json (hr_status (error_result e)) (hr_payload (error_result e)))
         | Inr body \<Rightarrow>
             (if rq_path rq \<in> set [''/api/respond'', ''/api/cancel''] then invoke_control cfg (rq_path rq) body
              else post_unit cfg (rq_path rq) body)))"

section \<open>Running streams and the server\<close>

definition generator_event :: "session_event \<Rightarrow> bool" where
  "generator_event ev = (case ev of Line_read l \<Rightarrow> True | Stream_ended e \<Rightarrow> True | Next \<Rightarrow> True
     | Answer_taken b \<Rightarrow> True | Wait_expired b \<Rightarrow> True | _ \<Rightarrow> False)"

text \<open>
  One event of a stream's generator. A message it yields is written as a frame; when the browser
  is gone (\<open>written\<close> is false) the session is cancelled and ends.
\<close>

definition stream_step :: "'w web_config \<Rightarrow> pystr \<Rightarrow> session_event \<Rightarrow> bool \<Rightarrow> bool \<Rightarrow> 'w web \<Rightarrow> 'w web" where
  "stream_step cfg qid ev written wire_ok w =
     (case get_session qid w of
        None \<Rightarrow> w
      | Some s \<Rightarrow>
          (if \<not> generator_event ev then w
           else (let s' = session_step (wc_texts cfg) s ev
                 in if finished (ws_phase s') then end_session qid s' w
                    else if ws_shown s' = ws_shown s then update_session qid s' w
                    else (case to_sse (wn_float (wc_net cfg)) (last (ws_shown s')) of
                        None \<Rightarrow> update_session qid s' w
                      | Some f \<Rightarrow>
                          (if written then snd (reply (Frame qid f) (update_session qid s' w))
                           else end_session qid (cancel wire_ok s') w)))))"

definition server_close :: "(pystr \<Rightarrow> bool) \<Rightarrow> 'w web \<Rightarrow> 'w web" where
  "server_close wire_ok w =
     w\<lparr>wb_sessions := [],
       wb_ended := wb_ended w @ map (\<lambda>(k, s). close_session (cancel (wire_ok k) s)) (wb_sessions w)\<rparr>"

datatype web_event =
    Get_request http_request | Post_request http_request
  | Stream_event pystr session_event bool bool | Server_closed "pystr \<Rightarrow> bool"

definition web_step :: "'w web_config \<Rightarrow> 'w web \<Rightarrow> web_event \<Rightarrow> 'w web" where
  "web_step cfg w ev =
     (case ev of
        Get_request rq \<Rightarrow> snd (do_GET cfg rq w)
      | Post_request rq \<Rightarrow> snd (do_POST cfg rq w)
      | Stream_event qid e written wire_ok \<Rightarrow> stream_step cfg qid e written wire_ok w
      | Server_closed wire_ok \<Rightarrow> server_close wire_ok w)"

definition new_web :: "'w \<Rightarrow> 'w web" where
  "new_web v = \<lparr>wb_world = v, wb_sessions = [], wb_replies = [], wb_ended = []\<rparr>"

text \<open>
  The handler threads: \<^verbatim>\<open>process_request\<close> takes a slot or answers 503 at once; the thread gives it
  back when it ends.
\<close>

record slots =
  sl_free :: nat
  sl_running :: nat
  sl_refused :: nat

definition all_slots :: slots where
  "all_slots = \<lparr>sl_free = MAX_HTTP_THREADS, sl_running = 0, sl_refused = 0\<rparr>"

definition process_request :: "slots \<Rightarrow> slots" where
  "process_request s =
     (if sl_free s = 0 then s\<lparr>sl_refused := sl_refused s + 1\<rparr>
      else s\<lparr>sl_free := sl_free s - 1, sl_running := sl_running s + 1\<rparr>)"

definition thread_ended :: "slots \<Rightarrow> slots" where
  "thread_ended s =
     (if sl_running s = 0 then s else s\<lparr>sl_free := sl_free s + 1, sl_running := sl_running s - 1\<rparr>)"

definition slot_step :: "slots \<Rightarrow> bool \<Rightarrow> slots" where
  "slot_step s arrives = (if arrives then process_request s else thread_ended s)"

interpretation http_slots: event_machine slot_step "\<lambda>s. sl_free s + sl_running s = MAX_HTTP_THREADS"
  by unfold_locales (auto simp: slot_step_def process_request_def thread_ended_def)

section \<open>What a refused request can do\<close>

definition untouched :: "'w web \<Rightarrow> 'w web \<Rightarrow> bool" where
  "untouched w w' \<longleftrightarrow> wb_world w' = wb_world w \<and> wb_sessions w' = wb_sessions w \<and> wb_ended w' = wb_ended w"

lemma untouched_reply [simp]: "untouched w (snd (reply r w))"
  by (simp add: untouched_def reply_def)

definition passes :: "'w web_config \<Rightarrow> http_request \<Rightarrow> bool \<Rightarrow> bool" where
  "passes cfg rq mutation \<longleftrightarrow> host_ok (rq_host rq) (wc_port cfg) \<and> origin_ok (rq_origin rq) (wc_port cfg) mutation \<and>
     token_ok (request_token rq) (wc_token cfg) = Inr True"

lemma guard_passes: "guard cfg rq mutation = Inr None \<longleftrightarrow> passes cfg rq mutation"
  by (auto simp: guard_def passes_def split: sum.splits bool.splits)

lemma guarded_untouched:
  assumes "\<not> passes cfg rq mutation"
  shows "untouched w (snd (guarded cfg rq mutation handler w))"
proof (cases "guard cfg rq mutation")
  case (Inl e)
  then show ?thesis by (simp add: guarded_def raise_def untouched_def)
next
  case (Inr r)
  with assms obtain p where "r = Some p" using guard_passes by (cases r) auto
  with Inr show ?thesis by (simp add: guarded_def)
qed

text \<open>
  C12: A request whose host, origin or token does not pass reaches nothing: no byte goes to the
  daemon and no session changes. For the changing requests the origin must be present; only
  packaged files are served without a token, and they touch nothing either.
\<close>

theorem web_requests_guarded:
  "(untouched w (snd (do_GET cfg rq w)) \<or> passes cfg rq False) \<and>
   (untouched w (snd (do_POST cfg rq w)) \<or> passes cfg rq True)"
proof -
  have "untouched w (snd (get_asset cfg rq w))"
    by (auto simp: get_asset_def split: option.split)
  then have "\<not> passes cfg rq False \<Longrightarrow> untouched w (snd (do_GET cfg rq w))"
    by (simp add: do_GET_def Let_def guarded_untouched)
  moreover have "\<not> passes cfg rq True \<Longrightarrow> untouched w (snd (do_POST cfg rq w))"
    by (simp add: do_POST_def guarded_untouched)
  ultimately show ?thesis by blast
qed

end
