(* ===== verification/Web_Properties.thy ===== *)
theory Web_Properties
  imports Web_Server Act_Rules
begin

text \<open>
  What the web server promises over all its threads: the table of sessions stays small and
  well-formed, a request is answered once, and reading requests only read.
\<close>

section \<open>The table of sessions\<close>

definition settled :: "web_session \<Rightarrow> bool" where
  "settled s \<longleftrightarrow> (\<exists>q. session_inv q s)"

definition web_inv :: "'w web \<Rightarrow> bool" where
  "web_inv w \<longleftrightarrow> length (wb_sessions w) \<le> MAX_ACTIVE_SESSIONS \<and> distinct (map fst (wb_sessions w)) \<and>
     list_all (\<lambda>(k, s). settled s) (wb_sessions w) \<and> list_all (\<lambda>s. settled s \<and> ws_closed s) (wb_ended w)"

lemma settled_step: "settled s \<Longrightarrow> settled (session_step py s e)"
  unfolding settled_def using browser_session.inv_event by blast

lemma settled_close: "settled s \<Longrightarrow> settled (close_session s)"
  unfolding settled_def using inv_close by blast

lemma settled_cancel: "settled s \<Longrightarrow> settled (cancel ok s)"
  unfolding settled_def using inv_cancel by blast

lemma settled_answer: "settled s \<Longrightarrow> settled (answer c v s)"
  unfolding settled_def using inv_answer by blast

lemma closed_close [simp]: "ws_closed (close_session s)"
  by (simp add: close_session_def)

lemma settled_open_over: "open_over cfg q v = ((e, s), v') \<Longrightarrow> settled s"
proof -
  assume "open_over cfg q v = ((e, s), v')"
  then obtain d h b where "open_session (wc_texts cfg) d h b q (new_web_session (qs_qid q)) = (e, s)"
    by (auto simp: open_over_def Let_def split: prod.splits sum.splits)
  with session_inv_open [of q "wc_texts cfg" d h b] show ?thesis by (auto simp: settled_def)
qed

lemma web_inv_world [simp]: "web_inv (w\<lparr>wb_world := v\<rparr>) = web_inv w"
  by (simp add: web_inv_def)

lemma web_inv_reply [simp]: "web_inv (snd (reply r w)) = web_inv w"
  by (simp add: web_inv_def reply_def)

lemma web_inv_ended: "web_inv w \<Longrightarrow> settled s \<Longrightarrow> web_inv (w\<lparr>wb_ended := wb_ended w @ [close_session s]\<rparr>)"
  by (simp add: web_inv_def settled_close)

lemma settled_get: "web_inv w \<Longrightarrow> get_session qid w = Some s \<Longrightarrow> settled s"
  by (auto simp: web_inv_def get_session_def list_all_iff dest!: map_of_SomeD)

lemma update_session_simps [simp]:
  "map fst (wb_sessions (update_session qid s w)) = map fst (wb_sessions w)"
  "length (wb_sessions (update_session qid s w)) = length (wb_sessions w)"
  "wb_ended (update_session qid s w) = wb_ended w"
  by (simp_all add: update_session_def case_prod_beta')

lemma web_inv_update [step_intros]: "web_inv w \<Longrightarrow> settled s \<Longrightarrow> web_inv (update_session qid s w)"
  unfolding web_inv_def by (simp only: update_session_simps) (auto simp: update_session_def list_all_iff)

lemma web_inv_end [step_intros]: "web_inv w \<Longrightarrow> settled s \<Longrightarrow> web_inv (end_session qid s w)"
  by (auto simp: web_inv_def end_session_def list_all_iff settled_close
      intro: le_trans [OF length_filter_le] distinct_map_filter)

lemma web_inv_register:
  "web_inv w \<Longrightarrow> settled s \<Longrightarrow> register_session s w = (Ok, w') \<Longrightarrow> web_inv w'"
  by (auto simp: web_inv_def register_session_def split: if_splits)

lemma register_refused: "register_session s w = (r, w') \<Longrightarrow> r \<noteq> Ok \<Longrightarrow> w' = w"
  by (auto simp: register_session_def split: if_splits)

lemma web_inv_open_stream [step_intros]: "web_inv w \<Longrightarrow> web_inv (snd (open_stream cfg rq w))"
proof -
  assume inv: "web_inv w"
  obtain fresh v where f: "wn_fresh (wc_net cfg) (wb_world w) = (fresh, v)" by fastforce
  show ?thesis
  proof (cases "from_query fresh (rq_query rq)")
    case (Inl e)
    with f inv show ?thesis by (simp add: open_stream_def)
  next
    case (Inr q)
    obtain e s v' where o: "open_over cfg q v = ((e, s), v')" by (metis prod.exhaust)
    note s = settled_open_over [OF o]
    obtain r w' where g: "register_session s (w\<lparr>wb_world := v'\<rparr>) = (r, w')" by fastforce
    have "r = Ok \<Longrightarrow> web_inv w'" using web_inv_register [of "w\<lparr>wb_world := v'\<rparr>" s] inv s g by simp
    moreover have "r \<noteq> Ok \<Longrightarrow> w' = w\<lparr>wb_world := v'\<rparr>" using register_refused [OF g] .
    ultimately show ?thesis
      using f Inr o g inv s web_inv_ended [of "w\<lparr>wb_world := v'\<rparr>" s]
      by (cases e; cases r) (auto simp: open_stream_def raise_def Let_def)
  qed
qed

section \<open>Handlers that touch no session\<close>

definition same_table :: "'w web \<Rightarrow> 'w web \<Rightarrow> bool" where
  "same_table u v \<longleftrightarrow> wb_sessions v = wb_sessions u \<and> wb_ended v = wb_ended u"

interpretation table: state_order same_table
  by unfold_locales (auto simp: same_table_def)

lemma moves_reply: "moves same_table (reply r)"
  by (simp add: moves_def reply_def same_table_def)

lemma moves_in_world: "moves same_table (in_world m)"
  by (auto simp: moves_def in_world_def same_table_def split: prod.split)

lemmas table_intros = table.moves_intros moves_reply moves_in_world

lemma moves_reading:
  "moves same_table (get_state cfg)" "moves same_table (get_journal cfg rq)" "moves same_table (get_timeline cfg rq)"
  "moves same_table (get_ledger cfg)" "moves same_table (get_health cfg)" "moves same_table (get_asset cfg rq)"
  "moves same_table (post_unit cfg path body)"
  unfolding get_state_def get_journal_def get_timeline_def get_ledger_def get_health_def get_asset_def post_unit_def Let_def
  by (auto intro!: table_intros split: option.split sum.split prod.split)

lemma web_inv_moves: "moves same_table m \<Longrightarrow> web_inv w \<Longrightarrow> web_inv (snd (m w))"
  by (auto simp: moves_def same_table_def web_inv_def)

lemma web_inv_guarded: "web_inv w \<Longrightarrow> (\<And>w. web_inv w \<Longrightarrow> web_inv (snd (m w))) \<Longrightarrow> web_inv (snd (guarded cfg rq b m w))"
  by (auto simp: guarded_def raise_def split: sum.split option.split)

lemma web_inv_GET [step_intros]: "web_inv w \<Longrightarrow> web_inv (snd (do_GET cfg rq w))"
  by (auto simp: do_GET_def Let_def intro!: web_inv_guarded web_inv_moves [OF moves_reading(1)]
      web_inv_moves [OF moves_reading(2)] web_inv_moves [OF moves_reading(3)] web_inv_moves [OF moves_reading(4)]
      web_inv_moves [OF moves_reading(5)] web_inv_moves [OF moves_reading(6)] web_inv_open_stream)

lemma web_inv_control: "web_inv w \<Longrightarrow> web_inv (snd (invoke_control cfg path body w))"
  by (auto simp: invoke_control_def Let_def settled_get settled_cancel settled_answer web_inv_update
      split: option.split prod.split)

lemma web_inv_POST [step_intros]: "web_inv w \<Longrightarrow> web_inv (snd (do_POST cfg rq w))"
  by (auto simp: do_POST_def intro!: web_inv_guarded web_inv_moves [OF moves_reading(7)] web_inv_control
      split: sum.split)

lemma web_inv_stream [step_intros]: "web_inv w \<Longrightarrow> web_inv (stream_step cfg qid e written ok w)"
  by (auto simp: stream_step_def Let_def settled_get settled_step settled_cancel web_inv_update web_inv_end
      split: option.split)

lemma web_inv_close [step_intros]: "web_inv w \<Longrightarrow> web_inv (server_close ok w)"
  by (auto simp: web_inv_def server_close_def list_all_iff settled_close settled_cancel)

interpretation web_server: event_machine "web_step cfg" web_inv for cfg
  by unfold_locales (auto simp: web_step_def intro: step_intros split: web_event.split)

text \<open>
  C15: Over any interleaving of requests, stream events and shutdown: at most 16 streams run, under
  different identifiers; every stream, running or over, gave the daemon only answers the browser
  posted to it, in order, and no more than it was asked questions; and a stream that left the
  table is closed.
\<close>

theorem sessions_bounded:
  "let w = foldl (web_step cfg) (new_web v) es
   in length (wb_sessions w) \<le> 16 \<and> distinct (map fst (wb_sessions w)) \<and> list_all ws_closed (wb_ended w) \<and>
      list_all (\<lambda>s. prefix (map Some (responds s)) (ws_given s) \<and> length (responds s) \<le> questions s)
        (map snd (wb_sessions w) @ wb_ended w)"
proof -
  define w where "w = foldl (web_step cfg) (new_web v) es"
  have "web_inv (new_web v)" by (simp add: web_inv_def new_web_def)
  then have inv: "web_inv w" unfolding w_def by (rule web_server.inv_events)
  have "prefix (map Some (responds s)) (ws_given s) \<and> length (responds s) \<le> questions s" if "settled s" for s
    using that by (auto simp: settled_def session_inv_def)
  with inv have "length (wb_sessions w) \<le> 16 \<and> distinct (map fst (wb_sessions w)) \<and> list_all ws_closed (wb_ended w) \<and>
      list_all (\<lambda>s. prefix (map Some (responds s)) (ws_given s) \<and> length (responds s) \<le> questions s)
        (map snd (wb_sessions w) @ wb_ended w)"
    by (auto simp: web_inv_def MAX_ACTIVE_SESSIONS_def list_all_iff)
  then show ?thesis unfolding w_def Let_def .
qed

section \<open>One reply per request\<close>

definition answered :: "('w web, unit) act \<Rightarrow> bool" where
  "answered m \<longleftrightarrow> (\<forall>w. case m w of
      (Inr _, w') \<Rightarrow> \<exists>p. wb_replies w' = wb_replies w @ [p]
    | (Inl e, w') \<Rightarrow> wb_replies w' = wb_replies w)"

lemma answered_reply: "answered (reply r)"
  by (simp add: answered_def reply_def)

lemma answered_raise: "answered (raise e)"
  by (simp add: answered_def raise_def)

lemma answered_in_world: "(\<And>x. answered (f x)) \<Longrightarrow> answered (andthen (in_world m) f)"
  unfolding answered_def andthen_def in_world_def
  by (fastforce split: prod.splits sum.splits)

lemma answered_guarded: "answered m \<Longrightarrow> answered (guarded cfg rq b m)"
  by (auto simp: guarded_def answered_reply answered_raise split: sum.split option.split)

lemmas answered_intros = answered_reply answered_raise answered_in_world answered_guarded

lemma answered_handlers:
  "answered (get_state cfg)" "answered (get_journal cfg rq)" "answered (get_timeline cfg rq)" "answered (get_ledger cfg)"
  "answered (get_health cfg)" "answered (get_asset cfg rq)" "answered (post_unit cfg path body)"
  unfolding get_state_def get_journal_def get_timeline_def get_ledger_def get_health_def get_asset_def post_unit_def Let_def
  by (auto intro!: answered_intros split: option.split sum.split prod.split)

lemma answered_open_stream: "answered (open_stream cfg rq)"
  by (auto simp: answered_def open_stream_def reply_def raise_def Let_def register_session_def
      split: prod.splits sum.splits option.splits registration.splits if_splits)

lemma answered_control: "answered (invoke_control cfg path body)"
  by (auto simp: answered_def invoke_control_def reply_def Let_def update_session_def split: prod.splits option.splits)

text \<open>
   Every request that is handled to its end is answered exactly once, refusals and errors
  included; one that raises is not answered at all.
\<close>

theorem each_request_answered_once:
  "(case do_GET cfg rq w of
      (Inr _, w') \<Rightarrow> \<exists>p. wb_replies w' = wb_replies w @ [p]
    | (Inl e, w') \<Rightarrow> wb_replies w' = wb_replies w) \<and>
   (case do_POST cfg rq w of
      (Inr _, w') \<Rightarrow> \<exists>p. wb_replies w' = wb_replies w @ [p]
    | (Inl e, w') \<Rightarrow> wb_replies w' = wb_replies w)"
proof -
  have "answered (do_GET cfg rq)"
    unfolding do_GET_def Let_def by (auto intro!: answered_intros answered_handlers answered_open_stream)
  moreover have "answered (do_POST cfg rq)"
    unfolding do_POST_def by (auto intro!: answered_intros answered_handlers answered_control split: sum.split)
  ultimately show ?thesis by (simp add: answered_def)
qed

section \<open>What the daemon is asked\<close>

text \<open>The socket with a record of the lines sent.\<close>

definition tapped_net :: "'w web_net \<Rightarrow> ('w \<times> pystr list) web_net" where
  "tapped_net net = \<lparr>
     wn_connect = (\<lambda>(w, log). case wn_connect net w of (r, w') \<Rightarrow> (r, w', log)),
     wn_hello = (\<lambda>(w, log). case wn_hello net w of (r, w') \<Rightarrow> (r, w', log)),
     wn_send = (\<lambda>t (w, log). case wn_send net t w of (r, w') \<Rightarrow> (r, w', log @ [t])),
     wn_lines = (\<lambda>(w, log). case wn_lines net w of (r, w') \<Rightarrow> (r, w', log)),
     wn_wire_ok = (\<lambda>(w, log). case wn_wire_ok net w of (r, w') \<Rightarrow> (r, w', log)),
     wn_fresh = (\<lambda>(w, log). case wn_fresh net w of (r, w') \<Rightarrow> (r, w', log)),
     wn_float = wn_float net\<rparr>"

definition sends_only :: "(pystr \<Rightarrow> bool) \<Rightarrow> 'w \<times> pystr list \<Rightarrow> 'w \<times> pystr list \<Rightarrow> bool" where
  "sends_only P u v \<longleftrightarrow> (\<exists>new. snd v = snd u @ new \<and> list_all P new)"

interpretation sends: state_order "sends_only P" for P
proof
  show "sends_only P w w" for w by (auto simp: sends_only_def intro: exI [of _ "[]"])
  show "sends_only P u v \<Longrightarrow> sends_only P v w \<Longrightarrow> sends_only P u w" for u v w
    by (auto simp: sends_only_def)
qed

definition web_sends :: "(pystr \<Rightarrow> bool) \<Rightarrow> ('w \<times> pystr list) web \<Rightarrow> ('w \<times> pystr list) web \<Rightarrow> bool" where
  "web_sends P u v \<longleftrightarrow> sends_only P (wb_world u) (wb_world v)"

interpretation page: state_order "web_sends P" for P
  by unfold_locales (auto simp: web_sends_def sends.refl intro: sends.trans)

text \<open>The requests a page load may make, and those a unit action makes.\<close>

definition READ_KINDS :: "pystr list" where
  "READ_KINDS = [''list_failures'', ''unit_journal'', ''get_timeline'', ''get_ledger'', ''get_health'']"

definition reading_line :: "(real \<Rightarrow> pystr) \<Rightarrow> pystr \<Rightarrow> bool" where
  "reading_line frepr t \<longleftrightarrow> (\<exists>q. t = encode frepr (query_msg q)) \<or>
     (\<exists>kind rid args. kind \<in> set READ_KINDS \<and> t = dumps frepr (request_json kind rid args) @ [newline])"

definition unit_line :: "(real \<Rightarrow> pystr) \<Rightarrow> pystr \<Rightarrow> bool" where
  "unit_line frepr t \<longleftrightarrow> (\<exists>kind rid (u :: unit_spec). kind \<in> {''restart_unit'', ''explain_unit''} \<and> us_unit u \<noteq> [] \<and>
     us_scope u \<in> {''system'', ''user''} \<and>
     t = dumps frepr (request_json kind rid [(''unit'', JStr (us_unit u)), (''scope'', JStr (us_scope u))]) @ [newline])"

lemma tapped_calls:
  "moves (sends_only P) (wn_connect (tapped_net net))"
  "moves (sends_only P) (wn_hello (tapped_net net))"
  "sends_only P w (snd (wn_lines (tapped_net net) w))"
  "sends_only P w (snd (wn_wire_ok (tapped_net net) w))"
  "sends_only P w (snd (wn_fresh (tapped_net net) w))"
  "P t \<Longrightarrow> moves (sends_only P) (wn_send (tapped_net net) t)"
  by (auto simp: moves_def tapped_net_def sends_only_def split: prod.split intro: exI [of _ "[]"])

lemma snd_roundtrip: "snd (roundtrip net py req terminal collect w) = snd (exchange net py req terminal collect w)"
  by (auto simp: roundtrip_def split: prod.split sum.split)

lemma moves_at: "moves R m \<Longrightarrow> R w (snd (m w))"
  by (simp add: moves_def)

lemma tapped_float [simp]: "wn_float (tapped_net net) = wn_float net"
  by (simp add: tapped_net_def)

lemma moves_roundtrip:
  assumes "P (dumps (wn_float net) req @ [newline])"
  shows "moves (sends_only P) (roundtrip (tapped_net net) py req terminal collect)"
proof -
  have "moves (sends_only P) (\<lambda>w. let ((raws, fin), w') = wn_lines (tapped_net net) w
      in (scan_reply py terminal collect [] raws fin, w'))" for py
    unfolding moves_def by (auto simp: Let_def split: prod.split) (metis snd_conv tapped_calls(3))
  then have "moves (sends_only P) (exchange (tapped_net net) py req terminal collect)"
    unfolding exchange_def
    by (auto intro!: sends.moves_andthen tapped_calls sends.moves_raise assms split: sum.split)
  then show ?thesis unfolding moves_def snd_roundtrip .
qed

lemma moves_fresh:
  assumes "\<And>x. moves (sends_only P) (f x)"
  shows "moves (sends_only P) (\<lambda>w. let (x, w) = wn_fresh (tapped_net net) w in f x w)"
  unfolding moves_def
proof
  fix w
  obtain x w1 where f: "wn_fresh (tapped_net net) w = (x, w1)" by (rule prod.exhaust)
  have "sends_only P w w1" using tapped_calls(5) [of P w net] unfolding f snd_conv .
  moreover have "sends_only P w1 (snd (f x w1))" by (rule moves_at [OF assms])
  ultimately show "sends_only P w (snd (let (x, w) = wn_fresh (tapped_net net) w in f x w))"
    unfolding f Let_def prod.case by (rule sends.trans)
qed

lemma moves_fetch:
  assumes "kind \<in> set READ_KINDS"
  shows "moves (sends_only (reading_line (wn_float net))) (fetch (tapped_net net) py kind args cls)"
proof -
  have "reading_line (wn_float net) (dumps (wn_float net) (request_json kind rid args) @ [newline])" for rid
    using assms by (auto simp: reading_line_def)
  then show ?thesis
    unfolding fetch_def
    by (intro moves_fresh sends.moves_andthen moves_roundtrip) (auto intro: sends.moves_ret)
qed

lemma moves_unit_action:
  assumes "kind \<in> {''restart_unit'', ''explain_unit''}" "us_unit u \<noteq> []" "us_scope u \<in> {''system'', ''user''}"
  shows "moves (sends_only (unit_line (wn_float net))) (unit_action (tapped_net net) py kind nothing u)"
proof -
  have "unit_line (wn_float net) (dumps (wn_float net) (request_json kind rid
      [(''unit'', JStr (us_unit u)), (''scope'', JStr (us_scope u))]) @ [newline])" for rid
    using assms unfolding unit_line_def by blast
  then show ?thesis
    unfolding unit_action_def
    by (intro moves_fresh sends.moves_andthen moves_roundtrip) (auto intro: sends.moves_ret)
qed

lemma page_reply: "moves (web_sends P) (reply r)"
  by (simp add: moves_def reply_def web_sends_def sends.refl)

lemma page_in_world: "moves (sends_only P) m \<Longrightarrow> moves (web_sends P) (in_world m)"
proof -
  assume m: "moves (sends_only P) m"
  have "web_sends P w (snd (in_world m w))" for w
    using moves_at [OF m, of "wb_world w"] by (cases "m (wb_world w)") (simp add: in_world_def web_sends_def)
  then show ?thesis by (simp add: moves_def)
qed

lemma page_guarded: "moves (web_sends P) m \<Longrightarrow> moves (web_sends P) (guarded cfg rq b m)"
  by (auto simp: guarded_def intro: page_reply page.moves_raise split: sum.split option.split)

lemmas page_intros = page.moves_intros page_reply page_in_world page_guarded moves_fetch sends.moves_intros

lemma page_reading:
  assumes "wc_net cfg = tapped_net net"
  shows "moves (web_sends (reading_line (wn_float net))) (get_state cfg)"
    "moves (web_sends (reading_line (wn_float net))) (get_journal cfg rq)"
    "moves (web_sends (reading_line (wn_float net))) (get_timeline cfg rq)"
    "moves (web_sends (reading_line (wn_float net))) (get_ledger cfg)"
    "moves (web_sends (reading_line (wn_float net))) (get_health cfg)"
    "moves (web_sends (reading_line (wn_float net))) (get_asset cfg rq)"
  unfolding get_state_def get_journal_def get_timeline_def get_ledger_def get_health_def get_asset_def Let_def
    list_failures_def journal_def timeline_def ledger_def health_def assms
  by (auto intro!: page_intros simp: READ_KINDS_def split: option.split prod.split)

lemma page_unit:
  assumes "wc_net cfg = tapped_net net"
  shows "moves (web_sends (unit_line (wn_float net))) (post_unit cfg path body)"
proof (cases "from_body (wc_texts cfg) body")
  case (Inl e)
  then show ?thesis by (simp add: post_unit_def page_reply)
next
  case (Inr u)
  with from_body_checked [of "wc_texts cfg" body] have u: "us_unit u \<noteq> []" "us_scope u \<in> {''system'', ''user''}" by simp_all
  then have "moves (sends_only (unit_line (wn_float net))) (restart (tapped_net net) (wc_texts cfg) u)"
    and "moves (sends_only (unit_line (wn_float net))) (explain (tapped_net net) (wc_texts cfg) u)"
    unfolding restart_def explain_def by (intro moves_unit_action; simp)+
  with Inr show ?thesis
    unfolding post_unit_def assms by (auto intro!: page.moves_andthen page_in_world page_reply)
qed

lemma open_over_sends:
  assumes "wc_net cfg = tapped_net net"
  shows "sends_only (reading_line (wn_float net)) v (snd (open_over cfg q v))"
proof -
  let ?R = "sends_only (reading_line (wn_float net))"
  have line: "reading_line (wn_float net) (encode (wn_float net) (query_msg q))" by (auto simp: reading_line_def)
  have s: "?R w (snd (wn_send (tapped_net net) (encode (wn_float net) (query_msg q)) w))" for w
    using tapped_calls(6) [where P = "reading_line (wn_float net)", OF line] by (rule moves_at)
  have c: "?R w (snd (wn_connect (tapped_net net) w))" "?R w (snd (wn_hello (tapped_net net) w))" for w
    using tapped_calls(1,2) by (blast intro: moves_at)+
  obtain r1 w1 where 1: "wn_connect (tapped_net net) v = (r1, w1)" by (rule prod.exhaust)
  obtain r2 w2 where 2: "wn_hello (tapped_net net) w1 = (r2, w2)" by (rule prod.exhaust)
  obtain r3 w3 where 3: "wn_send (tapped_net net) (encode (wn_float net) (query_msg q)) w2 = (r3, w3)" by (rule prod.exhaust)
  have "?R v w1" "?R w1 w2" "?R w2 w3" using c(1) [of v] c(2) [of w1] s [of w2] unfolding 1 2 3 by simp_all
  moreover from this have "?R v w2" "?R v w3" by (blast intro: sends.trans)+
  moreover have "snd (open_over cfg q v) \<in> {w1, w2, w3}"
    unfolding open_over_def Let_def assms tapped_float 1 prod.case
    by (cases r1; cases r2) (simp_all add: 2 3 split: sum.split)
  ultimately show ?thesis by auto
qed

lemma page_stream:
  assumes "wc_net cfg = tapped_net net"
  shows "moves (web_sends (reading_line (wn_float net))) (open_stream cfg rq)"
  unfolding moves_def
proof
  fix w :: "('a \<times> pystr list) web"
  let ?R = "sends_only (reading_line (wn_float net))"
  obtain fresh v where f: "wn_fresh (tapped_net net) (wb_world w) = (fresh, v)" by (rule prod.exhaust)
  have v: "?R (wb_world w) v" using tapped_calls(5) [of _ "wb_world w" net] unfolding f snd_conv .
  show "web_sends (reading_line (wn_float net)) w (snd (open_stream cfg rq w))"
  proof (cases "from_query fresh (rq_query rq)")
    case (Inl e)
    with f v show ?thesis by (simp add: open_stream_def assms web_sends_def reply_def)
  next
    case (Inr q)
    obtain e s v' where o: "open_over cfg q v = ((e, s), v')" by (metis prod.exhaust)
    have "?R v v'" using open_over_sends [OF assms, of v q] unfolding o snd_conv .
    with v have "?R (wb_world w) v'" by (rule sends.trans)
    with f Inr o show ?thesis
      by (auto simp: open_stream_def assms web_sends_def reply_def raise_def register_session_def Let_def
          split: option.split)
  qed
qed

lemma page_control:
  assumes "wc_net cfg = tapped_net net"
  shows "moves (web_sends P) (invoke_control cfg path body)"
  unfolding moves_def
proof
  fix w :: "('a \<times> pystr list) web"
  obtain ok v where f: "wn_wire_ok (tapped_net net) (wb_world w) = (ok, v)" by (rule prod.exhaust)
  have "sends_only P (wb_world w) v" using tapped_calls(4) [of P "wb_world w" net] unfolding f snd_conv .
  with f show "web_sends P w (snd (invoke_control cfg path body w))"
    by (auto simp: invoke_control_def assms web_sends_def reply_def update_session_def Let_def sends.refl
        split: option.split)
qed


section \<open>Two defects of opening a stream\<close>

text \<open>A stream that is refused as a duplicate has already sent its query to the daemon.\<close>

lemma refused_stream_sent_its_query:
  assumes "wn_fresh (wc_net cfg) (wb_world w) = (fresh, v)" "from_query fresh (rq_query rq) = Inr q"
    and "open_over cfg q v = ((None, s), v')" "qs_qid q \<in> fst ` set (wb_sessions w)"
  shows "wb_replies (snd (open_stream cfg rq w)) = wb_replies w @ [error_reply 409 ''query already exists'']"
    and "ws_sent s = [query_msg q]"
proof -
  have s: "ws_qid s = qs_qid q \<and> ws_sent s = [query_msg q]"
    using assms(3)
    by (auto simp: open_over_def Let_def open_session_def write_message_def new_web_session_def
        split: prod.splits sum.splits if_splits)
  then show "ws_sent s = [query_msg q]" by simp
  show "wb_replies (snd (open_stream cfg rq w)) = wb_replies w @ [error_reply 409 ''query already exists'']"
    using assms s by (simp add: open_stream_def register_session_def reply_def Let_def)
qed

text \<open>A daemon of another version is not reported to the browser: the handler raises.\<close>

lemma incompatible_daemon_unanswered:
  assumes "wn_fresh (wc_net cfg) (wb_world w) = (fresh, v)" "from_query fresh (rq_query rq) = Inr q"
    and "open_over cfg q v = ((Some (ProtocolError t), s), v')"
  shows "fst (open_stream cfg rq w) = Inl (ProtocolError t)"
  using assms by (simp add: open_stream_def raise_def Let_def is_os_error_def)

end
