(* ===== verification/Client_Paths.thy ===== *)
theory Client_Paths
  imports Config
begin

text \<open>
  Where the clients look for the daemon (the \<^verbatim>\<open>socket_path\<close> of \<^verbatim>\<open>cli.py\<close>, \<^verbatim>\<open>tray/client.py\<close> and
  \<^verbatim>\<open>web/server.py\<close>, three copies of one function) against where the daemon listens, and the
  discovery file in which the web server publishes its address.
\<close>

definition runtime_dir :: "environment \<Rightarrow> pystr" where
  "runtime_dir os_env = the_default ''/tmp'' (os_env ''XDG_RUNTIME_DIR'')"

definition client_socket :: "environment \<Rightarrow> pystr" where
  "client_socket os_env =
     (let env = the_default [] (os_env ''NIXADMIN_SOCKET'')
      in if env \<noteq> [] then env else path_text (path_join (runtime_dir os_env) ''nixadmin.sock''))"

text \<open>The copy of \<^verbatim>\<open>cli.py\<close> and the copy of \<^verbatim>\<open>tray/client.py\<close>.\<close>

definition terminal_socket :: "environment \<Rightarrow> pystr" where
  "terminal_socket os_env =
     (case os_env ''NIXADMIN_SOCKET'' of
        Some env \<Rightarrow> if env \<noteq> [] then env else path_text (path_join (runtime_dir os_env) ''nixadmin.sock'')
      | None \<Rightarrow> path_text (path_join (runtime_dir os_env) ''nixadmin.sock''))"

definition tray_socket :: "environment \<Rightarrow> pystr" where
  "tray_socket os_env =
     (case os_env ''NIXADMIN_SOCKET'' of
        Some env \<Rightarrow> if env \<noteq> [] then env else path_text (path_join (runtime_dir os_env) ''nixadmin.sock'')
      | None \<Rightarrow> path_text (path_join (runtime_dir os_env) ''nixadmin.sock''))"

lemma same_socket: "terminal_socket os_env = client_socket os_env" "tray_socket os_env = client_socket os_env"
  by (simp_all add: terminal_socket_def tray_socket_def client_socket_def split: option.split)

definition url_file :: "environment \<Rightarrow> pystr" where
  "url_file os_env = path_text (path_join (runtime_dir os_env) ''nixadmin-web.url'')"

text \<open>
  The discovery file, under its lock: a server publishes its own address and removes the file
  only while it holds that address.
\<close>

definition write_url_file :: "pystr \<Rightarrow> pystr option \<Rightarrow> pystr option" where
  "write_url_file url file = Some (url @ [newline])"

definition remove_url_file :: "pystr \<Rightarrow> pystr option \<Rightarrow> pystr option" where
  "remove_url_file url file =
     (case file of None \<Rightarrow> None | Some t \<Rightarrow> if strip t = url then None else Some t)"

text \<open>\<^verbatim>\<open>url = f"http://127.0.0.1:{port}/?token={token}"\<close>.\<close>

definition server_url :: "int \<Rightarrow> pystr \<Rightarrow> pystr" where
  "server_url port token = ''http://127.0.0.1:'' @ show_int port @ ''/?token='' @ token"

section \<open>Properties\<close>

lemma web_finds_the_daemon:
  assumes "from_env addr os_env home None = Inr cfg"
    and "os_env ''NIXADMIN_SOCKET'' \<noteq> Some []" "os_env ''XDG_RUNTIME_DIR'' \<noteq> Some []"
  shows "client_socket os_env = cfg_socket_path cfg"
proof -
  from assms(1) have cfg: "cfg = read_config os_env home os_env"
    by (simp add: from_env_def Let_def split: if_splits)
  show ?thesis
  proof (cases "os_env ''NIXADMIN_SOCKET''")
    case None
    with assms(3) show ?thesis
      by (cases "os_env ''XDG_RUNTIME_DIR''")
        (auto simp: cfg read_config_def env_get_def default_socket_def client_socket_def runtime_dir_def)
  next
    case (Some s)
    with assms(2) show ?thesis by (simp add: cfg read_config_def env_get_def client_socket_def)
  qed
qed

text \<open>
  C35: With the same environment the web server, the terminal client and the
  tray look for the socket where the daemon listens, unless one of the two variables is set to the empty text.
\<close>

theorem clients_find_the_daemon:
  assumes "from_env addr os_env home None = Inr cfg"
    and "os_env ''NIXADMIN_SOCKET'' \<noteq> Some []" "os_env ''XDG_RUNTIME_DIR'' \<noteq> Some []"
  shows "client_socket os_env = cfg_socket_path cfg \<and> terminal_socket os_env = cfg_socket_path cfg \<and>
    tray_socket os_env = cfg_socket_path cfg"
  using web_finds_the_daemon [OF assms] by (simp add: same_socket)

definition desktop_env :: environment where
  "desktop_env = [''XDG_RUNTIME_DIR'' \<mapsto> ''/run/user/1000'']"

lemma clients_find_the_daemon_witness:
  "\<exists>cfg. from_env (\<lambda>_. False) desktop_env ''/home/me'' None = Inr cfg \<and>
     client_socket desktop_env = cfg_socket_path cfg \<and> terminal_socket desktop_env = cfg_socket_path cfg \<and>
     tray_socket desktop_env = cfg_socket_path cfg"
proof -
  let ?cfg = "read_config desktop_env ''/home/me'' desktop_env"
  have "config_errors (\<lambda>_. False) desktop_env ?cfg = []" by code_simp
  then have "from_env (\<lambda>_. False) desktop_env ''/home/me'' None = Inr ?cfg"
    by (simp add: from_env_def Let_def)
  moreover from this have "client_socket desktop_env = cfg_socket_path ?cfg \<and>
      terminal_socket desktop_env = cfg_socket_path ?cfg \<and> tray_socket desktop_env = cfg_socket_path ?cfg"
    by (rule clients_find_the_daemon) (simp_all add: desktop_env_def)
  ultimately show ?thesis by blast
qed

text \<open>The two exceptions: with an empty setting the daemon listens elsewhere.\<close>

lemma empty_socket_setting_disagrees:
  "client_socket [''NIXADMIN_SOCKET'' \<mapsto> []] = ''/tmp/nixadmin.sock'' \<and>
     cfg_socket_path (read_config [''NIXADMIN_SOCKET'' \<mapsto> []] home [''NIXADMIN_SOCKET'' \<mapsto> []]) = []"
  by (simp add: client_socket_def runtime_dir_def path_join_def path_text_def path_root_def startswith_def
      endswith_def read_config_def env_get_def)

lemma empty_runtime_dir_disagrees:
  "client_socket [''XDG_RUNTIME_DIR'' \<mapsto> []] = ''nixadmin.sock'' \<and>
     default_socket [''XDG_RUNTIME_DIR'' \<mapsto> []] = ''/tmp/nixadmin.sock''"
  by (simp add: client_socket_def runtime_dir_def default_socket_def path_join_def path_text_def path_root_def
      startswith_def endswith_def)

text \<open>A server that ends after its successor started leaves the successor's record alone.\<close>

lemma old_server_keeps_new_record:
  "strip (new @ [newline]) \<noteq> old \<Longrightarrow>
     remove_url_file old (write_url_file new file) = Some (new @ [newline])"
  by (simp add: remove_url_file_def write_url_file_def)

end
