(* ===== verification/Tray_Client.thy ===== *)
theory Tray_Client
  imports Web_Client Handlers
begin

text \<open>
  \<^verbatim>\<open>tray/client.py\<close>: the tray's connection to the daemon. The loop that connects, reads and
  reconnects and the requests that wait for replies interleave only where they await, so a run
  is a list of the steps between: a connection is made or lost, a line arrives, a request begins,
  a wait ends.
\<close>

section \<open>State\<close>

text \<open>
  A request waits on a future. Identifiers of requests come from \<^verbatim>\<open>uuid4\<close> and are taken never to
  repeat, so a future is known by its request's identifier; \<open>tc_pending\<close> are the futures the
  client still looks replies up in. \<open>tc_notes\<close> are the callbacks made: the state changed, or an
  event arrived. \<open>tc_dead\<close> is the exception that ended \<^verbatim>\<open>run\<close>, which otherwise never returns.
\<close>

datatype reply_state = Open | Resolved message | Broken | Expired

datatype note_made = State_changed bool | Event_arrived message

record tray_client =
  tc_online :: bool
  tc_writer :: bool
  tc_pending :: "pystr set"
  tc_futures :: "pystr \<rightharpoonup> reply_state"
  tc_collect :: "pystr \<rightharpoonup> json list"
  tc_sent :: "message list"
  tc_notes :: "note_made list"
  tc_dead :: "exn option"

definition new_tray_client :: tray_client where
  "new_tray_client = \<lparr>tc_online = False, tc_writer = False, tc_pending = {}, tc_futures = Map.empty,
     tc_collect = Map.empty, tc_sent = [], tc_notes = [], tc_dead = None\<rparr>"

section \<open>The connection\<close>

definition set_connected :: "bool \<Rightarrow> tray_client \<Rightarrow> tray_client" where
  "set_connected v c =
     (if v \<noteq> tc_online c then c\<lparr>tc_online := v, tc_notes := tc_notes c @ [State_changed v]\<rparr> else c)"

text \<open>One round of \<^verbatim>\<open>run\<close> up to the reading: \<open>hello\<close> is the outcome of connecting and of the handshake. What it does not catch ends \<^verbatim>\<open>run\<close>.\<close>

definition connect_round :: "exn + message \<Rightarrow> tray_client \<Rightarrow> tray_client" where
  "connect_round hello c =
     (case hello of
        Inl e \<Rightarrow> (if is_os_error e \<or> is_protocol_error e then set_connected False c else c\<lparr>tc_dead := Some e\<rparr>)
      | Inr m \<Rightarrow> set_connected True (c\<lparr>tc_writer := True\<rparr>))"

definition fail_pending :: "tray_client \<Rightarrow> tray_client" where
  "fail_pending c =
     c\<lparr>tc_futures := (\<lambda>rid. if rid \<in> tc_pending c \<and> tc_futures c rid = Some Open then Some Broken
                       else tc_futures c rid),
       tc_pending := {}\<rparr>"

text \<open>The \<^verbatim>\<open>finally\<close> of the reading loop.\<close>

definition connection_lost :: "tray_client \<Rightarrow> tray_client" where
  "connection_lost c = (fail_pending (set_connected False c))\<lparr>tc_writer := False\<rparr>"

text \<open>\<^verbatim>\<open>_send\<close>: whether the message was handed over; \<open>wire_ok\<close> is whether the write raises.\<close>

definition tray_send :: "bool \<Rightarrow> message \<Rightarrow> tray_client \<Rightarrow> bool \<times> tray_client" where
  "tray_send wire_ok m c =
     (if \<not> tc_writer c \<or> \<not> wire_ok then (False, c) else (True, c\<lparr>tc_sent := tc_sent c @ [m]\<rparr>))"

definition tray_respond :: "json \<Rightarrow> message" where
  "tray_respond qid = mk_message Respond [qid, JBool True, JNull]"

text \<open>
  \<^verbatim>\<open>_dispatch\<close>. Whatever \<^verbatim>\<open>decode\<close> raises is ignored; looking up an identifier that is a list or
  an object raises. Identifiers of pending requests are texts, so no other identifier finds one.
\<close>

definition dispatch_message :: "bool \<Rightarrow> message \<Rightarrow> tray_client \<Rightarrow> exn option \<times> tray_client" where
  "dispatch_message wire_ok m c =
     (let cls = msg_class m; qid = get_field m ''id''
      in if cls = Event then (None, c\<lparr>tc_notes := tc_notes c @ [Event_arrived m]\<rparr>)
         else if cls = Confirm then (None, snd (tray_send wire_ok (tray_respond qid) c))
         else if cls \<notin> set [Delta, Failures, Done, Error] then (None, c)
         else if unhashable qid then (Some (unhashable_id qid), c)
         else (None, (case qid of
              JStr rid \<Rightarrow>
                (if cls = Delta then
                   (case tc_collect c rid of
                      Some buf \<Rightarrow> c\<lparr>tc_collect := (tc_collect c)(rid \<mapsto> buf @ [get_field m ''text''])\<rparr>
                    | None \<Rightarrow> c)
                 else if rid \<notin> tc_pending c then c
                 else c\<lparr>tc_pending := tc_pending c - {rid},
                        tc_futures := (if tc_futures c rid = Some Open then (tc_futures c)(rid \<mapsto> Resolved m)
                                       else tc_futures c)\<rparr>)
            | _ \<Rightarrow> c)))"

definition dispatch_line :: "py_texts \<Rightarrow> bool \<Rightarrow> pystr \<Rightarrow> tray_client \<Rightarrow> exn option \<times> tray_client" where
  "dispatch_line py wire_ok raw c =
     (if strip raw = [] then (None, c)
      else (case decode py (strip raw) of Inl e \<Rightarrow> (None, c) | Inr m \<Rightarrow> dispatch_message wire_ok m c))"

text \<open>One turn of the reading loop; what it raises leaves \<^verbatim>\<open>run\<close> through its \<^verbatim>\<open>finally\<close>.\<close>

definition read_round :: "py_texts \<Rightarrow> bool \<Rightarrow> pystr \<Rightarrow> tray_client \<Rightarrow> tray_client" where
  "read_round py wire_ok raw c =
     (case dispatch_line py wire_ok raw c of
        (None, c') \<Rightarrow> c'
      | (Some e, c') \<Rightarrow> (connection_lost c')\<lparr>tc_dead := Some e\<rparr>)"

section \<open>Requests\<close>

datatype tray_request = List_failures | Restart_unit pystr pystr | Explain_unit pystr pystr

definition request_message :: "pystr \<Rightarrow> tray_request \<Rightarrow> message" where
  "request_message rid r = (case r of
      List_failures \<Rightarrow> mk_message ListFailures [JStr rid]
    | Restart_unit u sc \<Rightarrow> mk_message RestartUnit [JStr rid, JStr u, JStr sc]
    | Explain_unit u sc \<Rightarrow> mk_message ExplainUnit [JStr rid, JStr u, JStr sc])"

definition collects :: "tray_request \<Rightarrow> bool" where
  "collects r = (case r of Explain_unit u sc \<Rightarrow> True | _ \<Rightarrow> False)"

text \<open>\<^verbatim>\<open>_request\<close> up to its wait; the flag says whether it waits.\<close>

definition begin_request :: "bool \<Rightarrow> tray_request \<Rightarrow> pystr \<Rightarrow> tray_client \<Rightarrow> bool \<times> tray_client" where
  "begin_request wire_ok r rid c =
     (if \<not> tc_online c then (False, c)
      else (let c1 = c\<lparr>tc_futures := (tc_futures c)(rid \<mapsto> Open), tc_pending := insert rid (tc_pending c),
                       tc_collect := (if collects r then (tc_collect c)(rid \<mapsto> []) else tc_collect c)\<rparr>
            in case tray_send wire_ok (request_message rid r) c1 of
                 (True, c2) \<Rightarrow> (True, c2)
               | (False, c2) \<Rightarrow>
                   (False, c2\<lparr>tc_futures := (tc_futures c2)(rid \<mapsto> Expired),
                     tc_pending := tc_pending c2 - {rid}, tc_collect := (tc_collect c2)(rid := None)\<rparr>)))"

text \<open>The wait ends, with a reply, with the connection, or at its deadline.\<close>

definition end_wait :: "pystr \<Rightarrow> tray_client \<Rightarrow> message option \<times> tray_client" where
  "end_wait rid c =
     (case tc_futures c rid of
        Some (Resolved m) \<Rightarrow> (Some m, c)
      | Some Open \<Rightarrow> (None, c\<lparr>tc_futures := (tc_futures c)(rid \<mapsto> Expired), tc_pending := tc_pending c - {rid}\<rparr>)
      | _ \<Rightarrow> (None, c\<lparr>tc_pending := tc_pending c - {rid}\<rparr>))"

text \<open>What the callers make of the reply.\<close>

definition failures_result :: "message option \<Rightarrow> json option" where
  "failures_result r = (case r of Some m \<Rightarrow> if msg_class m = Failures then Some (get_field m ''units'') else None | None \<Rightarrow> None)"

definition restart_result :: "message option \<Rightarrow> json option" where
  "restart_result r = (case r of Some m \<Rightarrow> if msg_class m = Error then Some (get_field m ''text'') else None | None \<Rightarrow> None)"

text \<open>\<^verbatim>\<open>explain_unit\<close> after its wait: the collected pieces are taken out and joined.\<close>

definition explain_result :: "message option \<Rightarrow> pystr \<Rightarrow> json option" where
  "explain_result r collected =
     (case r of
        Some m \<Rightarrow> (if msg_class m = Error then Some (get_field m ''text'')
                  else if collected \<noteq> [] then Some (JStr collected) else None)
      | None \<Rightarrow> if collected \<noteq> [] then Some (JStr collected) else None)"

definition finish_explain :: "pystr \<Rightarrow> message option \<Rightarrow> tray_client \<Rightarrow> (exn + json option) \<times> tray_client" where
  "finish_explain rid r c =
     (map_sum id (explain_result r) (join_texts (the_default [] (tc_collect c rid))),
      c\<lparr>tc_collect := (tc_collect c)(rid := None)\<rparr>)"

section \<open>Runs\<close>

datatype client_event =
    Connect_tried "exn + message" | Line_came bool pystr | Lost
  | Request_begun bool tray_request pystr | Wait_ended pystr | Explain_ended pystr

definition client_step :: "py_texts \<Rightarrow> tray_client \<Rightarrow> client_event \<Rightarrow> tray_client" where
  "client_step py c ev =
     (case ev of
        Connect_tried hello \<Rightarrow> (if tc_writer c \<or> tc_dead c \<noteq> None then c else connect_round hello c)
      | Line_came wire_ok raw \<Rightarrow> (if tc_writer c then read_round py wire_ok raw c else c)
      | Lost \<Rightarrow> (if tc_writer c then connection_lost c else c)
      | Request_begun wire_ok r rid \<Rightarrow>
          (if tc_futures c rid = None then snd (begin_request wire_ok r rid c) else c)
      | Wait_ended rid \<Rightarrow> snd (end_wait rid c)
      | Explain_ended rid \<Rightarrow> snd (finish_explain rid (fst (end_wait rid c)) (snd (end_wait rid c))))"

section \<open>The invariant\<close>

definition replies_to :: "pystr \<Rightarrow> message \<Rightarrow> bool" where
  "replies_to rid m \<longleftrightarrow> get_field m ''id'' = JStr rid \<and> msg_class m \<in> set [Failures, Done, Error]"

definition tray_inv :: "tray_client \<Rightarrow> bool" where
  "tray_inv c \<longleftrightarrow> tc_online c = tc_writer c \<and> (tc_online c \<or> tc_pending c = {}) \<and>
     tc_pending c = {rid. tc_futures c rid = Some Open} \<and>
     (\<forall>rid m. tc_futures c rid = Some (Resolved m) \<longrightarrow> replies_to rid m)"

lemma inv_connect [step_intros]: "tray_inv c \<Longrightarrow> \<not> tc_writer c \<Longrightarrow> tray_inv (connect_round hello c)"
  by (auto simp: tray_inv_def connect_round_def set_connected_def split: sum.split)

lemma inv_lost [step_intros]: "tray_inv c \<Longrightarrow> tray_inv (connection_lost c)"
  by (auto simp: tray_inv_def connection_lost_def fail_pending_def set_connected_def split: if_splits)

lemma tray_send_keeps [simp]:
  "tc_online (snd (tray_send ok m c)) = tc_online c" "tc_writer (snd (tray_send ok m c)) = tc_writer c"
  "tc_pending (snd (tray_send ok m c)) = tc_pending c" "tc_futures (snd (tray_send ok m c)) = tc_futures c"
  by (simp_all add: tray_send_def)

lemma inv_same:
  "tray_inv c \<Longrightarrow> tc_online c' = tc_online c \<Longrightarrow> tc_writer c' = tc_writer c \<Longrightarrow> tc_pending c' = tc_pending c \<Longrightarrow>
     tc_futures c' = tc_futures c \<Longrightarrow> tray_inv c'"
  by (auto simp: tray_inv_def)

lemma inv_resolve:
  "tray_inv c \<Longrightarrow> rid \<in> tc_pending c \<Longrightarrow> replies_to rid m \<Longrightarrow>
     tray_inv (c\<lparr>tc_pending := tc_pending c - {rid}, tc_futures := (tc_futures c)(rid \<mapsto> Resolved m)\<rparr>)"
  by (auto simp: tray_inv_def)

lemma inv_dispatch:
  assumes "tray_inv c"
  shows "tray_inv (snd (dispatch_message ok m c))"
proof (cases "\<exists>rid. get_field m ''id'' = JStr rid \<and> rid \<in> tc_pending c \<and> msg_class m \<in> set [Failures, Done, Error]")
  case True
  then obtain rid where r: "get_field m ''id'' = JStr rid" "rid \<in> tc_pending c" "replies_to rid m"
    by (auto simp: replies_to_def)
  from assms r(2) have "tc_futures c rid = Some Open" by (auto simp: tray_inv_def)
  with inv_resolve [OF assms r(2,3)] r show ?thesis
    by (auto simp: dispatch_message_def Let_def replies_to_def unhashable_def)
next
  case False
  with assms show ?thesis
    by (auto simp: dispatch_message_def Let_def split: json.split option.split intro: inv_same)
qed

lemma inv_line: "tray_inv c \<Longrightarrow> tray_inv (snd (dispatch_line py ok raw c))"
  by (auto simp: dispatch_line_def intro: inv_dispatch split: sum.split)

lemma inv_read [step_intros]: "tray_inv c \<Longrightarrow> tray_inv (read_round py ok raw c)"
  using inv_line [of c py ok raw]
  by (auto simp: read_round_def intro: inv_same inv_lost split: prod.split option.split)

lemma inv_begin [step_intros]:
  "tray_inv c \<Longrightarrow> tc_futures c rid = None \<Longrightarrow> tray_inv (snd (begin_request ok r rid c))"
  by (auto simp: tray_inv_def begin_request_def tray_send_def Let_def)

lemma inv_end [step_intros]: "tray_inv c \<Longrightarrow> tray_inv (snd (end_wait rid c))"
  by (auto simp: tray_inv_def end_wait_def split: option.split reply_state.split)

lemma inv_explained [step_intros]: "tray_inv c \<Longrightarrow> tray_inv (snd (finish_explain rid r c))"
  by (auto simp: finish_explain_def intro: inv_same)

interpretation tray_link: event_machine "client_step py" tray_inv for py
  by unfold_locales (auto simp: client_step_def intro: step_intros split: client_event.split)

section \<open>Properties\<close>

text \<open>
  C39: Over any run of the tray's connection a request that got a reply got one carrying its own
  identifier, of a kind that ends a request; the tray waits for nothing while the daemon is
  away, every request still open when the connection was lost having been failed; and it is
  online exactly while it has a connection to write to.
\<close>

theorem tray_requests_matched:
  "let c = foldl (client_step py) new_tray_client es
   in tc_online c = tc_writer c \<and>
      (case tc_futures c rid of Some (Resolved m) \<Rightarrow> replies_to rid m | Some Open \<Rightarrow> tc_online c \<and> rid \<in> tc_pending c | _ \<Rightarrow> True)"
proof -
  define c where "c = foldl (client_step py) new_tray_client es"
  have "tray_inv new_tray_client" by (simp add: tray_inv_def new_tray_client_def)
  then have "tray_inv c" unfolding c_def by (rule tray_link.inv_events)
  then have "tc_online c = tc_writer c \<and>
      (case tc_futures c rid of Some (Resolved m) \<Rightarrow> replies_to rid m | Some Open \<Rightarrow> tc_online c \<and> rid \<in> tc_pending c | _ \<Rightarrow> True)"
    by (auto simp: tray_inv_def split: option.split reply_state.split)
  then show ?thesis unfolding c_def Let_def .
qed

text \<open>A restart whose reply never came is reported like one that went well.\<close>

lemma unreachable_restart_looks_fine: "restart_result None = restart_result (Some (mk_message Done [JStr rid, JNull, JNull]))"
  by (simp add: restart_result_def mk_message_def)

end
