(* ===== verification/Task_Sets.thy ===== *)
theory Task_Sets
  imports Host
begin

text \<open>
  \<^verbatim>\<open>tasks.py\<close>, the set of asyncio tasks a component owns, and \<^verbatim>\<open>supervision.py\<close>, the messages to
  the service manager.
\<close>

section \<open>Owned tasks\<close>

text \<open>
  Tasks are numbered in the order they are created. \<open>ts_asked\<close> are the tasks asked to cancel,
  \<open>ts_logged\<close> the failures reported, \<open>ts_ended\<close> the tasks whose callback ran.
\<close>

datatype task_end = Returned | Cancelled | Failed exn

record task_set =
  ts_name :: pystr
  ts_tasks :: "nat list"
  ts_closing :: bool
  ts_next :: nat
  ts_asked :: "nat set"
  ts_ended :: "nat list"
  ts_logged :: "(nat \<times> exn) list"

definition new_task_set :: "pystr \<Rightarrow> task_set" where
  "new_task_set name = \<lparr>ts_name = name, ts_tasks = [], ts_closing = False, ts_next = 0, ts_asked = {},
     ts_ended = [], ts_logged = []\<rparr>"

definition spawn :: "task_set \<Rightarrow> (exn + nat) \<times> task_set" where
  "spawn s =
     (if ts_closing s then (Inl (Foreign ''RuntimeError'' (ts_name s @ '' task set is closing'')), s)
      else (Inr (ts_next s), s\<lparr>ts_tasks := ts_tasks s @ [ts_next s], ts_next := ts_next s + 1\<rparr>))"

text \<open>\<^verbatim>\<open>_finished\<close>: the done callback, which asyncio runs once for each task.\<close>

definition finished :: "nat \<Rightarrow> task_end \<Rightarrow> task_set \<Rightarrow> task_set" where
  "finished t fin s =
     s\<lparr>ts_tasks := removeAll t (ts_tasks s), ts_ended := ts_ended s @ [t],
       ts_logged := (case fin of Failed e \<Rightarrow> ts_logged s @ [(t, e)] | _ \<Rightarrow> ts_logged s)\<rparr>"

text \<open>\<^verbatim>\<open>aclose\<close> up to its wait, and the tasks still there when the wait ends.\<close>

definition begin_close :: "task_set \<Rightarrow> task_set" where
  "begin_close s = s\<lparr>ts_closing := True, ts_asked := ts_asked s \<union> set (ts_tasks s)\<rparr>"

definition ignored_cancellation :: "nat list \<Rightarrow> task_set \<Rightarrow> nat list" where
  "ignored_cancellation asked s = filter (\<lambda>t. t \<in> set (ts_tasks s)) asked"

datatype task_event = Spawn_called | Task_ended nat task_end | Close_called

definition task_step :: "task_set \<Rightarrow> task_event \<Rightarrow> task_set" where
  "task_step s ev =
     (case ev of
        Spawn_called \<Rightarrow> snd (spawn s)
      | Task_ended t fin \<Rightarrow> (if t \<in> set (ts_tasks s) then finished t fin s else s)
      | Close_called \<Rightarrow> begin_close s)"

definition tasks_inv :: "task_set \<Rightarrow> bool" where
  "tasks_inv s \<longleftrightarrow> distinct (ts_tasks s @ ts_ended s) \<and> set (ts_tasks s @ ts_ended s) = {..<ts_next s} \<and>
     (ts_closing s \<longrightarrow> set (ts_tasks s) \<subseteq> ts_asked s) \<and>
     distinct (map fst (ts_logged s)) \<and> set (map fst (ts_logged s)) \<subseteq> set (ts_ended s)"

lemma tasks_inv_spawn [step_intros]: "tasks_inv s \<Longrightarrow> tasks_inv (snd (spawn s))"
  by (auto simp: tasks_inv_def spawn_def)

lemma tasks_inv_finished [step_intros]: "tasks_inv s \<Longrightarrow> t \<in> set (ts_tasks s) \<Longrightarrow> tasks_inv (finished t fin s)"
  by (auto simp: tasks_inv_def finished_def distinct_removeAll split: task_end.split)

lemma tasks_inv_close [step_intros]: "tasks_inv s \<Longrightarrow> tasks_inv (begin_close s)"
  by (auto simp: tasks_inv_def begin_close_def)

interpretation owned_tasks: event_machine task_step tasks_inv
  by unfold_locales (auto simp: task_step_def intro: step_intros split: task_event.split)

lemma closing_stays: "ts_closing s \<Longrightarrow> ts_closing (task_step s ev) \<and> ts_next (task_step s ev) = ts_next s"
  by (auto simp: task_step_def spawn_def finished_def begin_close_def split: task_event.split)

lemma closing_stays_events:
  "ts_closing s \<Longrightarrow> ts_closing (foldl task_step s es) \<and> ts_next (foldl task_step s es) = ts_next s"
  by (induction es rule: rev_induct) (auto simp: closing_stays)

text \<open>
   Every task a component starts is owned until it ends and its failure is logged once; once
  closing has begun no task starts, and every task still running has been asked to cancel.
\<close>

theorem tasks_owned_until_done:
  "let s = foldl task_step (new_task_set name) es; c = task_step s Close_called; s' = foldl task_step c es'
   in set (ts_tasks s) \<union> set (ts_ended s) = {..<ts_next s} \<and> distinct (ts_tasks s @ ts_ended s) \<and>
      distinct (map fst (ts_logged s)) \<and>
      ts_next s' = ts_next s \<and> set (ts_tasks s') \<subseteq> ts_asked s' \<and> fst (spawn s') \<noteq> Inr (ts_next s')"
proof -
  define s where "s = foldl task_step (new_task_set name) es"
  define c where "c = task_step s Close_called"
  define s' where "s' = foldl task_step c es'"
  have "tasks_inv (new_task_set name)" by (simp add: tasks_inv_def new_task_set_def)
  then have inv: "tasks_inv s" unfolding s_def by (rule owned_tasks.inv_events)
  then have "tasks_inv c" unfolding c_def by (rule owned_tasks.inv_event)
  then have inv': "tasks_inv s'" unfolding s'_def by (rule owned_tasks.inv_events)
  have closing: "ts_closing c" "ts_next c = ts_next s" by (simp_all add: c_def task_step_def begin_close_def)
  from closing_stays_events [OF closing(1), of es'] closing(2)
  have "ts_closing s'" "ts_next s' = ts_next s" by (simp_all add: s'_def)
  with inv inv' have "set (ts_tasks s) \<union> set (ts_ended s) = {..<ts_next s} \<and> distinct (ts_tasks s @ ts_ended s) \<and>
      distinct (map fst (ts_logged s)) \<and>
      ts_next s' = ts_next s \<and> set (ts_tasks s') \<subseteq> ts_asked s' \<and> fst (spawn s') \<noteq> Inr (ts_next s')"
    by (simp add: tasks_inv_def spawn_def)
  then show ?thesis unfolding s_def c_def s'_def Let_def .
qed

section \<open>The service manager\<close>

type_synonym manager_env = "pystr \<rightharpoonup> pystr"

text \<open>\<^verbatim>\<open>notify\<close>; \<open>datagram\<close> sends a text to a socket address and may raise an \<^verbatim>\<open>OSError\<close>.\<close>

definition notify_address :: "pystr \<Rightarrow> pystr" where
  "notify_address address =
     (case address of c # cs \<Rightarrow> if c = CHR ''@'' then CHR 0x00 # cs else address | [] \<Rightarrow> [])"

definition notify :: "(pystr \<Rightarrow> pystr \<Rightarrow> ('w, unit) act) \<Rightarrow> manager_env \<Rightarrow> pystr \<Rightarrow> ('w, bool) act" where
  "notify datagram env msg w =
     (let address = the_default [] (env ''NOTIFY_SOCKET'')
      in if address = [] then (Inr False, w)
         else (case datagram (notify_address address) msg w of
             (Inr _, w') \<Rightarrow> (Inr True, w')
           | (Inl e, w') \<Rightarrow> (if is_os_error e then Inr False else Inl e, w')))"

definition watchdog_interval :: "manager_env \<Rightarrow> int \<Rightarrow> real option" where
  "watchdog_interval env pid =
     (case (py_int (the_default ''0'' (env ''WATCHDOG_USEC'')),
            case env ''WATCHDOG_PID'' of None \<Rightarrow> Some pid | Some t \<Rightarrow> py_int t) of
        (Some usec, Some owner) \<Rightarrow>
          (if usec \<le> 0 \<or> owner \<noteq> pid then None else Some (max (1 / 10) (real_of_int usec / 2000000)))
      | _ \<Rightarrow> None)"

text \<open>
   The daemon sends heartbeats exactly when the service manager asked this process for them with
  a positive period, and then twice per period unless the period is below 0.2 seconds.
\<close>

theorem heartbeat_in_time:
  "case watchdog_interval env pid of
     Some i \<Rightarrow> (\<exists>usec. py_int (the_default ''0'' (env ''WATCHDOG_USEC'')) = Some usec \<and> 0 < usec \<and>
       1 / 10 \<le> i \<and> (real_of_int usec / 1000000 < 2 / 10 \<and> i = 1 / 10 \<or> 2 * i = real_of_int usec / 1000000)) \<and>
       (\<forall>t. env ''WATCHDOG_PID'' = Some t \<longrightarrow> py_int t = Some pid)
   | None \<Rightarrow> py_int (the_default ''0'' (env ''WATCHDOG_USEC'')) = None \<or>
       (\<exists>usec \<le> 0. py_int (the_default ''0'' (env ''WATCHDOG_USEC'')) = Some usec) \<or>
       (\<exists>t. env ''WATCHDOG_PID'' = Some t \<and> py_int t \<noteq> Some pid)"
  by (auto simp: watchdog_interval_def max_def split: option.split)

text \<open>With a period of less than 0.1 seconds the heartbeat is slower than the period.\<close>

lemma short_watchdog_missed:
  "py_int t = Some usec \<Longrightarrow> 0 < usec \<Longrightarrow> usec < 100000 \<Longrightarrow>
     \<exists>i. watchdog_interval [''WATCHDOG_USEC'' \<mapsto> t] pid = Some i \<and> real_of_int usec / 1000000 < i"
  by (rule exI [of _ "1 / 10"]) (simp add: watchdog_interval_def max_def)

end
