(* ===== verification/Monitors.thy ===== *)
theory Monitors
  imports Task_Sets Handlers Web_Guard
begin

text \<open>
  \<^verbatim>\<open>monitors.py\<close>: the loops that poll a command, the subscriptions to D-Bus signals, and the
  alerts they raise. The loops interleave where they await, so a run is a list of the steps
  between; what a command prints and whether an alert could be sent are part of the steps.
\<close>

definition MIN_INTERVAL :: int where "MIN_INTERVAL = 10"
definition MAX_CONCURRENT_POLLS :: nat where "MAX_CONCURRENT_POLLS = 4"

section \<open>Alerts\<close>

text \<open>A monitor of a module with its two functions, which are Python code of the module.\<close>

record watcher =
  wt_module :: pystr
  wt_decl :: monitor_decl
  wt_trigger :: "pystr \<Rightarrow> exn + bool"
  wt_filter :: "(json list \<Rightarrow> exn + bool) option"

text \<open>\<^verbatim>\<open>_run\<close> on the outcome of \<^verbatim>\<open>subprocess.check_output\<close>.\<close>

definition poll_output :: "exn + pystr \<Rightarrow> pystr" where
  "poll_output r = (case r of Inl e \<Rightarrow> ''(error: '' @ str_exn e @ '')'' | Inr out \<Rightarrow> strip out)"

definition alert_text :: "watcher \<Rightarrow> pystr \<Rightarrow> pystr" where
  "alert_text m detail = strip (''['' @ wt_module m @ ''] '' @ mn_name (wt_decl m) @ '': '' @ detail)"

text \<open>\<^verbatim>\<open>_fire\<close>: the alert is stored and broadcast.\<close>

definition fire_alert :: "'w services \<Rightarrow> watcher \<Rightarrow> pystr \<Rightarrow> ('w daemon, unit) act" where
  "fire_alert sv m detail =
     monitor_event sv (''monitor.'' @ mn_name (wt_decl m)) (mn_severity (wt_decl m)) (alert_text m detail)"

section \<open>Signals\<close>

record dbus_message =
  dm_is_signal :: bool
  dm_interface :: pystr
  dm_member :: pystr
  dm_body :: "json list"

definition summarize_body :: "py_texts \<Rightarrow> json list \<Rightarrow> pystr" where
  "summarize_body py body =
     (if body = [] then ''signal received'' else join '' '' (map (py_str py) (take 4 body)))"

text \<open>The message handler: the detail of the alert to raise, if any.\<close>

definition on_signal :: "py_texts \<Rightarrow> watcher \<Rightarrow> dbus_message \<Rightarrow> exn + pystr option" where
  "on_signal py m msg =
     (if \<not> dm_is_signal msg then Inr None
      else if dm_interface msg \<noteq> mn_interface (wt_decl m) \<or> dm_member msg \<noteq> mn_signal (wt_decl m) then Inr None
      else (case wt_filter m of
          None \<Rightarrow> Inr (Some (summarize_body py (dm_body msg)))
        | Some f \<Rightarrow>
            (case f (dm_body msg) of
               Inl e \<Rightarrow> Inl e
             | Inr accepted \<Rightarrow> Inr (if accepted then Some (summarize_body py (dm_body msg)) else None))))"

definition match_rule :: "monitor_decl \<Rightarrow> pystr" where
  "match_rule m =
     (let quote = [CHR 0x27]
      in ''type='' @ quote @ ''signal'' @ quote @ '',interface='' @ quote @ mn_interface m @ quote
         @ '',member='' @ quote @ mn_signal m @ quote)"

section \<open>The loops\<close>

text \<open>
  A loop sleeps, waits for a place among the running polls, runs its command, and maybe raises
  an alert. \<open>mo_since\<close> is when its sleep began; \<open>mo_polls\<close> are the commands started, latest
  first; \<open>mo_alerts\<close> the alerts of all monitors in order.
\<close>

datatype loop_phase = Sleeping | Queued | Polling | Alerting

record runner =
  mo_now :: real
  mo_phase :: "nat \<Rightarrow> loop_phase"
  mo_since :: "nat \<Rightarrow> real"
  mo_free :: nat
  mo_polls :: "(nat \<times> real) list"
  mo_alerts :: "(nat \<times> pystr) list"
  mo_warned :: "(nat \<times> exn) list"

definition new_runner :: "real \<Rightarrow> runner" where
  "new_runner t = \<lparr>mo_now = t, mo_phase = (\<lambda>_. Sleeping), mo_since = (\<lambda>_. t), mo_free = MAX_CONCURRENT_POLLS,
     mo_polls = [], mo_alerts = [], mo_warned = []\<rparr>"

text \<open>The monitors of the modules in the order \<^verbatim>\<open>start\<close> spawns their tasks.\<close>

definition is_started :: "monitor_decl \<Rightarrow> bool" where
  "is_started m \<longleftrightarrow> mn_source m = ''poll'' \<or> mn_source m = ''dbus''"

definition started :: "module list \<Rightarrow> (module \<times> monitor_decl) list" where
  "started mods = concat (map (\<lambda>md. map (Pair md) (filter is_started (md_monitors md))) mods)"

definition runner_health :: "module list \<Rightarrow> nat \<Rightarrow> json" where
  "runner_health mods active =
     JObj [(''configured'', JInt (int (sum_list (map (\<lambda>md. length (md_monitors md)) mods)))),
       (''active_tasks'', JInt (int active))]"

definition poll_interval :: "watcher \<Rightarrow> real" where
  "poll_interval m = real_of_int (max (mn_interval (wt_decl m)) MIN_INTERVAL)"

definition sleep_again :: "nat \<Rightarrow> runner \<Rightarrow> runner" where
  "sleep_again i r = r\<lparr>mo_phase := (mo_phase r)(i := Sleeping), mo_since := (mo_since r)(i := mo_now r)\<rparr>"

definition wake :: "watcher \<Rightarrow> nat \<Rightarrow> runner \<Rightarrow> runner" where
  "wake m i r =
     (if mo_phase r i = Sleeping \<and> mo_since r i + poll_interval m \<le> mo_now r
      then r\<lparr>mo_phase := (mo_phase r)(i := Queued)\<rparr> else r)"

definition start_poll :: "nat \<Rightarrow> runner \<Rightarrow> runner" where
  "start_poll i r =
     (if mo_phase r i = Queued \<and> 0 < mo_free r
      then r\<lparr>mo_phase := (mo_phase r)(i := Polling), mo_free := mo_free r - 1, mo_polls := (i, mo_now r) # mo_polls r\<rparr>
      else r)"

text \<open>The command ended: the place is given back and the trigger asked. What it raises is logged.\<close>

definition end_poll :: "watcher \<Rightarrow> nat \<Rightarrow> exn + pystr \<Rightarrow> runner \<Rightarrow> runner" where
  "end_poll m i result r =
     (if mo_phase r i \<noteq> Polling then r
      else (let r = r\<lparr>mo_free := mo_free r + 1\<rparr>; out = poll_output result
            in case wt_trigger m out of
                 Inl e \<Rightarrow> sleep_again i (r\<lparr>mo_warned := mo_warned r @ [(i, e)]\<rparr>)
               | Inr True \<Rightarrow> r\<lparr>mo_phase := (mo_phase r)(i := Alerting), mo_alerts := mo_alerts r @ [(i, out)]\<rparr>
               | Inr False \<Rightarrow> sleep_again i r))"

definition end_alert :: "nat \<Rightarrow> exn + unit \<Rightarrow> runner \<Rightarrow> runner" where
  "end_alert i result r =
     (if mo_phase r i \<noteq> Alerting then r
      else sleep_again i (case result of Inl e \<Rightarrow> r\<lparr>mo_warned := mo_warned r @ [(i, e)]\<rparr> | Inr _ \<Rightarrow> r))"

definition receive_signal :: "py_texts \<Rightarrow> watcher \<Rightarrow> nat \<Rightarrow> dbus_message \<Rightarrow> runner \<Rightarrow> runner" where
  "receive_signal py m i msg r =
     (case on_signal py m msg of
        Inr (Some detail) \<Rightarrow> r\<lparr>mo_alerts := mo_alerts r @ [(i, detail)]\<rparr>
      | _ \<Rightarrow> r)"

datatype monitor_step =
    Time_passes real | Wakes nat | Takes_place nat | Command_ended nat "exn + pystr" | Alert_sent nat "exn + unit"
  | Signal_came nat dbus_message

definition is_poll :: "watcher list \<Rightarrow> nat \<Rightarrow> bool" where
  "is_poll ms i \<longleftrightarrow> i < length ms \<and> mn_source (wt_decl (ms ! i)) = ''poll''"

definition is_dbus :: "watcher list \<Rightarrow> nat \<Rightarrow> bool" where
  "is_dbus ms i \<longleftrightarrow> i < length ms \<and> mn_source (wt_decl (ms ! i)) = ''dbus''"

definition runner_step :: "py_texts \<Rightarrow> watcher list \<Rightarrow> runner \<Rightarrow> monitor_step \<Rightarrow> runner" where
  "runner_step py ms r ev =
     (case ev of
        Time_passes d \<Rightarrow> (if 0 < d then r\<lparr>mo_now := mo_now r + d\<rparr> else r)
      | Wakes i \<Rightarrow> (if is_poll ms i then wake (ms ! i) i r else r)
      | Takes_place i \<Rightarrow> (if is_poll ms i then start_poll i r else r)
      | Command_ended i out \<Rightarrow> (if is_poll ms i then end_poll (ms ! i) i out r else r)
      | Alert_sent i res \<Rightarrow> (if is_poll ms i then end_alert i res r else r)
      | Signal_came i msg \<Rightarrow> (if is_dbus ms i then receive_signal py (ms ! i) i msg r else r))"

section \<open>The invariant\<close>

definition running_polls :: "watcher list \<Rightarrow> runner \<Rightarrow> nat set" where
  "running_polls ms r = {i. is_poll ms i \<and> mo_phase r i = Polling}"

definition polls_of :: "nat \<Rightarrow> runner \<Rightarrow> real list" where
  "polls_of i r = map snd (filter (\<lambda>p. fst p = i) (mo_polls r))"

definition loop_ok :: "watcher list \<Rightarrow> runner \<Rightarrow> nat \<Rightarrow> bool" where
  "loop_ok ms r i \<longleftrightarrow>
     sorted_wrt (\<lambda>later earlier. earlier + poll_interval (ms ! i) \<le> later) (polls_of i r) \<and>
     (\<forall>t \<in> set (polls_of i r). t \<le> mo_now r \<and> (mo_phase r i = Sleeping \<longrightarrow> t \<le> mo_since r i) \<and>
        (mo_phase r i = Queued \<longrightarrow> t + poll_interval (ms ! i) \<le> mo_now r))"

definition justified :: "py_texts \<Rightarrow> watcher list \<Rightarrow> nat \<times> pystr \<Rightarrow> bool" where
  "justified py ms a \<longleftrightarrow>
     (let m = ms ! fst a
      in is_poll ms (fst a) \<and> wt_trigger m (snd a) = Inr True \<or>
         is_dbus ms (fst a) \<and> (\<exists>msg. on_signal py m msg = Inr (Some (snd a))))"

definition runner_inv :: "py_texts \<Rightarrow> watcher list \<Rightarrow> runner \<Rightarrow> bool" where
  "runner_inv py ms r \<longleftrightarrow> mo_free r + card (running_polls ms r) = MAX_CONCURRENT_POLLS \<and>
     (\<forall>i. is_poll ms i \<longrightarrow> loop_ok ms r i) \<and> list_all (justified py ms) (mo_alerts r)"

lemma finite_running [simp]: "finite (running_polls ms r)"
  by (rule finite_subset [of _ "{..<length ms}"]) (auto simp: running_polls_def is_poll_def)

lemma running_update:
  "running_polls ms (r\<lparr>mo_phase := (mo_phase r)(i := p)\<rparr>) =
     (if p = Polling \<and> is_poll ms i then insert i (running_polls ms r) else running_polls ms r - {i})"
  by (auto simp: running_polls_def)

lemma running_same [simp]:
  "running_polls ms (r\<lparr>mo_now := t\<rparr>) = running_polls ms r"
  "running_polls ms (r\<lparr>mo_since := f\<rparr>) = running_polls ms r"
  "running_polls ms (r\<lparr>mo_free := n\<rparr>) = running_polls ms r"
  "running_polls ms (r\<lparr>mo_polls := ps\<rparr>) = running_polls ms r"
  "running_polls ms (r\<lparr>mo_alerts := al\<rparr>) = running_polls ms r"
  "running_polls ms (r\<lparr>mo_warned := wl\<rparr>) = running_polls ms r"
  by (simp_all add: running_polls_def)

lemma polls_of_same [simp]:
  "polls_of i (r\<lparr>mo_now := t\<rparr>) = polls_of i r" "polls_of i (r\<lparr>mo_since := f\<rparr>) = polls_of i r"
  "polls_of i (r\<lparr>mo_free := n\<rparr>) = polls_of i r" "polls_of i (r\<lparr>mo_phase := p\<rparr>) = polls_of i r"
  "polls_of i (r\<lparr>mo_alerts := al\<rparr>) = polls_of i r" "polls_of i (r\<lparr>mo_warned := wl\<rparr>) = polls_of i r"
  "polls_of i (r\<lparr>mo_polls := (j, t) # ps\<rparr>) = (if i = j then t # polls_of i (r\<lparr>mo_polls := ps\<rparr>) else polls_of i (r\<lparr>mo_polls := ps\<rparr>))"
  by (simp_all add: polls_of_def)

lemma runner_invI:
  "mo_free r + card (running_polls ms r) = MAX_CONCURRENT_POLLS \<Longrightarrow> (\<And>i. is_poll ms i \<Longrightarrow> loop_ok ms r i) \<Longrightarrow>
     list_all (justified py ms) (mo_alerts r) \<Longrightarrow> runner_inv py ms r"
  by (simp add: runner_inv_def)

lemma runner_invD:
  assumes "runner_inv py ms r"
  shows "mo_free r + card (running_polls ms r) = MAX_CONCURRENT_POLLS" "is_poll ms i \<Longrightarrow> loop_ok ms r i"
    "list_all (justified py ms) (mo_alerts r)"
  using assms by (simp_all add: runner_inv_def)

lemma loop_ok_other:
  "polls_of i r' = polls_of i r \<Longrightarrow> mo_phase r' i = mo_phase r i \<Longrightarrow> mo_since r' i = mo_since r i \<Longrightarrow>
     mo_now r' = mo_now r \<Longrightarrow> loop_ok ms r i \<Longrightarrow> loop_ok ms r' i"
  by (simp add: loop_ok_def)

lemma inv_time [step_intros]: "runner_inv py ms r \<Longrightarrow> 0 < d \<Longrightarrow> runner_inv py ms (r\<lparr>mo_now := mo_now r + d\<rparr>)"
proof (rule runner_invI)
  assume inv: "runner_inv py ms r" and "0 < d"
  show "mo_free (r\<lparr>mo_now := mo_now r + d\<rparr>) + card (running_polls ms (r\<lparr>mo_now := mo_now r + d\<rparr>)) = MAX_CONCURRENT_POLLS"
    using runner_invD(1) [OF inv] by simp
  show "loop_ok ms (r\<lparr>mo_now := mo_now r + d\<rparr>) i" if "is_poll ms i" for i
    using runner_invD(2) [OF inv that] \<open>0 < d\<close> by (force simp: loop_ok_def)
qed (use runner_invD(3) in auto)

lemma loop_ok_wake: "is_poll ms i \<Longrightarrow> loop_ok ms r i \<Longrightarrow> loop_ok ms (wake (ms ! j) j r) i"
  by (force simp: loop_ok_def wake_def)

lemma inv_wake [step_intros]: "runner_inv py ms r \<Longrightarrow> runner_inv py ms (wake (ms ! i) i r)"
proof (rule runner_invI)
  assume inv: "runner_inv py ms r"
  have "running_polls ms (wake (ms ! i) i r) = running_polls ms r"
    by (auto simp: wake_def running_update running_polls_def)
  with runner_invD(1) [OF inv] show "mo_free (wake (ms ! i) i r) + card (running_polls ms (wake (ms ! i) i r)) = MAX_CONCURRENT_POLLS"
    by (simp add: wake_def)
  show "list_all (justified py ms) (mo_alerts (wake (ms ! i) i r))"
    using runner_invD(3) [OF inv] by (simp add: wake_def)
qed (auto dest: runner_invD(2) intro: loop_ok_wake)

lemma loop_ok_start:
  "loop_ok ms r i \<Longrightarrow> loop_ok ms (start_poll j r) i"
  by (force simp: loop_ok_def start_poll_def)

lemma inv_start [step_intros]:
  assumes inv: "runner_inv py ms r" and "is_poll ms i"
  shows "runner_inv py ms (start_poll i r)"
proof (rule runner_invI)
  have "i \<notin> running_polls ms r" if "mo_phase r i = Queued" using that by (simp add: running_polls_def)
  then show "mo_free (start_poll i r) + card (running_polls ms (start_poll i r)) = MAX_CONCURRENT_POLLS"
    using runner_invD(1) [OF inv] assms(2) by (auto simp: start_poll_def running_update)
  show "list_all (justified py ms) (mo_alerts (start_poll i r))"
    using runner_invD(3) [OF inv] by (simp add: start_poll_def)
qed (auto dest: runner_invD(2) [OF inv] intro: loop_ok_start)

text \<open>Going back to sleep, from any phase but the running of the command.\<close>

lemma loop_ok_sleep: "loop_ok ms r i \<Longrightarrow> loop_ok ms (sleep_again j r) i"
  by (force simp: loop_ok_def sleep_again_def)

lemma running_end:
  assumes "runner_inv py ms r" "is_poll ms i" "mo_phase r i = Polling"
  shows "Suc (mo_free r) + card (running_polls ms r - {i}) = MAX_CONCURRENT_POLLS"
proof -
  have "i \<in> running_polls ms r" using assms(2,3) by (simp add: running_polls_def)
  then have "card (running_polls ms r) = Suc (card (running_polls ms r - {i}))" using card_Suc_Diff1 [of "running_polls ms r" i] by (simp del: card_Diff_insert)
  with runner_invD(1) [OF assms(1)] show ?thesis by simp
qed

lemma inv_end_poll [step_intros]:
  assumes inv: "runner_inv py ms r" and i: "is_poll ms i"
  shows "runner_inv py ms (end_poll (ms ! i) i result r)"
proof (cases "mo_phase r i = Polling")
  case True
  let ?r = "end_poll (ms ! i) i result r"
  have "running_polls ms ?r = running_polls ms r - {i} \<and> mo_free ?r = Suc (mo_free r)"
    using True by (auto simp: end_poll_def Let_def sleep_again_def running_polls_def split: sum.split bool.split)
  moreover have "loop_ok ms ?r j" if "loop_ok ms r j" for j
    using that True by (force simp: end_poll_def Let_def loop_ok_def sleep_again_def split: sum.split bool.split)
  moreover have "list_all (justified py ms) (mo_alerts ?r)"
    using runner_invD(3) [OF inv] True i
    by (auto simp: end_poll_def Let_def sleep_again_def justified_def split: sum.split bool.split)
  ultimately show ?thesis
    using running_end [OF inv i True] runner_invD(2) [OF inv] by (auto intro!: runner_invI)
next
  case False
  with inv show ?thesis by (simp add: end_poll_def)
qed

lemma inv_end_alert [step_intros]:
  assumes inv: "runner_inv py ms r"
  shows "runner_inv py ms (end_alert i result r)"
proof (cases "mo_phase r i = Alerting")
  case True
  let ?r = "end_alert i result r"
  have "i \<notin> running_polls ms r" using True by (simp add: running_polls_def)
  then have "running_polls ms ?r = running_polls ms r \<and> mo_free ?r = mo_free r \<and> mo_alerts ?r = mo_alerts r"
    using True by (auto simp: end_alert_def sleep_again_def running_polls_def split: sum.split)
  moreover have "loop_ok ms ?r j" if "loop_ok ms r j" for j
    using that True by (auto simp: end_alert_def intro!: loop_ok_sleep split: sum.split elim: loop_ok_other [rotated -1])
  ultimately show ?thesis using runner_invD [OF inv] by (auto intro!: runner_invI)
next
  case False
  with inv show ?thesis by (simp add: end_alert_def)
qed

lemma inv_signal [step_intros]:
  assumes inv: "runner_inv py ms r" and "is_dbus ms i"
  shows "runner_inv py ms (receive_signal py (ms ! i) i msg r)"
proof (rule runner_invI)
  show "list_all (justified py ms) (mo_alerts (receive_signal py (ms ! i) i msg r))"
    using runner_invD(3) [OF inv] assms(2)
    by (auto simp: receive_signal_def justified_def Let_def split: sum.split option.split)
  show "loop_ok ms (receive_signal py (ms ! i) i msg r) j" if "is_poll ms j" for j
    using runner_invD(2) [OF inv that]
    by (auto simp: receive_signal_def split: sum.split option.split elim: loop_ok_other [rotated -1])
qed (use runner_invD(1) [OF inv] in \<open>auto simp: receive_signal_def split: sum.split option.split\<close>)

interpretation monitor_loops: event_machine "runner_step py ms" "runner_inv py ms" for py ms
  by unfold_locales (auto simp: runner_step_def intro: step_intros split: monitor_step.split)


end
