(* ===== verification/Builtin_Modules.thy ===== *)
theory Builtin_Modules
  imports Monitors Routing
begin

text \<open>
  The modules shipped with the program: \<^verbatim>\<open>builtins/\<close>, which are always loaded, and the package
  \<^verbatim>\<open>contrib/nixadmin-extras\<close>, which is discovered like any other. Each is a manifest: fixed shell
  commands with their descriptions, and monitors whose two functions are given beside it.
\<close>

section \<open>Built-in modules\<close>

definition apps_module :: module where
  \<open>apps_module = \<lparr>md_spec_version = SPEC_VERSION, md_name = ''apps'',
    md_description = ''installed applications, packages, software, programs, tools, what is installed, do I have'',
    md_fetchers = [
    \<lparr>ft_name = ''list'',
      ft_cmd = ''nixadmin-apps'',
      ft_description = ''List of installed Nix packages and Flatpak apps'',
      ft_timeout = 15, ft_expose = True\<rparr>],
    md_monitors = [],
    md_context = None, md_routing = Route_auto\<rparr>\<close>

definition network_module :: module where
  \<open>network_module = \<lparr>md_spec_version = SPEC_VERSION, md_name = ''network'',
    md_description = ''wifi, wireless, network, internet, connectivity, online, IP address, ping, DNS, ethernet,''
      @ '' connection'',
    md_fetchers = [
    \<lparr>ft_name = ''wifi'',
      ft_cmd = ''nmcli -f active,ssid,signal,state dev wifi'',
      ft_description = ''Current Wi-Fi connection, signal strength and state'',
      ft_timeout = 15, ft_expose = True\<rparr>,
    \<lparr>ft_name = ''ping'',
      ft_cmd = ''ping -c 2 8.8.8.8'',
      ft_description = ''Basic internet reachability test'',
      ft_timeout = 15, ft_expose = True\<rparr>],
    md_monitors = [
    \<lparr>mn_name = ''network-state-changed'', mn_source = ''dbus'', mn_severity = ''warning'',
      mn_cmd = [], mn_interval = 60, mn_has_trigger = False,
      mn_bus = ''system'', mn_interface = ''org.freedesktop.NetworkManager'', mn_signal = ''StateChanged'', mn_has_filter = False\<rparr>],
    md_context = None, md_routing = Route_auto\<rparr>\<close>

definition disk_module :: module where
  \<open>disk_module = \<lparr>md_spec_version = SPEC_VERSION, md_name = ''disk'',
    md_description = ''disk space, storage, free space, full, filesystem, drive, partition, mount, how much space'',
    md_fetchers = [
    \<lparr>ft_name = ''usage'',
      ft_cmd = ''df -h'',
      ft_description = ''Disk usage per filesystem'',
      ft_timeout = 15, ft_expose = True\<rparr>,
    \<lparr>ft_name = ''layout'',
      ft_cmd = ''lsblk'',
      ft_description = ''Block devices and partition layout'',
      ft_timeout = 15, ft_expose = True\<rparr>],
    md_monitors = [
    \<lparr>mn_name = ''disk-full'', mn_source = ''poll'', mn_severity = ''warning'',
      mn_cmd = ''df / --output=pcent | tail -1 | tr -d '% '' @ [CHR 0x27], mn_interval = 300, mn_has_trigger = True,
      mn_bus = ''system'', mn_interface = [], mn_signal = [], mn_has_filter = False\<rparr>],
    md_context = None, md_routing = Route_auto\<rparr>\<close>

definition FAILED_UNITS_CMD :: pystr where
  \<open>FAILED_UNITS_CMD = [newline] @ ''sys=$(systemctl --failed --plain --no-legend --no-pager 2>/dev/null | awk '{print $1}')''
    @ [newline]
    @ ''usr=$(systemctl --user --failed --plain --no-legend --no-pager 2>/dev/null | awk '{print $1}')''
    @ [newline] @ ''if [ -z "$sys$usr" ]; then echo "No failed units (system or user)."; fi'' @ [newline]
    @ ''for u in $sys; do'' @ [newline] @ ''  echo "### FAILED (system): $u"'' @ [newline]
    @ ''  journalctl -u "$u" -b --no-pager -n 15 -o cat 2>/dev/null || echo "(no log access)"'' @ [newline]
    @ ''  echo'' @ [newline] @ ''done'' @ [newline] @ ''for u in $usr; do'' @ [newline]
    @ ''  echo "### FAILED (user): $u"'' @ [newline]
    @ ''  journalctl --user -u "$u" -b --no-pager -n 15 -o cat 2>/dev/null'' @ [newline] @ ''  echo'' @ [newline]
    @ ''done'' @ [newline]\<close>

definition services_module :: module where
  \<open>services_module = \<lparr>md_spec_version = SPEC_VERSION, md_name = ''services'',
    md_description = ''running services, systemd, daemons, failed units, errors, is anything wrong, something crashed,''
      @ '' background processes, startup'',
    md_fetchers = [
    \<lparr>ft_name = ''failed'',
      ft_cmd = FAILED_UNITS_CMD,
      ft_description = ''Failed systemd services (system and user), each with the tail of its journal explaining why it''
        @ '' failed'',
      ft_timeout = 15, ft_expose = True\<rparr>],
    md_monitors = [
    \<lparr>mn_name = ''service-failed'', mn_source = ''dbus'', mn_severity = ''error'',
      mn_cmd = [], mn_interval = 60, mn_has_trigger = False,
      mn_bus = ''system'', mn_interface = ''org.freedesktop.systemd1.Manager'', mn_signal = ''JobRemoved'', mn_has_filter = True\<rparr>],
    md_context = None, md_routing = Route_auto\<rparr>\<close>

definition BUILTIN_MODULES :: "module list" where
  "BUILTIN_MODULES = [apps_module, network_module, disk_module, services_module]"

lemmas builtin_defs = BUILTIN_MODULES_def apps_module_def network_module_def disk_module_def services_module_def

text \<open>\<^verbatim>\<open>int(output.strip()) > 90\<close>, false when that raises; and the filter on a finished systemd job.\<close>

definition root_over_90 :: "pystr \<Rightarrow> bool" where
  "root_over_90 out = (case py_int (strip out) of Some n \<Rightarrow> 90 < n | None \<Rightarrow> False)"

definition job_failed :: "json list \<Rightarrow> bool" where
  "job_failed args \<longleftrightarrow> 4 \<le> length args \<and> args ! 3 = JStr ''failed''"

section \<open>Extra modules\<close>

definition bluetooth_module :: module where
  \<open>bluetooth_module = \<lparr>md_spec_version = SPEC_VERSION, md_name = ''bluetooth'',
    md_description = ''bluetooth, headphones, earbuds, speaker, wireless mouse, wireless keyboard, paired device,''
      @ '' connected device, is bluetooth on'',
    md_fetchers = [
    \<lparr>ft_name = ''adapter'',
      ft_cmd = ''bluetoothctl show 2>/dev/null | grep -E 'Name|Powered|Discovering' || rfkill list bluetooth'',
      ft_description = ''Bluetooth adapter name and power state'',
      ft_timeout = 15, ft_expose = True\<rparr>,
    \<lparr>ft_name = ''connected'',
      ft_cmd = ''bluetoothctl devices Connected 2>/dev/null'',
      ft_description = ''Currently connected bluetooth devices'',
      ft_timeout = 15, ft_expose = True\<rparr>],
    md_monitors = [],
    md_context = None, md_routing = Route_auto\<rparr>\<close>

definition COSMIC_STATE :: pystr where
  \<open>COSMIC_STATE = [newline] @ ''echo "# Running COSMIC processes:"'' @ [newline]
    @ ''pgrep -fa 'cosmic-' 2>/dev/null | grep -v pgrep || echo "(none)"'' @ [newline] @ ''echo'' @ [newline]
    @ ''echo "# COSMIC systemd units:"'' @ [newline]
    @ ''systemctl --user list-units 'cosmic*' --all --no-pager 2>/dev/null | head -30'' @ [newline] @ ''echo''
    @ [newline] @ ''echo "# Declared cosmic-session components:"'' @ [newline]
    @ ''systemctl --user list-dependencies cosmic-session.target --no-pager 2>/dev/null | head -30'' @ [newline]\<close>

definition RECENT_ERRORS :: pystr where
  \<open>RECENT_ERRORS = [newline] @ ''echo "# System error-level logs this boot:"'' @ [newline]
    @ ''journalctl -p 3 -b --no-pager -o cat 2>/dev/null | tail -15 || echo "(no access)"'' @ [newline] @ ''echo''
    @ [newline] @ ''echo "# User error-level logs this boot:"'' @ [newline]
    @ ''journalctl --user -p 3 -b --no-pager -o cat 2>/dev/null | tail -15'' @ [newline]\<close>

definition REBUILD_SKEW :: pystr where
  \<open>REBUILD_SKEW = [newline] @ ''if [ "$(readlink /run/booted-system)" != "$(readlink /run/current-system)" ]; then'' @ [newline]
    @ ''  echo "REBUILT SINCE BOOT: the system was rebuilt while running. Apps that restart"'' @ [newline]
    @ ''  echo "may fail to render (EGL) until you log out and back in, or reboot."'' @ [newline] @ ''else''
    @ [newline] @ ''  echo "No rebuild since boot."'' @ [newline] @ ''fi'' @ [newline]\<close>

definition health_module :: module where
  \<open>health_module = \<lparr>md_spec_version = SPEC_VERSION, md_name = ''health'',
    md_description = ''is anything wrong, something broke, is everything ok, what's wrong, diagnose, health check, my''
      @ '' bar disappeared, dock gone, panel missing, desktop broken, something crashed, why did X''
      @ '' vanish, problems, errors'',
    md_fetchers = [
    \<lparr>ft_name = ''cosmic_state'',
      ft_cmd = COSMIC_STATE,
      ft_description = ''Live state of the COSMIC desktop: running processes, units, and the session's declared'' @ '' components'',
      ft_timeout = 15, ft_expose = True\<rparr>,
    \<lparr>ft_name = ''failed_units'',
      ft_cmd = FAILED_UNITS_CMD,
      ft_description = ''Failed systemd services (system and user), each with the tail of its journal explaining why it''
        @ '' failed'',
      ft_timeout = 15, ft_expose = True\<rparr>,
    \<lparr>ft_name = ''recent_errors'',
      ft_cmd = RECENT_ERRORS,
      ft_description = ''Recent error-level log messages this boot (system and user)'',
      ft_timeout = 15, ft_expose = True\<rparr>,
    \<lparr>ft_name = ''coredumps'',
      ft_cmd = (''coredumpctl list --since -2h --no-pager 2>/dev/null | tail -10 || echo 'none'' @ [CHR 0x27]),
      ft_description = ''Programs that crashed in the last 2 hours'',
      ft_timeout = 15, ft_expose = True\<rparr>,
    \<lparr>ft_name = ''rebuild_skew'',
      ft_cmd = REBUILD_SKEW,
      ft_description = ''Whether a rebuild since boot may have broken graphics rendering'',
      ft_timeout = 15, ft_expose = True\<rparr>],
    md_monitors = [],
    md_context = None, md_routing = Route_auto\<rparr>\<close>

definition performance_module :: module where
  \<open>performance_module = \<lparr>md_spec_version = SPEC_VERSION, md_name = ''performance'',
    md_description = ''slow, sluggish, lagging, frozen, performance, why is it slow, what is using my CPU, what is''
      @ '' using my memory, high usage, busy, load'',
    md_fetchers = [
    \<lparr>ft_name = ''load'',
      ft_cmd = ''uptime'',
      ft_description = ''System load average over 1, 5 and 15 minutes'',
      ft_timeout = 15, ft_expose = True\<rparr>,
    \<lparr>ft_name = ''top_cpu'',
      ft_cmd = ''ps -eo pid,comm,pcpu --sort=-pcpu | head -6'',
      ft_description = ''Processes using the most CPU'',
      ft_timeout = 15, ft_expose = True\<rparr>,
    \<lparr>ft_name = ''top_mem'',
      ft_cmd = ''ps -eo pid,comm,pmem --sort=-pmem | head -6'',
      ft_description = ''Processes using the most memory'',
      ft_timeout = 15, ft_expose = True\<rparr>],
    md_monitors = [],
    md_context = None, md_routing = Route_auto\<rparr>\<close>

definition power_module :: module where
  \<open>power_module = \<lparr>md_spec_version = SPEC_VERSION, md_name = ''power'',
    md_description = ''battery, charge, charging, plugged in, power, battery health, how much battery left, AC''
      @ '' adapter, on battery'',
    md_fetchers = [
    \<lparr>ft_name = ''battery'',
      ft_cmd = (''for b in /sys/class/power_supply/BAT*; do [ -e $b/capacity ] && echo $(basename $b): $(cat''
        @ '' $b/capacity)% $(cat $b/status); done 2>/dev/null; for a in /sys/class/power_supply/A*/online;''
        @ '' do [ -e $a ] && echo AC online: $(cat $a); done 2>/dev/null''),
      ft_description = ''Battery charge level, charging state, and AC adapter status'',
      ft_timeout = 15, ft_expose = True\<rparr>],
    md_monitors = [
    \<lparr>mn_name = ''battery-low'', mn_source = ''poll'', mn_severity = ''warning'',
      mn_cmd = ''cat /sys/class/power_supply/BAT*/capacity 2>/dev/null | head -1 || echo 100'', mn_interval = 120, mn_has_trigger = True,
      mn_bus = ''system'', mn_interface = [], mn_signal = [], mn_has_filter = False\<rparr>],
    md_context = None, md_routing = Route_auto\<rparr>\<close>

definition security_module :: module where
  \<open>security_module = \<lparr>md_spec_version = SPEC_VERSION, md_name = ''security'',
    md_description = ''security, firewall, open ports, listening ports, who is logged in, login history, is my''
      @ '' computer secure, has anyone logged in, intrusion'',
    md_fetchers = [
    \<lparr>ft_name = ''firewall'',
      ft_cmd = ''systemctl is-active firewall.service nftables.service 2>/dev/null | paste -sd' ' || echo unknown'',
      ft_description = ''Whether the firewall is active'',
      ft_timeout = 15, ft_expose = True\<rparr>,
    \<lparr>ft_name = ''ports'',
      ft_cmd = ''ss -tln 2>/dev/null | head -15'',
      ft_description = ''TCP ports the machine is listening on'',
      ft_timeout = 15, ft_expose = True\<rparr>,
    \<lparr>ft_name = ''logins'',
      ft_cmd = ''who; echo '--- recent ---'; last -n 5 2>/dev/null | head -5'',
      ft_description = ''Who is logged in now and recent login history'',
      ft_timeout = 15, ft_expose = True\<rparr>],
    md_monitors = [],
    md_context = None, md_routing = Route_local\<rparr>\<close>

definition system_module :: module where
  \<open>system_module = \<lparr>md_spec_version = SPEC_VERSION, md_name = ''system'',
    md_description = ''system info, what computer is this, machine model, kernel, operating system, how much memory,''
      @ '' RAM, uptime, how long has it been running, hostname, what time is it, date, timezone'',
    md_fetchers = [
    \<lparr>ft_name = ''info'',
      ft_cmd = ''hostnamectl'',
      ft_description = ''Machine model, operating system, kernel and hostname'',
      ft_timeout = 15, ft_expose = True\<rparr>,
    \<lparr>ft_name = ''memory'',
      ft_cmd = ''free -h'',
      ft_description = ''Total, used and available memory (RAM)'',
      ft_timeout = 15, ft_expose = True\<rparr>,
    \<lparr>ft_name = ''uptime'',
      ft_cmd = ''uptime -p'',
      ft_description = ''How long the machine has been running'',
      ft_timeout = 15, ft_expose = True\<rparr>,
    \<lparr>ft_name = ''datetime'',
      ft_cmd = ''timedatectl'',
      ft_description = ''Current time, date and timezone'',
      ft_timeout = 15, ft_expose = True\<rparr>],
    md_monitors = [],
    md_context = None, md_routing = Route_auto\<rparr>\<close>

definition updates_module :: module where
  \<open>updates_module = \<lparr>md_spec_version = SPEC_VERSION, md_name = ''updates'',
    md_description = ''updates, up to date, upgrade, new version, latest version, outdated, when did I last update,''
      @ '' system version, NixOS generation'',
    md_fetchers = [
    \<lparr>ft_name = ''version'',
      ft_cmd = ''nixos-version'',
      ft_description = ''Current NixOS version string'',
      ft_timeout = 15, ft_expose = True\<rparr>,
    \<lparr>ft_name = ''last_built'',
      ft_cmd = ''stat -c 'Current system built: %y' /run/current-system'',
      ft_description = ''Timestamp of when the running system generation was built'',
      ft_timeout = 15, ft_expose = True\<rparr>,
    \<lparr>ft_name = ''generations'',
      ft_cmd = (''ls -d /nix/var/nix/profiles/system-*-link 2>/dev/null | wc -l | xargs -I{} echo '{} system''
        @ '' generations available'' @ [CHR 0x27]),
      ft_description = ''How many NixOS generations are available to roll back to'',
      ft_timeout = 15, ft_expose = True\<rparr>],
    md_monitors = [],
    md_context = None, md_routing = Route_auto\<rparr>\<close>

definition battery_low :: "pystr \<Rightarrow> bool" where
  "battery_low out = (case py_int (strip out) of Some n \<Rightarrow> n < 20 | None \<Rightarrow> False)"

text \<open>The entry points of the package, in the order it declares them.\<close>

definition EXTRA_MODULES :: "module list" where
  "EXTRA_MODULES = [system_module, power_module, performance_module, bluetooth_module, updates_module,
     security_module, health_module]"

lemmas extra_defs = EXTRA_MODULES_def system_module_def power_module_def performance_module_def bluetooth_module_def
  updates_module_def security_module_def health_module_def

definition extra_entry_points :: "(pystr \<times> loaded) list" where
  "extra_entry_points = map (\<lambda>m. (md_name m, Loaded m)) EXTRA_MODULES"

section \<open>The monitors\<close>

definition disk_watcher :: watcher where
  "disk_watcher = \<lparr>wt_module = ''disk'', wt_decl = hd (md_monitors disk_module),
     wt_trigger = (\<lambda>out. Inr (root_over_90 out)), wt_filter = None\<rparr>"

definition network_watcher :: watcher where
  "network_watcher = \<lparr>wt_module = ''network'', wt_decl = hd (md_monitors network_module),
     wt_trigger = (\<lambda>_. Inr False), wt_filter = None\<rparr>"

definition services_watcher :: watcher where
  "services_watcher = \<lparr>wt_module = ''services'', wt_decl = hd (md_monitors services_module),
     wt_trigger = (\<lambda>_. Inr False), wt_filter = Some (\<lambda>args. Inr (job_failed args))\<rparr>"

definition power_watcher :: watcher where
  "power_watcher = \<lparr>wt_module = ''power'', wt_decl = hd (md_monitors power_module),
     wt_trigger = (\<lambda>out. Inr (battery_low out)), wt_filter = None\<rparr>"

text \<open>An alert for a failed service names the first four arguments of the signal.\<close>

lemma services_alert:
  "on_signal py services_watcher msg = Inr (Some detail) \<longleftrightarrow>
     dm_is_signal msg \<and> dm_interface msg = ''org.freedesktop.systemd1.Manager'' \<and> dm_member msg = ''JobRemoved'' \<and>
     job_failed (dm_body msg) \<and> detail = join '' '' (map (py_str py) (take 4 (dm_body msg)))"
  by (auto simp: on_signal_def services_watcher_def services_module_def summarize_body_def job_failed_def)

text \<open>A command that fails or prints something else than a number raises no alert.\<close>

lemma py_int_paren:
  assumes "strip (CHR ''('' # s) = CHR ''('' # s"
  shows "py_int (CHR ''('' # s) = None"
proof -
  have "\<not> is_digit (CHR ''('')" by code_simp
  with assms show ?thesis by (simp add: py_int_def)
qed

lemma failed_command_no_alert:
  "root_over_90 (poll_output (Inl e)) = False \<and> battery_low (poll_output (Inl e)) = False"
proof -
  have "\<not> is_space (CHR ''('')" "\<not> is_space (CHR '')'')" by code_simp+
  then have "strip (''(error: '' @ str_exn e @ '')'') = ''(error: '' @ str_exn e @ '')''"
    by (simp add: strip_def lstrip_def rstrip_def)
  with py_int_paren [of "''error: '' @ str_exn e @ '')''"]
  have "py_int (strip (''(error: '' @ str_exn e @ '')'')) = None" by simp
  then show ?thesis by (simp add: root_over_90_def battery_low_def poll_output_def)
qed

section \<open>Properties\<close>

definition well_formed :: "module \<Rightarrow> bool" where
  "well_formed m \<longleftrightarrow> md_spec_version m = SPEC_VERSION \<and> check_module m = Inr m \<and>
     list_all (\<lambda>f. check_fetcher f = Inr f) (md_fetchers m) \<and> list_all (\<lambda>n. check_monitor n = Inr n) (md_monitors m)"

lemma check_module_ok:
  "md_name m \<noteq> [] \<Longrightarrow> md_description m \<noteq> [] \<Longrightarrow> distinct (map ft_name (md_fetchers m)) \<Longrightarrow> check_module m = Inr m"
  by (simp add: check_module_def duplicates_Nil)

text \<open>
   Every shipped manifest is accepted by the checks of its constructors: the module, each of its
  commands and each of its monitors, so that importing the package never raises.
\<close>

theorem shipped_modules_well_formed: "list_all well_formed (BUILTIN_MODULES @ EXTRA_MODULES)"
  by (simp add: builtin_defs extra_defs well_formed_def check_module_ok check_fetcher_def check_monitor_def)

text \<open>With the extra package installed all eleven modules load, in order, and no two tools share a name.\<close>

lemma shipped_modules_load:
  "load_modules BUILTIN_MODULES extra_entry_points = BUILTIN_MODULES @ EXTRA_MODULES"
  by (simp add: load_modules_def builtin_defs extra_defs extra_entry_points_def load_one_def)

definition tool_pairs :: "module \<Rightarrow> (pystr \<times> pystr) list" where
  "tool_pairs m = map (\<lambda>f. (tool_name m f, ft_cmd f)) (filter ft_expose (md_fetchers m))"

lemma shipped_tools_distinct: "distinct (map fst (concat (map tool_pairs (BUILTIN_MODULES @ EXTRA_MODULES))))"
  by (simp add: builtin_defs extra_defs tool_pairs_def tool_name_def)

lemma tool_cmds_pairs: "tool_cmds mods = map_of (rev (concat (map tool_pairs mods)))"
  by (simp add: tool_cmds_def tool_pairs_def [abs_def])

lemma map_of_unique:
  assumes "(k, v) \<in> set xs" "\<And>v'. (k, v') \<in> set xs \<Longrightarrow> v' = v"
  shows "map_of xs k = Some v"
proof -
  from assms(1) obtain v' where "map_of xs k = Some v'" by (metis weak_map_of_SomeI)
  with assms(2) [OF map_of_SomeD] show ?thesis by simp
qed

lemma plain_builtin_names:
  assumes "m \<in> set BUILTIN_MODULES" "f \<in> set (md_fetchers m)"
  shows "CHR ''_'' \<notin> set (md_name m) \<and> CHR ''_'' \<notin> set (ft_name f) \<and> ft_expose f"
proof -
  have "list_all (\<lambda>m. list_all (\<lambda>f. CHR ''_'' \<notin> set (md_name m) \<and> CHR ''_'' \<notin> set (ft_name f) \<and> ft_expose f)
      (md_fetchers m)) BUILTIN_MODULES"
    by (simp add: builtin_defs)
  with assms show ?thesis by (auto simp: list_all_iff)
qed

lemma split_once:
  assumes "a @ c # b = a' @ c # b'" "c \<notin> set a'" "c \<notin> set b'"
  shows "a = a'"
  using assms by (auto simp: append_eq_append_conv2 append_eq_Cons_conv Cons_eq_append_conv)

lemma builtin_names_distinct: "distinct (map md_name BUILTIN_MODULES)"
  by (simp add: builtin_defs)

lemma one_module_per_name:
  assumes "m \<in> set (load_modules BUILTIN_MODULES eps)" "b \<in> set BUILTIN_MODULES" "md_name m = md_name b"
  shows "m = b"
proof -
  from load_modules_safe [OF builtin_names_distinct, of eps]
  have "b \<in> set (load_modules BUILTIN_MODULES eps)" "distinct (map md_name (load_modules BUILTIN_MODULES eps))"
    using assms(2) by auto
  with assms(1,3) show ?thesis by (metis distinct_map inj_onD)
qed

text \<open>
  C40: No installed package can change what a built-in tool runs: whatever modules are discovered,
  the name of a built-in tool stands for the command of the built-in manifest.
\<close>

theorem builtin_tools_fixed:
  assumes "b \<in> set BUILTIN_MODULES" "f \<in> set (md_fetchers b)"
  shows "tool_cmds (load_modules BUILTIN_MODULES eps) (tool_name b f) = Some (ft_cmd f)"
proof -
  let ?ms = "load_modules BUILTIN_MODULES eps"
  note plain = plain_builtin_names [OF assms]
  have "b \<in> set ?ms" using load_modules_safe [OF builtin_names_distinct, of eps] assms(1) by auto
  with assms(2) plain have "(tool_name b f, ft_cmd f) \<in> set (rev (concat (map tool_pairs ?ms)))"
    by (auto simp: tool_pairs_def)
  moreover have "c = ft_cmd f" if "(tool_name b f, c) \<in> set (rev (concat (map tool_pairs ?ms)))" for c
  proof -
    from that obtain m g where m: "m \<in> set ?ms" "g \<in> set (md_fetchers m)" "tool_name m g = tool_name b f" "c = ft_cmd g"
      by (auto simp: tool_pairs_def)
    then have "md_name m = md_name b"
      using plain split_once [of "md_name m" "CHR ''_''" "ft_name g" "md_name b" "ft_name f"] by (simp add: tool_name_def)
    with m(1) assms(1) have "m = b" by (rule one_module_per_name)
    with m(3) have "ft_name g = ft_name f" by (simp add: tool_name_def)
    moreover have "distinct (map ft_name (md_fetchers b))"
      using assms(1) by (auto simp: builtin_defs)
    ultimately have "g = f" using m(2) assms(2) \<open>m = b\<close> by (metis distinct_map inj_onD)
    with m(4) show ?thesis by simp
  qed
  ultimately show ?thesis unfolding tool_cmds_pairs by (rule map_of_unique)
qed

lemma builtin_tools_fixed_witness:
  "tool_cmds (load_modules BUILTIN_MODULES [(''evil'', Loaded (disk_module\<lparr>md_fetchers := []\<rparr>)),
       (''x'', Loaded (disk_module\<lparr>md_name := ''disk_usage''\<rparr>))]) ''disk_usage'' = Some ''df -h''"
  using builtin_tools_fixed [of disk_module "hd (md_fetchers disk_module)"]
  by (simp add: BUILTIN_MODULES_def disk_module_def tool_name_def)

text \<open>
  The security module pins a question to this machine. Its commands are offered to the remote model
  all the same, on every remote conversation.
\<close>

lemma security_pinned:
  "security_module \<in> set mods \<Longrightarrow> resolve_desired_chain None mods d = (Local, True)"
  by (force simp: resolve_desired_chain_def Let_def security_module_def image_iff)

lemma security_exposed: "list_all ft_expose (md_fetchers security_module)"
  by (simp add: security_module_def)

lemma security_tools_offered:
  "security_module \<in> set mods \<Longrightarrow> f \<in> set (md_fetchers security_module) \<Longrightarrow>
     fetcher_tool security_module f \<in> set (build_tools mods)"
  using security_exposed by (auto simp: build_tools_def list_all_iff)

end
