(* ===== verification/Tray_Icons.thy ===== *)
theory Tray_Icons
  imports Py_String
begin

text \<open>
  \<^verbatim>\<open>tray/icons.py\<close>: the discs the tray shows. The code samples each pixel at nine points and
  compares squared distances in floating point. In units of a sixth of a pixel all
  quantities are integers, and so they are here: twice the centre is \<open>side - 1\<close>, a sample
  lies at an odd distance from it, and for the two sizes in use the bound \<open>9 * (side - 1)\<^sup>2\<close> is
  odd while a sum of two odd squares is even. No sample is on the circle, and the nearest is
  more than \<open>1/36\<close> away from it in squared distance, far beyond the rounding of the floats.
\<close>

type_synonym rgb = "int \<times> int \<times> int"

definition HEALTHY :: rgb where "HEALTHY = (0x2E, 0xCC, 0x71)"
definition ATTENTION :: rgb where "ATTENTION = (0xF3, 0x9C, 0x12)"
definition UNKNOWN :: rgb where "UNKNOWN = (0x95, 0xA5, 0xA6)"
definition SIZES :: "nat list" where "SIZES = [22, 44]"

text \<open>\<^verbatim>\<open>x + (sx + 0.5) / 3 - 0.5 - center\<close>, times six.\<close>

definition sample_offset :: "nat \<Rightarrow> nat \<Rightarrow> nat \<Rightarrow> int" where
  "sample_offset side x sx = 6 * int x + 2 * int sx + 1 - 3 - 3 * (int side - 1)"

definition inside :: "nat \<Rightarrow> int \<Rightarrow> int \<Rightarrow> bool" where
  "inside side px py \<longleftrightarrow> px * px + py * py \<le> 9 * ((int side - 1) * (int side - 1))"

definition covered :: "nat \<Rightarrow> nat \<Rightarrow> nat \<Rightarrow> nat" where
  "covered side x y = length (filter (\<lambda>(sy, sx). inside side (sample_offset side x sx) (sample_offset side y sy))
     (List.product [0..<3] [0..<3]))"

definition pixel :: "nat \<Rightarrow> rgb \<Rightarrow> nat \<Rightarrow> nat \<Rightarrow> int list" where
  "pixel side c x y = (case c of (r, g, b) \<Rightarrow> [(int (covered side x y) * 255) div 9, r, g, b])"

definition disc_argb :: "nat \<Rightarrow> rgb \<Rightarrow> int list" where
  "disc_argb side c = concat (map (\<lambda>y. concat (map (\<lambda>x. pixel side c x y) [0..<side])) [0..<side])"

definition pixmaps :: "rgb \<Rightarrow> (nat \<times> nat \<times> int list) list" where
  "pixmaps c = map (\<lambda>s. (s, s, disc_argb s c)) SIZES"

definition health_color :: "bool \<Rightarrow> int \<Rightarrow> rgb" where
  "health_color online failure_count =
     (if \<not> online then UNKNOWN else if failure_count > 0 then ATTENTION else HEALTHY)"

definition status_word :: "bool \<Rightarrow> int \<Rightarrow> pystr" where
  "status_word online failure_count =
     (if online \<and> failure_count > 0 then ''NeedsAttention'' else ''Active'')"

section \<open>Properties\<close>

text \<open>No sample lies on the circle of a disc of even size.\<close>

lemma sample_off_circle:
  assumes "even side"
  shows "\<bar>sample_offset side x sx * sample_offset side x sx + sample_offset side y sy * sample_offset side y sy
    - 9 * ((int side - 1) * (int side - 1))\<bar> \<ge> 1"
proof -
  have o: "odd (sample_offset side x sx)" for x sx using assms by (simp add: sample_offset_def)
  have "odd (9 * ((int side - 1) * (int side - 1)))" using assms by simp
  moreover have "even (sample_offset side x sx * sample_offset side x sx + sample_offset side y sy * sample_offset side y sy)"
    using o by simp
  ultimately have "odd (sample_offset side x sx * sample_offset side x sx + sample_offset side y sy * sample_offset side y sy
    - 9 * ((int side - 1) * (int side - 1)))" by simp
  then show ?thesis by (metis abs_0_eq abs_ge_zero dvd_0_right int_one_le_iff_zero_less less_le)
qed

lemma covered_le: "covered side x y \<le> 9"
proof -
  have "covered side x y \<le> length (List.product [0..<3] [0..<(3 :: nat)])"
    unfolding covered_def by (rule length_filter_le)
  then show ?thesis by simp
qed

lemma length_pixel [simp]: "length (pixel side c x y) = 4"
  by (simp add: pixel_def split: prod.split)

lemma length_disc: "length (disc_argb side c) = 4 * side * side"
  by (simp add: disc_argb_def length_concat comp_def sum_list_triv)

definition byte :: "int \<Rightarrow> bool" where
  "byte b \<longleftrightarrow> 0 \<le> b \<and> b < 256"

definition colour :: "rgb \<Rightarrow> bool" where
  "colour c \<longleftrightarrow> (case c of (r, g, b) \<Rightarrow> byte r \<and> byte g \<and> byte b)"

lemma bytes_pixel: "colour c \<Longrightarrow> list_all byte (pixel side c x y)"
proof -
  have "int (covered side x y) * 255 \<le> 9 * 255" using covered_le [of side x y] by simp
  then have "(int (covered side x y) * 255) div 9 < 256" by linarith
  then show "colour c \<Longrightarrow> list_all byte (pixel side c x y)"
    by (auto simp: pixel_def byte_def colour_def split: prod.splits)
qed

text \<open>
  C36: Whatever the state of the machine, the icon handed to the desktop is well-formed: two
  square images, four bytes per pixel, every value a byte, so that writing them into a
  \<^verbatim>\<open>bytearray\<close> never raises; and the three states have three colours.
\<close>

theorem icon_well_formed:
  "list_all (\<lambda>(w, h, data). w = h \<and> length data = 4 * w * h \<and> list_all byte data)
     (pixmaps (health_color online n)) \<and>
   (health_color online n = UNKNOWN \<longleftrightarrow> \<not> online) \<and>
   (health_color online n = ATTENTION \<longleftrightarrow> status_word online n = ''NeedsAttention'')"
proof -
  have "colour (health_color online n)"
    by (simp add: health_color_def UNKNOWN_def ATTENTION_def HEALTHY_def colour_def byte_def)
  then have "list_all byte (disc_argb s (health_color online n))" for s
    using bytes_pixel by (fastforce simp: disc_argb_def list_all_iff)
  then show ?thesis
    by (auto simp: pixmaps_def SIZES_def length_disc health_color_def status_word_def UNKNOWN_def ATTENTION_def
        HEALTHY_def)
qed

end
