(* ===== verification/Py_Url.thy ===== *)
theory Py_Url
  imports Config
begin

text \<open>
  The parts of \<^verbatim>\<open>urllib.parse\<close> that the desktop clients use besides \<^verbatim>\<open>urlsplit\<close> (\<open>Config\<close>): quoting,
  query strings and the reassembly of an address. A quoted text is decoded as UTF-8; a sequence
  that decodes to a character outside the alphabet has no value (\<open>None\<close>).
\<close>

section \<open>Quoting\<close>

definition utf8_bytes :: "char \<Rightarrow> nat list" where
  "utf8_bytes c =
     (let n = code c
      in if c = emdash then [0xE2, 0x80, 0x94] else if c = endash then [0xE2, 0x80, 0x93]
         else if c = ellipsis then [0xE2, 0x80, 0xA6] else if c = ldquote then [0xE2, 0x80, 0x9C]
         else if c = rdquote then [0xE2, 0x80, 0x9D]
         else if n < 128 then [n] else [192 + n div 64, 128 + n mod 64])"

definition upper_hex :: "nat \<Rightarrow> char" where
  "upper_hex d = (if d < 10 then char_of (48 + d) else char_of (55 + d))"

definition always_safe :: "char \<Rightarrow> bool" where
  "always_safe c \<longleftrightarrow> is_alpha_ascii c \<or> is_digit c \<or> c \<in> set ''_.-~''"

definition percent :: "nat \<Rightarrow> pystr" where
  "percent b = [CHR ''%'', upper_hex (b div 16), upper_hex (b mod 16)]"

definition quote_char :: "(char \<Rightarrow> bool) \<Rightarrow> char \<Rightarrow> pystr" where
  "quote_char safe c = (if safe c then [c] else concat (map percent (utf8_bytes c)))"

text \<open>\<^verbatim>\<open>quote(s)\<close> keeps the slash, \<^verbatim>\<open>quote_plus(s)\<close> does not and writes a space as a plus sign.\<close>

definition url_safe :: "char \<Rightarrow> bool" where
  "url_safe c \<longleftrightarrow> always_safe c \<or> c = CHR ''/''"

definition url_quote :: "pystr \<Rightarrow> pystr" where
  "url_quote s = concat (map (quote_char url_safe) s)"

definition quote_plus :: "pystr \<Rightarrow> pystr" where
  "quote_plus s = concat (map (\<lambda>c. if c = CHR '' '' then ''+'' else quote_char always_safe c) s)"

section \<open>Unquoting\<close>

text \<open>A percent sign before two hexadecimal digits is a byte; other ASCII characters are theirs.\<close>

fun unquote_to_bytes :: "pystr \<Rightarrow> nat list" where
  "unquote_to_bytes (c # x # y # s) =
     (case (c = CHR ''%'', hex_value x, hex_value y) of
        (True, Some a, Some b) \<Rightarrow> (16 * a + b) # unquote_to_bytes s
      | _ \<Rightarrow> code c # unquote_to_bytes (x # y # s))"
| "unquote_to_bytes (c # s) = code c # unquote_to_bytes s"
| "unquote_to_bytes [] = []"

definition reserved_point :: "nat \<Rightarrow> bool" where
  "reserved_point n \<longleftrightarrow> n \<in> {0x97, 0x96, 0x8D, 0x93, 0x94}"

definition decode2 :: "nat \<Rightarrow> nat \<Rightarrow> char option" where
  "decode2 a b =
     (let n = (a - 192) * 64 + (b - 128)
      in if a \<in> {0xC2, 0xC3} \<and> 128 \<le> b \<and> b < 192 \<and> \<not> reserved_point n then Some (char_of n) else None)"

definition decode3 :: "nat \<Rightarrow> nat \<Rightarrow> nat \<Rightarrow> char option" where
  "decode3 a b c =
     (if a = 0xE2 \<and> b = 0x80
      then map_of [(0x94, emdash), (0x93, endash), (0xA6, ellipsis), (0x9C, ldquote), (0x9D, rdquote)] c
      else None)"

fun utf8_decode :: "nat list \<Rightarrow> pystr option" where
  "utf8_decode [] = Some []"
| "utf8_decode (a # bs) =
     (if a < 128 then map_option (Cons (char_of a)) (utf8_decode bs)
      else case bs of
          b # cs \<Rightarrow> (case decode2 a b of
              Some ch \<Rightarrow> map_option (Cons ch) (utf8_decode cs)
            | None \<Rightarrow> (case cs of
                c # ds \<Rightarrow> (case decode3 a b c of
                    Some ch \<Rightarrow> map_option (Cons ch) (utf8_decode ds)
                  | None \<Rightarrow> None)
              | [] \<Rightarrow> None))
        | [] \<Rightarrow> None)"

text \<open>\<^verbatim>\<open>unquote\<close> decodes each run of ASCII characters; other characters stand for themselves.\<close>

definition is_ascii :: "char \<Rightarrow> bool" where "is_ascii c \<longleftrightarrow> code c < 128"

function unquote :: "pystr \<Rightarrow> pystr option" where
  "unquote [] = Some []"
| "unquote (c # s) =
     (if is_ascii c
      then (case utf8_decode (unquote_to_bytes (takeWhile is_ascii (c # s))) of
              None \<Rightarrow> None
            | Some t \<Rightarrow> map_option (append t) (unquote (dropWhile is_ascii (c # s))))
      else map_option (Cons c) (unquote s))"
  by pat_completeness auto
termination by (relation "measure length") (auto simp: le_imp_less_Suc length_dropWhile_le)

section \<open>Query strings\<close>

definition urlencode :: "(pystr \<times> pystr) list \<Rightarrow> pystr" where
  "urlencode q = join ''&'' (map (\<lambda>(k, v). quote_plus k @ ''='' @ quote_plus v) q)"

definition plus_to_space :: "pystr \<Rightarrow> pystr" where
  "plus_to_space s = map (\<lambda>c. if c = CHR ''+'' then CHR '' '' else c) s"

definition unquote_plus :: "pystr \<Rightarrow> pystr option" where
  "unquote_plus s = unquote (plus_to_space s)"

text \<open>\<^verbatim>\<open>parse_qsl(q, keep_blank_values=True)\<close>.\<close>

definition parse_pair :: "pystr \<Rightarrow> (pystr \<times> pystr) option" where
  "parse_pair nv =
     (let (name, _, value) = partition_at (CHR ''='') nv
      in case (unquote_plus name, unquote_plus value) of (Some n, Some v) \<Rightarrow> Some (n, v) | _ \<Rightarrow> None)"

fun all_pairs :: "pystr list \<Rightarrow> (pystr \<times> pystr) list option" where
  "all_pairs [] = Some []"
| "all_pairs (nv # nvs) =
     (if nv = [] then all_pairs nvs
      else (case (parse_pair nv, all_pairs nvs) of (Some p, Some ps) \<Rightarrow> Some (p # ps) | _ \<Rightarrow> None))"

definition parse_qsl :: "pystr \<Rightarrow> (pystr \<times> pystr) list option" where
  "parse_qsl q = (if q = [] then Some [] else all_pairs (split_char (CHR ''&'') q))"

text \<open>\<^verbatim>\<open>dict(pairs)\<close>: a key keeps the position of its first and the value of its last occurrence.\<close>

definition dict :: "(pystr \<times> pystr) list \<Rightarrow> (pystr \<times> pystr) list" where
  "dict ps = fold (\<lambda>(k, v). dict_put k v) ps []"

text \<open>\<^verbatim>\<open>urlunsplit\<close> of all five parts.\<close>

definition unsplit_url :: "url \<Rightarrow> pystr" where
  "unsplit_url u =
     (let s = urlunsplit (url_scheme u) (url_netloc u) (url_path u);
          s = (if url_query u \<noteq> [] then s @ ''?'' @ url_query u else s)
      in if url_fragment u \<noteq> [] then s @ ''#'' @ url_fragment u else s)"

section \<open>Round trips\<close>

lemma hex_upper [simp]: "d < 16 \<Longrightarrow> hex_value (upper_hex d) = Some d"
  by (simp add: hex_value_def upper_hex_def Let_def)

lemma unquote_percent [simp]: "b < 256 \<Longrightarrow> unquote_to_bytes (percent b @ s) = b # unquote_to_bytes s"
  by (simp add: percent_def)

lemma unquote_other [simp]:
  assumes "c \<noteq> CHR ''%''"
  shows "unquote_to_bytes (c # s) = code c # unquote_to_bytes s"
proof (cases s)
  case (Cons x s')
  then show ?thesis using assms by (cases s') auto
qed simp

lemma reserved_codes:
  "code emdash = 0x97" "code endash = 0x96" "code ellipsis = 0x8D" "code ldquote = 0x93" "code rdquote = 0x94"
  by (simp_all add: code_def)

lemma reserved_code: "reserved_point (code c) \<longleftrightarrow> c \<in> {emdash, endash, ellipsis, ldquote, rdquote}"
  by (simp add: reserved_point_def code_inject [of c, symmetric] reserved_codes)

lemma utf8_bytes_code:
  "utf8_bytes c =
     (let n = code c
      in if reserved_point n then
           [0xE2, 0x80, the (map_of [(0x97, 0x94), (0x96, 0x93), (0x8D, 0xA6), (0x93, 0x9C), (0x94, 0x9D)] n)]
         else if n < 128 then [n] else [192 + n div 64, 128 + n mod 64])"
  by (simp add: utf8_bytes_def reserved_point_def code_inject [of c, symmetric] reserved_codes Let_def)

lemma utf8_bytes_small: "b \<in> set (utf8_bytes c) \<Longrightarrow> b < 256"
proof -
  assume b: "b \<in> set (utf8_bytes c)"
  have "code c div 64 < 4" using code_less [of c] by (simp add: less_mult_imp_div_less)
  moreover have "code c mod 64 < 64" by simp
  ultimately show ?thesis using b by (auto simp: utf8_bytes_code Let_def reserved_point_def split: if_splits)
qed

lemma utf8_bytes_ascii: "is_ascii c \<Longrightarrow> utf8_bytes c = [code c]"
  by (simp add: utf8_bytes_code is_ascii_def Let_def reserved_point_def)

lemma decode_utf8_char [simp]: "utf8_decode (utf8_bytes c @ bs) = map_option (Cons c) (utf8_decode bs)"
proof (cases "reserved_point (code c)")
  case True
  then show ?thesis unfolding reserved_code
    by (elim insertE; simp add: utf8_bytes_code decode2_def decode3_def reserved_point_def reserved_codes)
next
  case False
  show ?thesis
  proof (cases "code c < 128")
    case True
    then show ?thesis by (simp add: utf8_bytes_ascii is_ascii_def)
  next
    case big: False
    define n where "n = code c"
    have n: "128 \<le> n" "n < 256" using big by (simp_all add: n_def)
    have bytes: "utf8_bytes c = [192 + n div 64, 128 + n mod 64]"
      using False big by (simp add: utf8_bytes_code n_def Let_def)
    define d m where "d = n div 64" and "m = n mod 64"
    have dm: "n = d * 64 + m" "m < 64" by (simp_all add: d_def m_def)
    from n dm have "192 + d = 0xC2 \<or> 192 + d = 0xC3" by presburger
    moreover have "(192 + d - 192) * 64 + (128 + m - 128) = n" using dm by simp
    moreover have "\<not> reserved_point n" using False by (simp add: n_def)
    ultimately have "decode2 (192 + n div 64) (128 + n mod 64) = Some (char_of n)"
      unfolding decode2_def d_def [symmetric] m_def [symmetric] Let_def using dm(2) by simp
    then show ?thesis unfolding bytes by (simp add: n_def)
  qed
qed

lemma decode_utf8: "utf8_decode (concat (map utf8_bytes s)) = Some s"
  by (induction s) simp_all

lemma unquote_ascii: "list_all is_ascii t \<Longrightarrow> unquote t = utf8_decode (unquote_to_bytes t)"
proof (cases t)
  case (Cons c s)
  assume "list_all is_ascii t"
  with Cons have t: "takeWhile is_ascii (c # s) = c # s" "dropWhile is_ascii (c # s) = []" "is_ascii c"
    by (auto simp: list_all_iff takeWhile_eq_all_conv dropWhile_eq_Nil_conv)
  show ?thesis unfolding Cons unquote.simps t(1,2) by (simp add: t(3) split: option.split)
qed simp

lemma percents_to_bytes: "\<forall>b \<in> set bs. b < 256 \<Longrightarrow> unquote_to_bytes (concat (map percent bs) @ s) = bs @ unquote_to_bytes s"
  by (induction bs) simp_all

text \<open>A set of characters that may stand for themselves.\<close>

definition plain_chars :: "(char \<Rightarrow> bool) \<Rightarrow> bool" where
  "plain_chars safe \<longleftrightarrow> (\<forall>c. safe c \<longrightarrow> is_ascii c \<and> c \<noteq> CHR ''%'')"

lemma quoted_bytes:
  assumes "plain_chars safe"
  shows "unquote_to_bytes (concat (map (quote_char safe) s)) = concat (map utf8_bytes s)"
proof (induction s)
  case (Cons c s)
  show ?case
  proof (cases "safe c")
    case True
    with assms Cons show ?thesis by (simp add: quote_char_def plain_chars_def utf8_bytes_ascii)
  next
    case False
    with Cons show ?thesis by (simp add: quote_char_def percents_to_bytes utf8_bytes_small)
  qed
qed simp

lemma upper_hex_safe: "d < 16 \<Longrightarrow> always_safe (upper_hex d)"
  by (auto simp: always_safe_def upper_hex_def is_digit_def is_alpha_ascii_def is_upper_ascii_def is_lower_ascii_def)

lemma percent_chars: "b < 256 \<Longrightarrow> list_all (\<lambda>c. always_safe c \<or> c = CHR ''%'') (percent b)"
  by (simp add: percent_def upper_hex_safe less_mult_imp_div_less)

lemma quoted_chars:
  assumes "\<And>c. always_safe c \<Longrightarrow> safe c"
  shows "list_all (\<lambda>c. safe c \<or> c = CHR ''%'') (concat (map (quote_char safe) s))"
proof -
  have "safe d \<or> d = CHR ''%''" if "d \<in> set (quote_char safe c)" for c d
  proof (cases "safe c")
    case False
    with that obtain b where "b \<in> set (utf8_bytes c)" "d \<in> set (percent b)" by (auto simp: quote_char_def)
    then have "always_safe d \<or> d = CHR ''%''"
      using percent_chars [of b] utf8_bytes_small [of b c] by (simp add: list_all_iff)
    then show ?thesis using assms by blast
  qed (use that in \<open>simp add: quote_char_def\<close>)
  then show ?thesis by (fastforce simp: list_all_iff)
qed

lemma unquote_quoted:
  assumes "plain_chars safe" "\<And>c. always_safe c \<Longrightarrow> safe c"
  shows "unquote (concat (map (quote_char safe) s)) = Some s"
proof -
  have "is_ascii (CHR ''%'')" by (simp add: is_ascii_def code_def)
  then have "list_all is_ascii (concat (map (quote_char safe) s))"
    using quoted_chars [of safe s, OF assms(2)] assms(1) by (auto simp: list_all_iff plain_chars_def)
  then show ?thesis by (simp add: unquote_ascii quoted_bytes [OF assms(1)] decode_utf8)
qed

lemma always_safe_plain: "always_safe c \<Longrightarrow> is_ascii c \<and> c \<notin> set ''%&=+?#/ ''"
  by (auto simp: always_safe_def is_ascii_def is_digit_def is_alpha_ascii_def is_upper_ascii_def is_lower_ascii_def code_def)

text \<open>What \<^verbatim>\<open>quote\<close> writes is read back as it was.\<close>

lemma unquote_url_quote: "unquote (url_quote s) = Some s"
proof -
  have "plain_chars url_safe"
    by (auto simp: plain_chars_def url_safe_def is_ascii_def code_def dest: always_safe_plain)
  then show ?thesis unfolding url_quote_def by (rule unquote_quoted) (simp add: url_safe_def)
qed

definition plus_safe :: "char \<Rightarrow> bool" where "plus_safe c \<longleftrightarrow> always_safe c \<or> c = CHR '' ''"

lemma plus_to_space_id: "CHR ''+'' \<notin> set s \<Longrightarrow> plus_to_space s = s"
  unfolding plus_to_space_def by (rule map_idI) auto

lemma quoted_no_special:
  assumes "\<And>c. safe c \<longleftrightarrow> always_safe c \<or> c \<in> extra" "extra \<inter> set ''%&=+?#'' = {}"
  shows "set (concat (map (quote_char safe) s)) \<inter> set ''&=+?#'' = {}"
proof -
  have "\<not> safe d \<and> d \<noteq> CHR ''%''" if "d \<in> set ''&=+?#''" for d
    using assms that always_safe_plain [of d] by auto
  then show ?thesis using quoted_chars [of safe s] assms(1) by (fastforce simp: list_all_iff simp del: set_concat)
qed

lemma plus_to_space_quote_plus: "plus_to_space (quote_plus s) = concat (map (quote_char plus_safe) s)"
proof (induction s)
  case (Cons c s)
  have "CHR ''+'' \<notin> set (concat (map (quote_char always_safe) [c]))"
    using quoted_no_special [of always_safe "{}" "[c]"] by auto
  then have "plus_to_space (quote_char always_safe c) = quote_char always_safe c" by (simp add: plus_to_space_id)
  moreover have "quote_char plus_safe c = (if c = CHR '' '' then '' '' else quote_char always_safe c)"
    by (simp add: quote_char_def plus_safe_def)
  ultimately show ?case using Cons by (auto simp: quote_plus_def plus_to_space_def)
qed (simp add: quote_plus_def plus_to_space_def)

lemma unquote_quote_plus: "unquote_plus (quote_plus s) = Some s"
proof -
  have "plain_chars plus_safe"
    by (auto simp: plain_chars_def plus_safe_def is_ascii_def code_def dest: always_safe_plain)
  then show ?thesis unfolding unquote_plus_def plus_to_space_quote_plus
    by (rule unquote_quoted) (simp add: plus_safe_def)
qed

lemma quote_plus_chars: "set (quote_plus s) \<inter> set ''&=?#'' = {}"
proof (induction s)
  case (Cons c s)
  have "set (quote_char always_safe c) \<inter> set ''&=+?#'' = {}"
    using quoted_no_special [of always_safe "{}" "[c]"] by simp
  with Cons show ?case by (auto simp: quote_plus_def)
qed (simp add: quote_plus_def)

lemma parse_pair_encoded: "parse_pair (quote_plus k @ ''='' @ quote_plus v) = Some (k, v)"
  using quote_plus_chars [of k] by (simp add: parse_pair_def partition_at_found unquote_quote_plus)

lemma split_char_none: "sep \<notin> set s \<Longrightarrow> split_char sep s = [s]"
  by (induction s) auto

lemma split_char_append: "sep \<notin> set u \<Longrightarrow> split_char sep (u @ sep # s) = u # split_char sep s"
  by (induction u) auto

lemma split_char_join:
  "xs \<noteq> [] \<Longrightarrow> list_all (\<lambda>x. sep \<notin> set x) xs \<Longrightarrow> split_char sep (join [sep] xs) = xs"
  by (induction xs rule: induct_list012) (auto simp: split_char_none split_char_append)

text \<open>What \<^verbatim>\<open>urlencode\<close> writes, \<^verbatim>\<open>parse_qsl\<close> reads back, blank names and values included.\<close>

lemma parse_urlencode: "parse_qsl (urlencode q) = Some q"
proof -
  define f :: "pystr \<times> pystr \<Rightarrow> pystr" where "f = (\<lambda>(k, v). quote_plus k @ ''='' @ quote_plus v)"
  have all: "all_pairs (map f q) = Some q"
    by (induction q) (auto simp: f_def parse_pair_encoded simp del: append_Cons append.simps split: prod.splits)
  have "CHR ''&'' \<notin> set (f p)" for p
    using quote_plus_chars [of "fst p"] quote_plus_chars [of "snd p"] by (auto simp: f_def case_prod_beta')
  then have "list_all (\<lambda>x. CHR ''&'' \<notin> set x) (map f q)" by (simp add: list_all_iff)
  then have "q \<noteq> [] \<Longrightarrow> split_char (CHR ''&'') (urlencode q) = map f q"
    unfolding urlencode_def f_def [symmetric] by (intro split_char_join) auto
  moreover have "urlencode q \<noteq> []" if "q \<noteq> []"
    using that by (cases q; cases "tl q") (auto simp: urlencode_def)
  ultimately show ?thesis using all by (cases "q = []") (auto simp: parse_qsl_def urlencode_def)
qed

end
