(* ===== verification/Tray_Menu.thy ===== *)
theory Tray_Menu
  imports Tray_Icons Py_Url
begin

text \<open>
  \<^verbatim>\<open>tray/main.py\<close> and the menu logic of \<^verbatim>\<open>tray/sni.py\<close>: the menu as a function of what the tray
  knows, how the desktop reads it and clicks in it, and the refresh. The two pictograms of the
  labels are no characters of the alphabet; each is spelled with a control code.
\<close>

abbreviation warning_sign :: char where "warning_sign \<equiv> CHR 0x82"
abbreviation check_mark :: char where "check_mark \<equiv> CHR 0x83"

definition INVOKE_ID :: int where "INVOKE_ID = 7000"
definition DETAIL_ID :: int where "DETAIL_ID = 8000"
definition QUIT_ID :: int where "QUIT_ID = 9000"

section \<open>The menu\<close>

text \<open>A failed unit with its scope, as the daemon's reply lists it.\<close>

type_synonym failed = "pystr \<times> pystr"

record menu_entry =
  me_id :: int
  me_label :: pystr
  me_enabled :: bool
  me_separator :: bool
  me_unit :: "pystr option"
  me_scope :: "pystr option"
  me_action :: "pystr option"

definition plain_entry :: "int \<Rightarrow> pystr \<Rightarrow> menu_entry" where
  "plain_entry i label = \<lparr>me_id = i, me_label = label, me_enabled = True, me_separator = False,
     me_unit = None, me_scope = None, me_action = None\<rparr>"

definition separator :: "int \<Rightarrow> menu_entry" where
  "separator i = (plain_entry i [])\<lparr>me_separator := True\<rparr>"

definition header_entry :: "pystr \<Rightarrow> menu_entry" where
  "header_entry label = (plain_entry 1 label)\<lparr>me_enabled := False\<rparr>"

definition unit_entry :: "int \<Rightarrow> pystr \<Rightarrow> pystr \<Rightarrow> failed \<Rightarrow> menu_entry" where
  "unit_entry i label action u =
     (plain_entry i label)\<lparr>me_unit := Some (fst u), me_scope := Some (snd u), me_action := Some action\<rparr>"

definition unit_rows :: "failed list \<Rightarrow> menu_entry list" where
  "unit_rows units = concat (map (\<lambda>(i, u).
     [unit_entry (100 + int i) (''Restart '' @ fst u) ''restart'' u,
      unit_entry (200 + int i) (''Explain '' @ fst u @ [ellipsis]) ''explain'' u]) (enumerate 0 units))"

definition menu_model :: "bool \<Rightarrow> failed list option \<Rightarrow> bool \<Rightarrow> bool \<Rightarrow> menu_entry list" where
  "menu_model online units web_available overlay_available =
     (if overlay_available
      then [(plain_entry INVOKE_ID (''Open nixadmin'' @ [ellipsis]))\<lparr>me_action := Some ''overlay''\<rparr>, separator 7001] else [])
     @ (if \<not> online then [header_entry (warning_sign # '' daemon unreachable'')]
        else (case the_default [] units of
            [] \<Rightarrow> [header_entry (check_mark # '' all services healthy'')]
          | us \<Rightarrow> header_entry (warning_sign # '' '' @ show_int (int (length us)) @ '' service(s) failed'') # unit_rows us))
     @ [separator 2]
     @ (if web_available
        then [(plain_entry DETAIL_ID (''Open detail'' @ [ellipsis]))\<lparr>me_action := Some ''detail''\<rparr>] else [])
     @ [plain_entry QUIT_ID ''Close tray icon (nixadmin keeps running)'']"

definition tooltip :: "bool \<Rightarrow> failed list option \<Rightarrow> pystr" where
  "tooltip online units =
     (let us = the_default [] units
      in if \<not> online then ''nixadmin '' @ [emdash] @ '' daemon unreachable''
         else if us \<noteq> [] then
           ''nixadmin '' @ [emdash] @ '' failed: '' @ join '', '' (map fst (take 3 us))
           @ (if 3 < length us then '' (+'' @ show_int (int (length us) - 3) @ '' more)'' else [])
         else ''nixadmin '' @ [emdash] @ '' all services healthy'')"

section \<open>How the desktop reads it\<close>

datatype variant = VStr pystr | VBool bool

definition entry_props :: "menu_entry \<Rightarrow> (pystr \<times> variant) list" where
  "entry_props e =
     (if me_separator e then [(''type'', VStr ''separator'')]
      else [(''label'', VStr (me_label e)), (''enabled'', VBool (me_enabled e))])"

text \<open>\<^verbatim>\<open>build_layout\<close>: the revision and the root's children in order.\<close>

definition build_layout :: "nat \<Rightarrow> menu_entry list \<Rightarrow> nat \<times> (int \<times> (pystr \<times> variant) list) list" where
  "build_layout revision model = (revision, map (\<lambda>e. (me_id e, entry_props e)) model)"

text \<open>\<^verbatim>\<open>{e.id: e for e in model}\<close>: of two entries with an identifier the later one is found.\<close>

definition entry_by_id :: "menu_entry list \<Rightarrow> int \<rightharpoonup> menu_entry" where
  "entry_by_id model = map_of (rev (map (\<lambda>e. (me_id e, e)) model))"

definition group_properties :: "menu_entry list \<Rightarrow> int list \<Rightarrow> (int \<times> (pystr \<times> variant) list) list" where
  "group_properties model ids =
     concat (map (\<lambda>i. case entry_by_id model i of None \<Rightarrow> [] | Some e \<Rightarrow> [(i, entry_props e)]) ids)"

definition get_property :: "menu_entry list \<Rightarrow> int \<Rightarrow> pystr \<Rightarrow> variant" where
  "get_property model i name =
     (case entry_by_id model i of
        None \<Rightarrow> VStr []
      | Some e \<Rightarrow> the_default (VStr []) (map_of (entry_props e) name))"

text \<open>\<^verbatim>\<open>fire\<close> looks in a menu built at the moment of the click.\<close>

definition fire :: "menu_entry list \<Rightarrow> int \<Rightarrow> menu_entry option" where
  "fire model i = find (\<lambda>e. me_id e = i) model"

section \<open>The tray\<close>

datatype tray_job = Open_overlay | Open_detail pystr | Fix pystr pystr | Refresh

record tray =
  tr_online :: bool
  tr_units :: "failed list option"
  tr_stop :: bool
  tr_jobs :: "tray_job list"
  tr_color :: rgb
  tr_status :: pystr
  tr_tooltip :: pystr
  tr_revision :: nat
  tr_signals :: "pystr list"

definition new_tray :: tray where
  "new_tray = \<lparr>tr_online = False, tr_units = None, tr_stop = False, tr_jobs = [], tr_color = UNKNOWN,
     tr_status = ''Active'', tr_tooltip = ''nixadmin '' @ [emdash] @ '' starting'' @ [ellipsis],
     tr_revision = 1, tr_signals = []\<rparr>"

definition spawn_job :: "tray_job \<Rightarrow> tray \<Rightarrow> tray" where
  "spawn_job j t = t\<lparr>tr_jobs := tr_jobs t @ [j]\<rparr>"

definition explain_query :: "pystr \<Rightarrow> pystr \<Rightarrow> pystr" where
  "explain_query unit scope = ''&explain='' @ url_quote unit @ ''&scope='' @ url_quote scope"

definition on_menu :: "menu_entry \<Rightarrow> tray \<Rightarrow> tray" where
  "on_menu e t =
     (if me_id e = QUIT_ID then t\<lparr>tr_stop := True\<rparr>
      else if me_action e = Some ''overlay'' then spawn_job Open_overlay t
      else if me_action e = Some ''detail'' then spawn_job (Open_detail []) t
      else (case (me_unit e, me_scope e) of
          (Some u, Some sc) \<Rightarrow>
            (if u = [] \<or> sc = [] then t
             else if me_action e = Some ''restart'' then spawn_job (Fix u sc) t
             else if me_action e = Some ''explain'' then spawn_job (Open_detail (explain_query u sc)) t
             else t)
        | _ \<Rightarrow> t))"

definition tray_model :: "bool \<Rightarrow> bool \<Rightarrow> tray \<Rightarrow> menu_entry list" where
  "tray_model web overlay t = menu_model (tr_online t) (tr_units t) web overlay"

text \<open>\<^verbatim>\<open>Event\<close> and \<^verbatim>\<open>EventGroup\<close>.\<close>

definition on_events :: "bool \<Rightarrow> bool \<Rightarrow> (int \<times> pystr) list \<Rightarrow> tray \<Rightarrow> tray" where
  "on_events web overlay events t =
     foldl (\<lambda>t (i, ev). if ev = ''clicked''
        then (case fire (tray_model web overlay t) i of None \<Rightarrow> t | Some e \<Rightarrow> on_menu e t) else t) t events"

text \<open>\<^verbatim>\<open>StatusNotifierItem.update\<close> and \<^verbatim>\<open>DBusMenu.bump\<close>.\<close>

definition update_item :: "rgb \<Rightarrow> pystr \<Rightarrow> pystr \<Rightarrow> tray \<Rightarrow> tray" where
  "update_item c status tip t =
     t\<lparr>tr_color := c, tr_tooltip := tip, tr_status := status,
       tr_signals := tr_signals t @ (if status \<noteq> tr_status t then [''NewStatus''] else [])
         @ [''NewIcon'', ''NewAttentionIcon'', ''NewToolTip'']\<rparr>"

definition bump :: "tray \<Rightarrow> tray" where
  "bump t = t\<lparr>tr_revision := tr_revision t + 1, tr_signals := tr_signals t @ [''LayoutUpdated'']\<rparr>"

text \<open>
  \<^verbatim>\<open>_refresh\<close> once the daemon's reply is there: \<open>client_online\<close> is the client's state then,
  \<open>units\<close> the failed units or \<open>None\<close>.
\<close>

definition refresh :: "bool \<Rightarrow> failed list option \<Rightarrow> tray \<Rightarrow> tray" where
  "refresh client_online units t =
     (let online = (client_online \<and> units \<noteq> None);
          n = int (length (the_default [] units))
      in bump (update_item (health_color online n) (status_word online n) (tooltip online units)
           (t\<lparr>tr_online := online, tr_units := units\<rparr>)))"

section \<open>Properties\<close>

lemma unit_rows_ids: "map me_id (unit_rows us) = concat (map (\<lambda>i. [100 + int i, 200 + int i]) [0..<length us])"
proof -
  have "map me_id (unit_rows us) = concat (map ((\<lambda>i. [100 + int i, 200 + int i]) \<circ> fst) (enumerate 0 us))"
    by (simp add: unit_rows_def map_concat comp_def unit_entry_def plain_entry_def case_prod_beta')
  then show ?thesis by (simp only: map_map [symmetric] map_fst_enumerate) simp
qed

lemma row_ids_distinct: "distinct (concat (map (\<lambda>i. [100 + int i, 200 + int i]) [0..<n])) \<longleftrightarrow> n \<le> 100"
proof (induction n)
  case (Suc n)
  let ?ids = "concat (map (\<lambda>i. [100 + int i, 200 + int i]) [0..<n])"
  have ids: "x \<in> set ?ids \<longleftrightarrow> (\<exists>i < n. x = 100 + int i \<or> x = 200 + int i)" for x by auto
  have "100 + int n \<in> set ?ids \<longleftrightarrow> 100 \<le> n \<and> n \<noteq> 0"
  proof
    assume "100 + int n \<in> set ?ids"
    then show "100 \<le> n \<and> n \<noteq> 0" unfolding ids by auto
  next
    assume "100 \<le> n \<and> n \<noteq> 0"
    then have "n - 100 < n" "100 + int n = 200 + int (n - 100)" by simp_all
    then show "100 + int n \<in> set ?ids" unfolding ids by blast
  qed
  moreover have "200 + int n \<notin> set ?ids" unfolding ids by auto
  ultimately show ?case using Suc.IH by auto
qed simp

text \<open>
  The identifiers of a menu are distinct up to 100 failed units. With more, the restart entry
  of the hundred-and-first has the identifier of the first unit's explanation.
\<close>

lemma menu_ids_distinct:
  "distinct (map me_id (menu_model online units web overlay)) \<longleftrightarrow> \<not> online \<or> length (the_default [] units) \<le> 100"
proof -
  define us where "us = the_default [] units"
  define rows where "rows = (if online then concat (map (\<lambda>i. [100 + int i, 200 + int i]) [0..<length us]) else [])"
  have ids: "map me_id (menu_model online units web overlay) =
      (if overlay then [7000, 7001] else []) @ 1 # rows @ 2 # (if web then [8000] else []) @ [9000]"
    by (cases us) (simp_all add: menu_model_def us_def [symmetric] rows_def unit_rows_ids header_entry_def separator_def
        plain_entry_def INVOKE_ID_def DETAIL_ID_def QUIT_ID_def unit_rows_def [of "[]"])
  have "distinct rows \<longleftrightarrow> \<not> online \<or> length us \<le> 100"
    using row_ids_distinct [of "length us"] by (simp add: rows_def)
  moreover have "set rows \<inter> {7000, 7001, 1, 2, 8000, 9000} = {}" if "\<not> online \<or> length us \<le> 100"
    using that by (auto simp: rows_def)
  ultimately show ?thesis unfolding ids us_def [symmetric] by auto
qed

lemma fire_distinct: "distinct (map me_id model) \<Longrightarrow> e \<in> set model \<Longrightarrow> fire model (me_id e) = Some e"
  by (induction model) (auto simp: fire_def)

lemma fire_listed: "fire model i = Some e \<Longrightarrow> e \<in> set model \<and> me_id e = i"
  by (auto simp: fire_def find_Some_iff)

lemma set_unit_rows:
  assumes "e \<in> set (unit_rows us)"
  shows "\<exists>u \<in> set us. me_unit e = Some (fst u) \<and> me_scope e = Some (snd u)"
proof -
  from assms obtain i u where "(i, u) \<in> set (enumerate 0 us)" and "me_unit e = Some (fst u)" "me_scope e = Some (snd u)"
    by (auto simp: unit_rows_def unit_entry_def)
  moreover from this(1) have "u \<in> set us" by (auto simp: in_set_enumerate_eq)
  ultimately show ?thesis by blast
qed

lemma menu_unit_entries:
  assumes "e \<in> set (menu_model online units web overlay)" "me_unit e = Some u" "me_scope e = Some sc"
  shows "online \<and> (u, sc) \<in> set (the_default [] units)"
proof -
  have "e \<in> set (unit_rows (the_default [] units)) \<and> online"
    using assms by (auto simp: menu_model_def header_entry_def separator_def plain_entry_def
        split: if_splits list.splits)
  then show ?thesis using set_unit_rows [of e "the_default [] units"] assms(2,3) by auto
qed

lemma fire_quit: "fire (tray_model web overlay t) QUIT_ID \<noteq> None"
proof -
  have "plain_entry QUIT_ID ''Close tray icon (nixadmin keeps running)'' \<in> set (tray_model web overlay t)"
    by (simp add: tray_model_def menu_model_def)
  moreover have "me_id (plain_entry QUIT_ID ''Close tray icon (nixadmin keeps running)'') = QUIT_ID"
    by (simp add: plain_entry_def)
  ultimately show ?thesis unfolding fire_def find_None_iff by blast
qed

text \<open>What a job may be, given the tray's state.\<close>

definition job_listed :: "tray \<Rightarrow> tray_job \<Rightarrow> bool" where
  "job_listed t j = (case j of
      Fix u sc \<Rightarrow> tr_online t \<and> (u, sc) \<in> set (the_default [] (tr_units t))
    | Open_detail q \<Rightarrow> q = [] \<or> (\<exists>(u, sc) \<in> set (the_default [] (tr_units t)). q = explain_query u sc)
    | Open_overlay \<Rightarrow> True
    | Refresh \<Rightarrow> False)"

lemma on_menu_effect:
  assumes "fire (tray_model web overlay t) i = Some e"
  shows "tr_online (on_menu e t) = tr_online t" "tr_units (on_menu e t) = tr_units t"
    "\<exists>js. tr_jobs (on_menu e t) = tr_jobs t @ js \<and> list_all (job_listed t) js"
    "tr_stop (on_menu e t) = (tr_stop t \<or> i = QUIT_ID)"
proof -
  from fire_listed [OF assms] have e: "e \<in> set (tray_model web overlay t)" "me_id e = i" by simp_all
  have "tr_online t \<and> (u, sc) \<in> set (the_default [] (tr_units t))" if "me_unit e = Some u" "me_scope e = Some sc" for u sc
    using menu_unit_entries [OF e(1) [unfolded tray_model_def] that] .
  then show "\<exists>js. tr_jobs (on_menu e t) = tr_jobs t @ js \<and> list_all (job_listed t) js"
    by (auto simp: on_menu_def spawn_job_def job_listed_def split: option.splits)
  show "tr_online (on_menu e t) = tr_online t" "tr_units (on_menu e t) = tr_units t"
    "tr_stop (on_menu e t) = (tr_stop t \<or> i = QUIT_ID)"
    using e(2) by (auto simp: on_menu_def spawn_job_def split: option.splits)
qed

text \<open>
   Whatever the desktop sends as clicks, the tray restarts and explains only units that are
  failed by its own last report, with the scope reported, and only while the daemon is
  reachable; and it stops only on a click on its own close entry.
\<close>

theorem clicks_act_on_listed_units:
  "\<exists>js. tr_jobs (on_events web overlay events t) = tr_jobs t @ js \<and> list_all (job_listed t) js \<and>
     tr_stop (on_events web overlay events t) = (tr_stop t \<or> (QUIT_ID, ''clicked'') \<in> set events)"
proof (induction events arbitrary: t)
  case (Cons ev events)
  obtain i name where ev: "ev = (i, name)" by fastforce
  define t' where "t' = on_events web overlay [ev] t"
  have "tr_online t' = tr_online t \<and> tr_units t' = tr_units t \<and>
      (\<exists>js. tr_jobs t' = tr_jobs t @ js \<and> list_all (job_listed t) js) \<and>
      (tr_stop t' \<longleftrightarrow> tr_stop t \<or> ev = (QUIT_ID, ''clicked''))"
  proof (cases "name = ''clicked'' \<and> fire (tray_model web overlay t) i \<noteq> None")
    case True
    then obtain e where e: "fire (tray_model web overlay t) i = Some e" by blast
    with True have "t' = on_menu e t" by (simp add: t'_def on_events_def ev)
    with on_menu_effect [OF e] True show ?thesis by (simp add: ev)
  next
    case False
    then have "t' = t" by (auto simp: t'_def on_events_def ev)
    with False fire_quit [of web overlay t] show ?thesis by (auto simp: ev)
  qed
  moreover from this have "job_listed t' = job_listed t" by (auto simp: fun_eq_iff job_listed_def split: tray_job.split)
  moreover have "on_events web overlay (ev # events) t = on_events web overlay events t'"
    by (simp add: on_events_def t'_def)
  ultimately show ?case using Cons.IH [of t'] by (fastforce simp: list_all_append)
qed (simp add: on_events_def)

text \<open>With at most 100 failed units a click on a restart entry restarts the unit it names.\<close>

lemma click_restarts_its_unit:
  assumes "tr_online t" "tr_units t = Some us" "i < length us" "length us \<le> 100"
    and u: "us ! i = (u, sc)" "u \<noteq> []" "sc \<noteq> []"
  shows "tr_jobs (on_events web overlay [(100 + int i, ''clicked'')] t) = tr_jobs t @ [Fix u sc]"
proof -
  let ?e = "unit_entry (100 + int i) (''Restart '' @ u) ''restart'' (u, sc)"
  have "(i, u, sc) \<in> set (enumerate 0 us)" using assms(3) u by (simp add: in_set_enumerate_eq)
  then have "?e \<in> set (unit_rows us)" unfolding unit_rows_def set_concat by (auto intro!: bexI [of _ "(i, u, sc)"])
  moreover have "set (unit_rows us) \<subseteq> set (tray_model web overlay t)"
    using assms(1,2,3) by (cases us) (auto simp: tray_model_def menu_model_def)
  ultimately have "?e \<in> set (tray_model web overlay t)" by blast
  moreover have "distinct (map me_id (tray_model web overlay t))"
    using assms by (simp add: tray_model_def menu_ids_distinct)
  ultimately have "fire (tray_model web overlay t) (100 + int i) = Some ?e"
    using fire_distinct [of "tray_model web overlay t" ?e] by (simp add: unit_entry_def plain_entry_def)
  with assms show ?thesis
    by (simp add: on_events_def on_menu_def unit_entry_def plain_entry_def QUIT_ID_def spawn_job_def)
qed

text \<open>
  The menu is looked up again at the click, so an entry the person was shown may by then stand for
  another unit: the click on "Restart a.service" restarts b.service.
\<close>

lemma stale_click_restarts_another:
  "let shown = refresh True (Some [(''a.service'', ''system''), (''b.service'', ''system'')]) new_tray;
       later = refresh True (Some [(''b.service'', ''system'')]) shown
   in map_option me_label (fire (tray_model False False shown) 100) = Some ''Restart a.service'' \<and>
      tr_jobs (on_events False False [(100, ''clicked'')] later) = [Fix ''b.service'' ''system'']"
  by (simp add: Let_def refresh_def bump_def update_item_def on_events_def fire_def tray_model_def menu_model_def
      unit_rows_def unit_entry_def header_entry_def plain_entry_def on_menu_def spawn_job_def QUIT_ID_def new_tray_def)

end
