(* ===== verification/Terminal_Client.thy ===== *)
theory Terminal_Client
  imports Tray_Menu Web_Guard Local_LLM
begin

text \<open>
  \<^verbatim>\<open>cli.py\<close>: the terminal client. Its reader task handles the daemon's messages, asking the person
  where a message is a question; its prompt loop sends queries and waits for the end of each
  turn. The two interleave where they await, so a run is a list of the steps between.
\<close>

section \<open>State\<close>

datatype prompt_phase = At_prompt | Turn_waiting | Left | Crashed exn

datatype reader_phase = Reading | Asking message | Reader_ended "exn option"

text \<open>
  \<open>tm_shown\<close> are the texts written to the terminal; \<open>tm_asked\<close> the questions put to the person,
  with the answers in \<open>tm_answers\<close>; \<open>tm_typed\<close> the queries typed at the prompt with their identifiers.
\<close>

record terminal =
  tm_session :: pystr
  tm_shown :: "pystr list"
  tm_spinning :: bool
  tm_streaming :: bool
  tm_turn_done :: bool
  tm_prompt :: prompt_phase
  tm_reader :: reader_phase
  tm_sent :: "message list"
  tm_asked :: "message list"
  tm_answers :: "pystr list"
  tm_typed :: "(pystr \<times> pystr) list"

definition new_terminal :: "pystr \<Rightarrow> terminal" where
  "new_terminal session = \<lparr>tm_session = session, tm_shown = [], tm_spinning = False, tm_streaming = False,
     tm_turn_done = False, tm_prompt = At_prompt, tm_reader = Reading, tm_sent = [], tm_asked = [], tm_answers = [],
     tm_typed = []\<rparr>"

section \<open>Output\<close>

definition write_out :: "pystr \<Rightarrow> terminal \<Rightarrow> terminal" where
  "write_out s t = t\<lparr>tm_shown := tm_shown t @ [s]\<rparr>"

definition escape :: "pystr \<Rightarrow> pystr" where
  "escape seq = CHR 0x1B # ''['' @ seq"

definition spinner_start :: "terminal \<Rightarrow> terminal" where
  "spinner_start t = t\<lparr>tm_spinning := True\<rparr>"

definition spinner_stop :: "terminal \<Rightarrow> terminal" where
  "spinner_stop t = (if tm_spinning t then write_out (carriage_return # escape ''K'') (t\<lparr>tm_spinning := False\<rparr>) else t)"

text \<open>The greeting; \<open>None\<close> where the fields are no dictionary and no list.\<close>

definition ready_chains :: "(pystr \<times> json) list \<Rightarrow> pystr" where
  "ready_chains ready =
     (let names = join '', '' (map fst (filter (\<lambda>(c, r). truthy r) ready))
      in if names \<noteq> [] then names else ''none ready'')"

definition greeting :: "message \<Rightarrow> pystr option" where
  "greeting m =
     (case (get_field m ''ready'', get_field m ''modules'') of
        (JObj ready, JArr mods) \<Rightarrow>
          Some (''nixadmin connected '' @ [CHR 0xB7] @ '' chains: '' @ ready_chains ready @ '' '' @ [CHR 0xB7]
            @ '' modules: '' @ show_int (int (length mods)) @ [newline])
      | _ \<Rightarrow> None)"

text \<open>The four marks of the severities are no characters of the alphabet; control codes stand for them.\<close>

definition severity_mark :: "json \<Rightarrow> char" where
  "severity_mark j =
     (if j = JStr ''info'' then CHR 0x84 else if j = JStr ''warning'' then warning_sign
      else if j = JStr ''error'' then CHR 0x86 else CHR 0x87)"

section \<open>Handling a message\<close>

definition type_error :: "json \<Rightarrow> exn" where
  "type_error j = Foreign ''TypeError'' (''unexpected '' @ type_name j)"

text \<open>What a handler raises ends the reader task: nothing catches it.\<close>

definition reader_fails :: "exn option \<Rightarrow> terminal \<Rightarrow> terminal" where
  "reader_fails e t = t\<lparr>tm_reader := Reader_ended e\<rparr>"

text \<open>\<^verbatim>\<open>_handle\<close> up to its question, if the message is one.\<close>

definition handle_message :: "py_texts \<Rightarrow> message \<Rightarrow> terminal \<Rightarrow> terminal" where
  "handle_message py m t =
     (let cls = msg_class m; txt = get_field m ''text''
      in if cls = Hello then
           (case greeting m of None \<Rightarrow> reader_fails (Some (type_error (get_field m ''ready''))) t | Some g \<Rightarrow> write_out g t)
         else if cls = Delta then
           (let t = (if tm_streaming t then t else (spinner_stop t)\<lparr>tm_streaming := True\<rparr>)
            in case txt of JStr s \<Rightarrow> write_out s t | _ \<Rightarrow> reader_fails (Some (type_error txt)) t)
         else if cls = Status then
           spinner_start (write_out (escape ''2m'' @ [ellipsis] @ '' '' @ py_str py txt @ escape ''0m'' @ [newline]) (spinner_stop t))
         else if cls = Confirm then
           (write_out (newline # py_str py txt @ '' [y/N] '') (spinner_stop t))
             \<lparr>tm_reader := Asking m, tm_asked := tm_asked t @ [m]\<rparr>
         else if cls = Input then
           (write_out (newline # py_str py (get_field m ''prompt'') @ '' '') (spinner_stop t))
             \<lparr>tm_reader := Asking m, tm_asked := tm_asked t @ [m]\<rparr>
         else if cls = Done then
           (let t = spinner_stop t; t = (if tm_streaming t then write_out [newline] t else t)
            in t\<lparr>tm_streaming := False, tm_turn_done := True\<rparr>)
         else if cls = Error then
           (write_out (newline # escape ''31m'' @ ''error:'' @ escape ''0m'' @ '' '' @ py_str py txt @ [newline])
              (spinner_stop t))\<lparr>tm_turn_done := True\<rparr>
         else if cls = Ready then
           write_out (escape ''2m'' @ ''('' @ py_str py (get_field m ''chain'') @ '' chain is now ready)'' @ escape ''0m'' @ [newline]) t
         else if cls = Event then
           (if unhashable (get_field m ''severity'') then reader_fails (Some (type_error (get_field m ''severity''))) t
            else write_out (newline # severity_mark (get_field m ''severity'') # '' '' @ py_str py txt @ [newline]) t)
         else t)"

text \<open>The reader loop's turn on a line: what \<^verbatim>\<open>decode\<close> raises is ignored.\<close>

definition handle_line :: "py_texts \<Rightarrow> pystr \<Rightarrow> terminal \<Rightarrow> terminal" where
  "handle_line py raw t =
     (if tm_reader t \<noteq> Reading \<or> strip raw = [] then t
      else (case decode py (strip raw) of Inl e \<Rightarrow> t | Inr m \<Rightarrow> handle_message py m t))"

section \<open>Questions\<close>

definition says_yes :: "pystr \<Rightarrow> bool" where
  "says_yes ans \<longleftrightarrow> lower (strip ans) \<in> set [''y'', ''yes'']"

definition reply_to :: "message \<Rightarrow> pystr \<Rightarrow> message" where
  "reply_to q ans =
     (if msg_class q = Confirm then mk_message Respond [get_field q ''id'', JBool (says_yes ans), JNull]
      else mk_message Respond [get_field q ''id'', JNull, JStr ans])"

text \<open>The person's line, or what \<^verbatim>\<open>input\<close> raised; \<open>wire\<close> is what the write raises, if anything.\<close>

definition answer_question :: "exn + pystr \<Rightarrow> exn option \<Rightarrow> terminal \<Rightarrow> terminal" where
  "answer_question typed wire t =
     (case tm_reader t of
        Asking q \<Rightarrow>
          (case typed of
             Inl e \<Rightarrow> reader_fails (Some e) t
           | Inr ans \<Rightarrow>
               (let t = t\<lparr>tm_sent := tm_sent t @ [reply_to q ans], tm_answers := tm_answers t @ [ans]\<rparr>
                in case wire of
                     Some e \<Rightarrow> reader_fails (Some e) t
                   | None \<Rightarrow> spinner_start (t\<lparr>tm_reader := Reading\<rparr>)))
      | _ \<Rightarrow> t)"

section \<open>The prompt\<close>

definition query_to :: "pystr \<Rightarrow> pystr \<Rightarrow> pystr \<Rightarrow> message" where
  "query_to qid txt session = mk_message Query [JStr qid, JStr txt, JStr session, JNull]"

text \<open>A line typed at the prompt; the end of the input or an interrupt leaves the program.\<close>

definition type_line :: "exn + pystr \<Rightarrow> pystr \<Rightarrow> exn option \<Rightarrow> terminal \<Rightarrow> terminal" where
  "type_line typed qid wire t =
     (if tm_prompt t \<noteq> At_prompt then t
      else (case typed of
          Inl e \<Rightarrow> t\<lparr>tm_prompt := Left\<rparr>
        | Inr line \<Rightarrow>
            (let txt = strip line
             in if txt = [] then t
                else if txt \<in> set [''exit'', ''quit''] then t\<lparr>tm_prompt := Left\<rparr>
                else (let t = spinner_start (t\<lparr>tm_turn_done := False, tm_streaming := False,
                              tm_sent := tm_sent t @ [query_to qid txt (tm_session t)], tm_typed := tm_typed t @ [(qid, txt)]\<rparr>)
                      in case wire of Some e \<Rightarrow> t\<lparr>tm_prompt := Crashed e\<rparr> | None \<Rightarrow> t\<lparr>tm_prompt := Turn_waiting\<rparr>))))"

definition resume_prompt :: "terminal \<Rightarrow> terminal" where
  "resume_prompt t = (if tm_prompt t = Turn_waiting \<and> tm_turn_done t then t\<lparr>tm_prompt := At_prompt\<rparr> else t)"

text \<open>The stream ended, or the read raised.\<close>

definition end_reader :: "exn option \<Rightarrow> terminal \<Rightarrow> terminal" where
  "end_reader e t = (if tm_reader t = Reading then reader_fails e t else t)"

text \<open>
  \<^verbatim>\<open>_run\<close> up to the two loops: an exit code, or the terminal after the greeting. Only some
  exceptions become an exit code.
\<close>

definition start_client :: "py_texts \<Rightarrow> pystr \<Rightarrow> exn + unit \<Rightarrow> exn + message \<Rightarrow> exn + (int + terminal)" where
  "start_client py session connected_to hello =
     (case connected_to of
        Inl (Foreign cls msg) \<Rightarrow>
          (if cls \<in> set [''FileNotFoundError'', ''ConnectionRefusedError''] then Inr (Inl 1) else Inl (Foreign cls msg))
      | Inl e \<Rightarrow> Inl e
      | Inr _ \<Rightarrow>
          (case hello of
             Inl e \<Rightarrow> (if is_protocol_error e then Inr (Inl 1) else Inl e)
           | Inr m \<Rightarrow>
               (let t = handle_message py m (new_terminal session)
                in case tm_reader t of Reader_ended (Some e) \<Rightarrow> Inl e | _ \<Rightarrow> Inr (Inr t))))"

datatype terminal_event =
    Line_in pystr | Answered "exn + pystr" "exn option" | Typed "exn + pystr" pystr "exn option" | Resumes
  | Stream_closed "exn option"

definition terminal_step :: "py_texts \<Rightarrow> terminal \<Rightarrow> terminal_event \<Rightarrow> terminal" where
  "terminal_step py t ev =
     (if tm_prompt t = Left \<or> (\<exists>e. tm_prompt t = Crashed e) then t
      else (case ev of
          Line_in raw \<Rightarrow> handle_line py raw t
        | Answered typed wire \<Rightarrow> answer_question typed wire t
        | Typed typed qid wire \<Rightarrow> type_line typed qid wire t
        | Resumes \<Rightarrow> resume_prompt t
        | Stream_closed e \<Rightarrow> end_reader e t))"

section \<open>The invariant\<close>

definition is_respond :: "message \<Rightarrow> bool" where
  "is_respond m \<longleftrightarrow> msg_class m = Respond"

text \<open>
  Every question but the open one has been answered, unless the reader ended; what was sent are
  the replies and the queries.
\<close>

definition terminal_inv :: "terminal \<Rightarrow> bool" where
  "terminal_inv t \<longleftrightarrow>
     filter is_respond (tm_sent t) = map2 reply_to (tm_asked t) (tm_answers t) \<and>
     filter (\<lambda>m. \<not> is_respond m) (tm_sent t) = map (\<lambda>(qid, txt). query_to qid txt (tm_session t)) (tm_typed t) \<and>
     (case tm_reader t of
        Reading \<Rightarrow> length (tm_answers t) = length (tm_asked t)
      | Asking q \<Rightarrow> tm_asked t \<noteq> [] \<and> last (tm_asked t) = q \<and> length (tm_asked t) = Suc (length (tm_answers t))
      | Reader_ended e \<Rightarrow> length (tm_answers t) \<le> length (tm_asked t)) \<and>
     list_all (\<lambda>(qid, txt). txt \<noteq> [] \<and> txt \<notin> set [''exit'', ''quit'']) (tm_typed t)"

text \<open>The updates the invariant does not see.\<close>

lemma terminal_inv_output [simp]:
  "terminal_inv (t\<lparr>tm_shown := a\<rparr>) = terminal_inv t" "terminal_inv (t\<lparr>tm_spinning := b\<rparr>) = terminal_inv t"
  "terminal_inv (t\<lparr>tm_streaming := c\<rparr>) = terminal_inv t" "terminal_inv (t\<lparr>tm_turn_done := d\<rparr>) = terminal_inv t"
  "terminal_inv (t\<lparr>tm_prompt := p\<rparr>) = terminal_inv t"
  by (simp_all add: terminal_inv_def split: reader_phase.split)

lemma zip_longer: "length bs \<le> length as \<Longrightarrow> zip (as @ cs) bs = zip as bs"
  by (simp add: zip_append1)

lemma reply_is_respond [simp]: "is_respond (reply_to q ans)"
  by (simp add: is_respond_def reply_to_def mk_message_def)

lemma terminal_inv_written [simp]:
  "terminal_inv (write_out s t) = terminal_inv t" "terminal_inv (spinner_start t) = terminal_inv t"
  "terminal_inv (spinner_stop t) = terminal_inv t"
  by (simp_all add: write_out_def spinner_start_def spinner_stop_def)

lemma written_keeps [simp]:
  "tm_reader (write_out s t) = tm_reader t" "tm_asked (write_out s t) = tm_asked t"
  "tm_reader (spinner_stop t) = tm_reader t" "tm_asked (spinner_stop t) = tm_asked t"
  by (simp_all add: write_out_def spinner_stop_def)

lemma terminal_inv_fails: "terminal_inv t \<Longrightarrow> terminal_inv (reader_fails e t)"
  by (auto simp: terminal_inv_def reader_fails_def split: reader_phase.splits)

lemma terminal_inv_asks:
  "terminal_inv t \<Longrightarrow> tm_reader t = Reading \<Longrightarrow> terminal_inv (t\<lparr>tm_reader := Asking q, tm_asked := tm_asked t @ [q]\<rparr>)"
  by (simp add: terminal_inv_def zip_longer)

lemma terminal_inv_handle:
  assumes "terminal_inv t" "tm_reader t = Reading"
  shows "terminal_inv (handle_message py m t)"
proof -
  have "terminal_inv (write_out s (spinner_stop t)\<lparr>tm_reader := Asking m, tm_asked := tm_asked t @ [m]\<rparr>)" for s
    using terminal_inv_asks [of "write_out s (spinner_stop t)" m] assms by simp
  with assms show ?thesis
    by (auto simp: handle_message_def Let_def intro!: terminal_inv_fails split: option.split json.split)
qed

lemma terminal_inv_line [step_intros]: "terminal_inv t \<Longrightarrow> terminal_inv (handle_line py raw t)"
  by (auto simp: handle_line_def intro: terminal_inv_handle split: sum.split)

lemma terminal_inv_answer [step_intros]: "terminal_inv t \<Longrightarrow> terminal_inv (answer_question typed wire t)"
proof -
  assume inv: "terminal_inv t"
  have "terminal_inv (t\<lparr>tm_sent := tm_sent t @ [reply_to q ans], tm_answers := tm_answers t @ [ans], tm_reader := p\<rparr>)"
    if q: "tm_reader t = Asking q" and p: "p = Reading \<or> p = Reader_ended e" for q ans p e
  proof -
    obtain qs where "tm_asked t = qs @ [q]" "length qs = length (tm_answers t)"
      using inv q by (cases "tm_asked t" rule: rev_cases) (auto simp: terminal_inv_def)
    with inv q p show ?thesis
      by (auto simp: terminal_inv_def zip_longer)
  qed
  with inv show ?thesis
    by (auto simp: answer_question_def reader_fails_def Let_def intro: terminal_inv_fails [unfolded reader_fails_def]
        split: reader_phase.split sum.split option.split)
qed

lemma terminal_inv_type [step_intros]: "terminal_inv t \<Longrightarrow> terminal_inv (type_line typed qid wire t)"
  by (auto simp: type_line_def Let_def terminal_inv_def spinner_start_def is_respond_def query_to_def mk_message_def
      split: sum.split option.split reader_phase.split)

lemma terminal_inv_resume [step_intros]: "terminal_inv t \<Longrightarrow> terminal_inv (resume_prompt t)"
  by (simp add: resume_prompt_def)

lemma terminal_inv_end [step_intros]: "terminal_inv t \<Longrightarrow> terminal_inv (end_reader e t)"
  by (simp add: end_reader_def terminal_inv_fails)

interpretation terminal_link: event_machine "terminal_step py" terminal_inv for py
  by unfold_locales (auto simp: terminal_step_def intro: step_intros split: terminal_event.split)

section \<open>Properties\<close>

text \<open>A reply that says yes, and the question and the typed line that stand behind it.\<close>

definition confirming :: "message \<Rightarrow> bool" where
  "confirming m \<longleftrightarrow> is_respond m \<and> get_field m ''confirmed'' = JBool True"

definition typed_yes :: "(message \<times> pystr) list \<Rightarrow> message \<Rightarrow> bool" where
  "typed_yes answered m \<longleftrightarrow>
     list_ex (\<lambda>(q, ans). msg_class q = Confirm \<and> get_field m ''id'' = get_field q ''id'' \<and>
       lower (strip ans) \<in> set [''y'', ''yes'']) answered"


text \<open>A daemon that accepts and says nothing ends the client with an unhandled exception.\<close>

lemma silent_daemon_crashes:
  "start_client py session (Inr ()) (Inl (Foreign ''TimeoutError'' msg)) = Inl (Foreign ''TimeoutError'' msg)"
  by (simp add: start_client_def)

text \<open>
  When the connection is lost while a query runs, the prompt waits for ever: the reader ended and
  nothing else ends the turn.
\<close>

lemma lost_daemon_hangs:
  assumes "tm_reader t = Reader_ended e" "tm_prompt t = Turn_waiting" "\<not> tm_turn_done t"
  shows "tm_prompt (foldl (terminal_step py) t es) = Turn_waiting"
proof -
  let ?stuck = "\<lambda>t. tm_reader t = Reader_ended e \<and> tm_prompt t = Turn_waiting \<and> \<not> tm_turn_done t"
  have "?stuck t \<Longrightarrow> ?stuck (terminal_step py t ev)" for t ev
    by (simp add: terminal_step_def handle_line_def answer_question_def type_line_def resume_prompt_def end_reader_def
        split: terminal_event.split)
  then have "?stuck t \<Longrightarrow> ?stuck (foldl (terminal_step py) t es)"
    by (induction es arbitrary: t) auto
  with assms show ?thesis by blast
qed

end
