(* ===== verification/Lifecycle.thy ===== *)
theory Lifecycle
  imports Monitors Actions Autofix
begin

text \<open>
  The life of the daemon in \<^verbatim>\<open>server.py\<close>: \<^verbatim>\<open>run\<close>, \<^verbatim>\<open>aclose\<close> and \<^verbatim>\<open>_serve\<close>, and the loop of autofix
  polls. The parts it starts and stops are the models of their components; the calls of the
  operating system, and whatever happens while it serves, are parameters.
\<close>

section \<open>State\<close>

datatype life_task =
    Monitor_task pystr pystr | Event_prune_loop | Autofix_loop | Readiness_loop | Watchdog_loop

datatype life_step =
    Socket_removed | Socket_bound | Socket_mode_set | Task_started life_task | Worktrees_tried | Events_pruned
  | Autofix_seeded | Notified pystr | Served

text \<open>
  The daemon, its connections, its two task sets, whether the autofix task runs, and the steps
  that were completed.
\<close>

record 'w life =
  lf_daemon :: "'w daemon"
  lf_manager :: manager
  lf_tasks :: task_set
  lf_monitors :: task_set
  lf_autofix :: bool
  lf_steps :: "life_step list"

record 'w life_calls =
  lc_unlink :: "pystr \<Rightarrow> ('w, unit) act"
  lc_bind :: "pystr \<Rightarrow> ('w, unit) act"
  lc_chmod :: "pystr \<Rightarrow> ('w, unit) act"
  lc_datagram :: "pystr \<Rightarrow> pystr \<Rightarrow> ('w, unit) act"
  lc_env :: manager_env
  lc_pid :: int
  lc_serve :: "'w life \<Rightarrow> (exn + unit) \<times> 'w life"

section \<open>Starting\<close>

text \<open>An operation on the daemon that counts as a step when it succeeds.\<close>

definition perform :: "life_step \<Rightarrow> ('w daemon, 'a) act \<Rightarrow> ('w life, unit) act" where
  "perform s m l =
     (case m (lf_daemon l) of
        (Inl e, d) \<Rightarrow> (Inl e, l\<lparr>lf_daemon := d\<rparr>)
      | (Inr _, d) \<Rightarrow> (Inr (), l\<lparr>lf_daemon := d, lf_steps := lf_steps l @ [s]\<rparr>))"

definition start_task :: "life_task \<Rightarrow> ('w life, unit) act" where
  "start_task t l =
     (case t of
        Autofix_loop \<Rightarrow> (Inr (), l\<lparr>lf_autofix := True, lf_steps := lf_steps l @ [Task_started t]\<rparr>)
      | Monitor_task md mn \<Rightarrow>
          (case spawn (lf_monitors l) of
             (Inl e, ts) \<Rightarrow> (Inl e, l\<lparr>lf_monitors := ts\<rparr>)
           | (Inr _, ts) \<Rightarrow> (Inr (), l\<lparr>lf_monitors := ts, lf_steps := lf_steps l @ [Task_started t]\<rparr>))
      | _ \<Rightarrow>
          (case spawn (lf_tasks l) of
             (Inl e, ts) \<Rightarrow> (Inl e, l\<lparr>lf_tasks := ts\<rparr>)
           | (Inr _, ts) \<Rightarrow> (Inr (), l\<lparr>lf_tasks := ts, lf_steps := lf_steps l @ [Task_started t]\<rparr>)))"

fun start_tasks :: "life_task list \<Rightarrow> ('w life, unit) act" where
  "start_tasks [] = ret ()"
| "start_tasks (t # ts) = andthen (start_task t) (\<lambda>_. start_tasks ts)"

definition monitor_tasks :: "module list \<Rightarrow> life_task list" where
  "monitor_tasks mods = map (\<lambda>(md, m). Monitor_task (md_name md) (mn_name m)) (started mods)"

text \<open>\<^verbatim>\<open>except Exception\<close>: nothing an operation raises is passed on.\<close>

definition best_effort :: "('w, 'a) act \<Rightarrow> ('w, unit) act" where
  "best_effort m w = (Inr (), snd (m w))"

definition READY_TEXT :: pystr where "READY_TEXT = ''READY=1'' @ [newline] @ ''STATUS=Listening for requests''"
definition STOPPING_TEXT :: pystr where "STOPPING_TEXT = ''STOPPING=1'' @ [newline] @ ''STATUS=Shutting down''"

definition notify_step :: "'w life_calls \<Rightarrow> pystr \<Rightarrow> ('w life, unit) act" where
  "notify_step lc txt = perform (Notified txt) (lift (notify (lc_datagram lc) (lc_env lc) txt))"

definition serve_step :: "'w life_calls \<Rightarrow> ('w life, unit) act" where
  "serve_step lc l =
     (case lc_serve lc l of
        (Inl e, l') \<Rightarrow> (Inl e, l'\<lparr>lf_steps := lf_steps l\<rparr>)
      | (Inr _, l') \<Rightarrow> (Inr (), l'\<lparr>lf_steps := lf_steps l @ [Served]\<rparr>))"

definition bind_socket :: "'w services \<Rightarrow> 'w life_calls \<Rightarrow> ('w life, unit) act" where
  "bind_socket sv lc =
     (let sock = cfg_socket_path (sv_config sv)
      in andthen (perform Socket_removed (lift (lc_unlink lc sock))) (\<lambda>_.
         andthen (perform Socket_bound (lift (lc_bind lc sock))) (\<lambda>_.
           perform Socket_mode_set (lift (lc_chmod lc sock)))))"

definition housekeeping :: "'w services \<Rightarrow> ('w life, unit) act" where
  "housekeeping sv =
     andthen (if cfg_flake_dir (sv_config sv) \<noteq> []
              then perform Worktrees_tried (best_effort (lift (prune_abandoned_worktrees (sv_files sv) (sv_host sv)
                     (cfg_flake_dir (sv_config sv))))) else ret ()) (\<lambda>_.
       if 0 < cfg_retention_days (sv_config sv)
       then andthen (perform Events_pruned (\<lambda>d. (Inr (), prune_events sv d))) (\<lambda>_. start_task Event_prune_loop)
       else ret ())"

definition start_loops :: "'w services \<Rightarrow> 'w life_calls \<Rightarrow> ('w life, unit) act" where
  "start_loops sv lc =
     andthen (if cfg_autofix (sv_config sv)
              then andthen (perform Autofix_seeded (seed (sv_host sv))) (\<lambda>_. start_task Autofix_loop) else ret ()) (\<lambda>_.
     andthen (start_task Readiness_loop) (\<lambda>_.
       if watchdog_interval (lc_env lc) (lc_pid lc) \<noteq> None then start_task Watchdog_loop else ret ()))"

definition run_daemon :: "'w services \<Rightarrow> 'w life_calls \<Rightarrow> ('w life, unit) act" where
  "run_daemon sv lc =
     andthen (bind_socket sv lc) (\<lambda>_.
     andthen (start_tasks (monitor_tasks (sv_modules sv))) (\<lambda>_.
     andthen (housekeeping sv) (\<lambda>_.
     andthen (start_loops sv lc) (\<lambda>_.
     andthen (notify_step lc READY_TEXT) (\<lambda>_. serve_step lc)))))"

section \<open>Stopping\<close>

definition close_store :: "store \<Rightarrow> store" where
  "close_store st = (case st of NullStore \<Rightarrow> NullStore | EventStore db \<Rightarrow> EventStore (close_db db))"

text \<open>The closing of the parts, none of which raises.\<close>

definition close_parts :: "'w life \<Rightarrow> 'w life" where
  "close_parts l =
     l\<lparr>lf_autofix := False, lf_manager := close_all (lf_manager l), lf_tasks := begin_close (lf_tasks l),
       lf_monitors := begin_close (lf_monitors l),
       lf_daemon := (lf_daemon l)\<lparr>dm_store := close_store (dm_store (lf_daemon l))\<rparr>\<rparr>"

definition close_daemon :: "'w services \<Rightarrow> 'w life_calls \<Rightarrow> ('w life, unit) act" where
  "close_daemon sv lc =
     andthen (notify_step lc STOPPING_TEXT) (\<lambda>_ l.
       perform Socket_removed (lift (lc_unlink lc (cfg_socket_path (sv_config sv)))) (close_parts l))"

text \<open>\<^verbatim>\<open>try: run() finally: aclose()\<close>; what the closing raises replaces what was raised before.\<close>

definition serve_daemon :: "'w services \<Rightarrow> 'w life_calls \<Rightarrow> ('w life, unit) act" where
  "serve_daemon sv lc l =
     (case run_daemon sv lc l of
        (r, l1) \<Rightarrow> (case close_daemon sv lc l1 of (Inl e, l2) \<Rightarrow> (Inl e, l2) | (Inr _, l2) \<Rightarrow> (r, l2)))"

section \<open>Autofix polls\<close>

text \<open>A turn of the loop: a poll that raises is only logged.\<close>

definition autofix_tick :: "'w host \<Rightarrow> autofix_config \<Rightarrow> (pystr \<Rightarrow> ('w, pystr) act) \<Rightarrow> 'w daemon \<Rightarrow> 'w daemon" where
  "autofix_tick h cfg rs d = snd (run_once h cfg rs d)"

text \<open>The loop over time: before each poll the world has moved on to \<open>w\<close>.\<close>

definition autofix_ticks :: "'w host \<Rightarrow> autofix_config \<Rightarrow> (pystr \<Rightarrow> ('w, pystr) act) \<Rightarrow> 'w daemon \<Rightarrow> 'w list \<Rightarrow> 'w daemon" where
  "autofix_ticks h cfg rs = foldl (\<lambda>d w. autofix_tick h cfg rs (d\<lparr>dm_world := w\<rparr>))"

section \<open>Order of the start\<close>

definition startup_plan :: "'w services \<Rightarrow> 'w life_calls \<Rightarrow> life_step list" where
  "startup_plan sv lc =
     [Socket_removed, Socket_bound, Socket_mode_set] @ map Task_started (monitor_tasks (sv_modules sv))
     @ (if cfg_flake_dir (sv_config sv) \<noteq> [] then [Worktrees_tried] else [])
     @ (if 0 < cfg_retention_days (sv_config sv) then [Events_pruned, Task_started Event_prune_loop] else [])
     @ (if cfg_autofix (sv_config sv) then [Autofix_seeded, Task_started Autofix_loop] else [])
     @ Task_started Readiness_loop
     # (if watchdog_interval (lc_env lc) (lc_pid lc) \<noteq> None then [Task_started Watchdog_loop] else [])
     @ [Notified READY_TEXT, Served]"

text \<open>An operation whose steps are a plan, cut short only by what it raises.\<close>

definition follows_plan :: "life_step list \<Rightarrow> ('w life, unit) act \<Rightarrow> bool" where
  "follows_plan plan m \<longleftrightarrow> (\<forall>l. case m l of
      (Inr _, l') \<Rightarrow> lf_steps l' = lf_steps l @ plan
    | (Inl e, l') \<Rightarrow> \<exists>k < length plan. lf_steps l' = lf_steps l @ take k plan)"

named_theorems plan_intros

lemma plan_ret [plan_intros]: "follows_plan [] (ret ())"
  by (simp add: follows_plan_def ret_def)

lemma plan_perform [plan_intros]: "follows_plan [s] (perform s m)"
  by (auto simp: follows_plan_def perform_def split: prod.split sum.split)

lemma plan_task [plan_intros]: "follows_plan [Task_started t] (start_task t)"
  by (auto simp: follows_plan_def start_task_def split: prod.split sum.split life_task.split)

lemma plan_serve [plan_intros]: "follows_plan [Served] (serve_step lc)"
  by (auto simp: follows_plan_def serve_step_def split: prod.split sum.split)

lemma plan_notify [plan_intros]: "follows_plan [Notified txt] (notify_step lc txt)"
  unfolding notify_step_def by (rule plan_perform)

lemma plan_then [plan_intros]:
  assumes m: "follows_plan p m" and f: "follows_plan q f"
  shows "follows_plan (p @ q) (andthen m (\<lambda>_. f))"
  unfolding follows_plan_def
proof
  fix l
  show "case andthen m (\<lambda>_. f) l of
      (Inr _, l') \<Rightarrow> lf_steps l' = lf_steps l @ p @ q
    | (Inl e, l') \<Rightarrow> \<exists>k < length (p @ q). lf_steps l' = lf_steps l @ take k (p @ q)"
  proof (cases "m l")
    case (Pair r l1)
    show ?thesis
    proof (cases r)
      case (Inl e)
      with m [unfolded follows_plan_def, rule_format, of l] Pair obtain k where
        "k < length p" "lf_steps l1 = lf_steps l @ take k p" by auto
      with Pair Inl show ?thesis by (auto simp: andthen_def intro!: exI [of _ k])
    next
      case (Inr x)
      with m [unfolded follows_plan_def, rule_format, of l] Pair have s1: "lf_steps l1 = lf_steps l @ p" by simp
      obtain r2 l2 where f2: "f l1 = (r2, l2)" by fastforce
      show ?thesis
      proof (cases r2)
        case (Inl e)
        with f [unfolded follows_plan_def, rule_format, of l1] f2 obtain k where
          "k < length q" "lf_steps l2 = lf_steps l1 @ take k q" by auto
        with Pair Inr Inl f2 s1 show ?thesis by (auto simp: andthen_def intro!: exI [of _ "length p + k"])
      next
        case (Inr y)
        with f [unfolded follows_plan_def, rule_format, of l1] f2 s1 Pair \<open>r = Inr x\<close>
        show ?thesis by (simp add: andthen_def)
      qed
    qed
  qed
qed

lemma plan_if [plan_intros]:
  "follows_plan p m \<Longrightarrow> follows_plan [] f \<Longrightarrow> follows_plan (if b then p else []) (if b then m else f)"
  by simp

lemma plan_tasks [plan_intros]: "follows_plan (map Task_started ts) (start_tasks ts)"
proof (induction ts)
  case (Cons t ts)
  from plan_then [OF plan_task [of t] Cons.IH] show ?case by simp
qed (simp add: plan_ret)

lemma plan_cong: "follows_plan p m \<Longrightarrow> p = q \<Longrightarrow> follows_plan q m"
  by simp

lemma plan_run: "follows_plan (startup_plan sv lc) (run_daemon sv lc)"
  unfolding run_daemon_def bind_socket_def housekeeping_def start_loops_def Let_def
  by (rule plan_cong, (rule plan_then plan_if plan_tasks plan_perform plan_task plan_serve plan_notify plan_ret)+)
    (simp add: startup_plan_def)

text \<open>
   The daemon starts in a fixed order, whatever fails on the way: it tells the service manager that
  it is ready only with the socket bound and its mode set, every monitor started, the event
  timeline pruned, and the units already failed recorded before the first autofix poll can run.
\<close>

theorem startup_in_order:
  "case run_daemon sv lc l of
     (Inr _, l') \<Rightarrow> lf_steps l' = lf_steps l @ startup_plan sv lc
   | (Inl e, l') \<Rightarrow> \<exists>k < length (startup_plan sv lc). lf_steps l' = lf_steps l @ take k (startup_plan sv lc)"
  using plan_run [unfolded follows_plan_def, rule_format] .

section \<open>After the end\<close>

lemma close_all_clients: "mg_clients (close_all mg) = [] \<and> mg_closing (close_all mg)"
proof -
  have "mg_clients (foldl (\<lambda>m n. close_connection n m) mg ns) = filter (\<lambda>(k, c). k \<notin> set ns) (mg_clients mg)" for ns mg
    by (induction ns arbitrary: mg) (auto simp: closed_clients intro: filter_cong)
  moreover have "mg_closing (close_connection n mg) = mg_closing mg" for n mg
    by (simp add: close_connection_def split: option.split)
  then have "mg_closing (foldl (\<lambda>m n. close_connection n m) mg ns) = mg_closing mg" for ns mg
    by (induction ns arbitrary: mg) auto
  ultimately show ?thesis by (force simp: close_all_def filter_empty_conv)
qed

lemma perform_keeps [simp]:
  "lf_manager (snd (perform s m l)) = lf_manager l" "lf_tasks (snd (perform s m l)) = lf_tasks l"
  "lf_monitors (snd (perform s m l)) = lf_monitors l" "lf_autofix (snd (perform s m l)) = lf_autofix l"
  "lf_daemon (snd (perform s m l)) = snd (m (lf_daemon l))"
  by (simp_all add: perform_def split: prod.split sum.split)

definition stopped :: "'w life \<Rightarrow> bool" where
  "stopped l \<longleftrightarrow> mg_clients (lf_manager l) = [] \<and> mg_closing (lf_manager l) \<and> \<not> lf_autofix l \<and>
     isl (fst (spawn (lf_tasks l))) \<and> set (ts_tasks (lf_tasks l)) \<subseteq> ts_asked (lf_tasks l) \<and>
     isl (fst (spawn (lf_monitors l))) \<and> set (ts_tasks (lf_monitors l)) \<subseteq> ts_asked (lf_monitors l) \<and>
     (case dm_store (lf_daemon l) of NullStore \<Rightarrow> True | EventStore db \<Rightarrow> closed db)"

lemma stopped_close_parts: "stopped (close_parts l)"
  by (auto simp: stopped_def close_parts_def close_all_clients begin_close_def spawn_def close_store_def close_db_def
      split: store.split)

lemma stopped_perform_lift: "stopped (snd (perform s (lift m) l)) = stopped l"
  by (simp add: stopped_def lift_keeps)

lemma notify_step_returns:
  assumes "\<And>a m w e w'. lc_datagram lc a m w = (Inl e, w') \<Longrightarrow> is_os_error e"
  shows "\<exists>l'. notify_step lc txt l = (Inr (), l')"
proof -
  have "\<exists>b w'. notify (lc_datagram lc) (lc_env lc) txt w = (Inr b, w')" for w
    using assms by (auto simp: notify_def Let_def split: prod.split sum.split)
  then obtain b w' where "notify (lc_datagram lc) (lc_env lc) txt (dm_world (lf_daemon l)) = (Inr b, w')" by blast
  then show ?thesis by (simp add: notify_step_def perform_def lift_def)
qed


definition plain_calls :: "unit life_calls" where
  "plain_calls = \<lparr>lc_unlink = (\<lambda>_. ret ()), lc_bind = (\<lambda>_. raise (Foreign ''OSError'' ''in use'')), lc_chmod = (\<lambda>_. ret ()),
     lc_datagram = (\<lambda>_ _. raise (Foreign ''OSError'' ''no socket'')), lc_env = [''NOTIFY_SOCKET'' \<mapsto> ''@manager''], lc_pid = 7,
     lc_serve = ret ()\<rparr>"


section \<open>Failures present at the start\<close>

text \<open>At each poll nothing has failed that had not failed before: units only recover.\<close>

fun only_recoveries :: "'w host \<Rightarrow> unit_key set \<Rightarrow> 'w list \<Rightarrow> bool" where
  "only_recoveries h seen [] \<longleftrightarrow> True"
| "only_recoveries h seen (w # ws) \<longleftrightarrow>
     (case failed_units h w of
        (Inl e, w') \<Rightarrow> only_recoveries h seen ws
      | (Inr us, w') \<Rightarrow> set (failed_keys us) \<subseteq> seen \<and> only_recoveries h (set (failed_keys us)) ws)"

lemma tick_known:
  assumes "failed_units h w = (Inr us, w')" "set (failed_keys us) \<subseteq> dm_seen d"
  shows "autofix_tick h cfg rs (d\<lparr>dm_world := w\<rparr>) = d\<lparr>dm_world := w', dm_seen := set (failed_keys us)\<rparr>"
proof -
  from assms(2) have "dm_seen d \<inter> set (failed_keys us) = set (failed_keys us)" by blast
  with assms(1) show ?thesis
    by (simp add: autofix_tick_def run_once_def andthen_def lift_def handle_new_known)
qed

lemma tick_unlisted:
  "failed_units h w = (Inl e, w') \<Longrightarrow> autofix_tick h cfg rs (d\<lparr>dm_world := w\<rparr>) = d\<lparr>dm_world := w'\<rparr>"
  by (simp add: autofix_tick_def run_once_def andthen_def lift_def)


definition one_failed :: script where
  "one_failed = script_of [Exited (Some 0) ''a.service loaded failed failed A'', Exited (Some 0) []]"

lemma one_failed_keys:
  "\<exists>w us. failed_units script_host one_failed = (Inr us, w) \<and> set (failed_keys us) = {(''a.service'', ''system'')}"
proof -
  have "fst (failed_units script_host one_failed) =
      Inr [\<lparr>fu_unit = ''a.service'', fu_scope = ''system'', fu_description = ''A''\<rparr>]" by code_simp
  then obtain w where "failed_units script_host one_failed =
      (Inr [\<lparr>fu_unit = ''a.service'', fu_scope = ''system'', fu_description = ''A''\<rparr>], w)" by (metis prod.collapse)
  then show ?thesis by (simp add: failed_keys_def dict_fromkeys_def)
qed


end
