(* ===== verification/Session_Locks.thy ===== *)
theory Session_Locks
  imports Nixadmin_Prelude
begin

text \<open>
  The per-session lock of \<^verbatim>\<open>session.py\<close> as \<^verbatim>\<open>_dispatch\<close> of \<^verbatim>\<open>server.py\<close> takes it: queries of one
  session run one after another. \<^verbatim>\<open>asyncio.Lock\<close> hands over in the order of arrival. A query is
  known by its number and the session it names.
\<close>

record session_lock =
  lk_holder :: "nat option"
  lk_waiters :: "nat list"

definition free_lock :: session_lock where
  "free_lock = \<lparr>lk_holder = None, lk_waiters = []\<rparr>"

text \<open>
  \<open>se_arrived\<close> are the queries whose task reached the lock, \<open>se_ran\<close> those that entered their body,
  \<open>se_over\<close> those whose body ended, \<open>se_dropped\<close> those cancelled before they entered, each in order.
\<close>

record registry =
  se_locks :: "string \<rightharpoonup> session_lock"
  se_arrived :: "(nat \<times> string) list"
  se_ran :: "(nat \<times> string) list"
  se_over :: "nat list"
  se_dropped :: "nat list"

definition new_registry :: registry where
  "new_registry = \<lparr>se_locks = Map.empty, se_arrived = [], se_ran = [], se_over = [], se_dropped = []\<rparr>"

text \<open>\<^verbatim>\<open>SessionRegistry.lock\<close>: the lock of a session, made when it is first asked for.\<close>

definition lock_of :: "string \<Rightarrow> registry \<Rightarrow> session_lock" where
  "lock_of s r = the_default free_lock (se_locks r s)"

definition acquire :: "nat \<Rightarrow> string \<Rightarrow> registry \<Rightarrow> registry" where
  "acquire q s r =
     (let lk = lock_of s r; r = r\<lparr>se_arrived := se_arrived r @ [(q, s)]\<rparr>
      in if lk_holder lk = None \<and> lk_waiters lk = []
         then r\<lparr>se_locks := (se_locks r)(s \<mapsto> lk\<lparr>lk_holder := Some q\<rparr>), se_ran := se_ran r @ [(q, s)]\<rparr>
         else r\<lparr>se_locks := (se_locks r)(s \<mapsto> lk\<lparr>lk_waiters := lk_waiters lk @ [q]\<rparr>)\<rparr>)"

text \<open>
  The body ended, whatever it raised: the lock is free and the first waiter is woken. The woken task
  enters when the event loop resumes it; until then an arrival still queues up behind it.
\<close>

definition release :: "nat \<Rightarrow> string \<Rightarrow> registry \<Rightarrow> registry" where
  "release q s r =
     (let lk = lock_of s r
      in if lk_holder lk \<noteq> Some q then r
         else r\<lparr>se_locks := (se_locks r)(s \<mapsto> lk\<lparr>lk_holder := None\<rparr>), se_over := se_over r @ [q]\<rparr>)"

definition woken :: "string \<Rightarrow> registry \<Rightarrow> registry" where
  "woken s r =
     (let lk = lock_of s r
      in case (lk_holder lk, lk_waiters lk) of
           (None, q # qs) \<Rightarrow> r\<lparr>se_locks := (se_locks r)(s \<mapsto> \<lparr>lk_holder = Some q, lk_waiters = qs\<rparr>),
                              se_ran := se_ran r @ [(q, s)]\<rparr>
         | _ \<Rightarrow> r)"

text \<open>
  The task of a waiting query is cancelled, woken or not: it leaves the queue, and the next one is the
  first. The \<^verbatim>\<open>try\<close> that answers a
  cancellation with \<^verbatim>\<open>Done\<close> is inside the lock, so nothing is sent.
\<close>

definition cancel_waiting :: "nat \<Rightarrow> string \<Rightarrow> registry \<Rightarrow> registry" where
  "cancel_waiting q s r =
     (let lk = lock_of s r
      in if q \<notin> set (lk_waiters lk) then r
         else r\<lparr>se_locks := (se_locks r)(s \<mapsto> lk\<lparr>lk_waiters := removeAll q (lk_waiters lk)\<rparr>),
                se_dropped := se_dropped r @ [q]\<rparr>)"

datatype lock_event = Arrives nat string | Body_ends nat string | Woken string | Cancelled_waiting nat string

definition lock_step :: "registry \<Rightarrow> lock_event \<Rightarrow> registry" where
  "lock_step r ev =
     (case ev of
        Arrives q s \<Rightarrow> (if q \<in> fst ` set (se_arrived r) then r else acquire q s r)
      | Body_ends q s \<Rightarrow> release q s r
      | Woken s \<Rightarrow> woken s r
      | Cancelled_waiting q s \<Rightarrow> cancel_waiting q s r)"

section \<open>The invariant\<close>

definition of_session :: "string \<Rightarrow> (nat \<times> string) list \<Rightarrow> nat list" where
  "of_session s qs = map fst (filter (\<lambda>p. snd p = s) qs)"

lemma of_session_simps [simp]:
  "of_session s [] = []" "of_session s (xs @ ys) = of_session s xs @ of_session s ys"
  "of_session s [(q, s')] = (if s' = s then [q] else [])"
  by (simp_all add: of_session_def)

lemma of_session_arrived: "q \<in> set (of_session s qs) \<Longrightarrow> q \<in> fst ` set qs"
  by (auto simp: of_session_def)

lemma distinct_of_session: "distinct (map fst qs) \<Longrightarrow> distinct (of_session s qs)"
  by (simp add: of_session_def distinct_map_filter)

lemma but_one: "filter (\<lambda>x. x \<noteq> q \<and> P x) xs = filter (\<lambda>x. x \<noteq> q) (filter P xs)"
  by (induction xs) auto

text \<open>The queries of a session that are inside their body.\<close>

definition inside :: "string \<Rightarrow> registry \<Rightarrow> nat list" where
  "inside s r = filter (\<lambda>q. q \<notin> set (se_over r)) (of_session s (se_ran r))"

definition serial :: "string \<Rightarrow> registry \<Rightarrow> bool" where
  "serial s r \<longleftrightarrow>
     of_session s (se_ran r) @ lk_waiters (lock_of s r) =
       filter (\<lambda>q. q \<notin> set (se_dropped r)) (of_session s (se_arrived r)) \<and>
     inside s r = (case lk_holder (lock_of s r) of None \<Rightarrow> [] | Some q \<Rightarrow> [q])"

definition registry_inv :: "registry \<Rightarrow> bool" where
  "registry_inv r \<longleftrightarrow> distinct (map fst (se_arrived r)) \<and> (\<forall>s. serial s r) \<and>
     set (se_ran r) \<subseteq> set (se_arrived r) \<and> set (se_over r) \<subseteq> fst ` set (se_ran r) \<and>
     set (se_dropped r) \<subseteq> fst ` set (se_arrived r)"

lemma lock_of_update [simp]:
  "lock_of s (r\<lparr>se_locks := (se_locks r')(s' \<mapsto> l)\<rparr>) = (if s = s' then l else lock_of s r')"
  "lock_of s (r\<lparr>se_arrived := a\<rparr>) = lock_of s r" "lock_of s (r\<lparr>se_ran := b\<rparr>) = lock_of s r"
  "lock_of s (r\<lparr>se_over := c\<rparr>) = lock_of s r" "lock_of s (r\<lparr>se_dropped := d\<rparr>) = lock_of s r"
  by (simp_all add: lock_of_def)

lemma invD:
  assumes "registry_inv r"
  shows "distinct (map fst (se_arrived r))" "serial s r" "set (se_ran r) \<subseteq> set (se_arrived r)"
    "set (se_over r) \<subseteq> fst ` set (se_ran r)" "set (se_dropped r) \<subseteq> fst ` set (se_arrived r)"
  using assms by (simp_all add: registry_inv_def)

text \<open>A query of one session is in no list of another, and a waiting one did not run.\<close>

lemma waiting_facts:
  assumes inv: "registry_inv r" and q: "q \<in> set (lk_waiters (lock_of s r))"
  shows "(q, s) \<in> set (se_arrived r)" "q \<notin> set (of_session s (se_ran r))" "q \<notin> set (se_over r)"
    "s' \<noteq> s \<Longrightarrow> q \<notin> set (of_session s' (se_arrived r))"
proof -
  have eq: "of_session s (se_ran r) @ lk_waiters (lock_of s r) =
      filter (\<lambda>q. q \<notin> set (se_dropped r)) (of_session s (se_arrived r))"
    using invD(2) [OF inv, of s] by (simp add: serial_def)
  have "q \<in> set (of_session s (se_ran r) @ lk_waiters (lock_of s r))" using q by simp
  then have "q \<in> set (of_session s (se_arrived r))" unfolding eq by simp
  then show qs: "(q, s) \<in> set (se_arrived r)" by (auto simp: of_session_def)
  have "distinct (of_session s (se_ran r) @ lk_waiters (lock_of s r))"
    unfolding eq using distinct_of_session [OF invD(1) [OF inv]] by simp
  with q show ran: "q \<notin> set (of_session s (se_ran r))" by auto
  have one: "s'' = s" if "(q, s'') \<in> set (se_arrived r)" for s''
    using that qs invD(1) [OF inv] by (metis eq_key_imp_eq_value)
  show "s' \<noteq> s \<Longrightarrow> q \<notin> set (of_session s' (se_arrived r))" using one by (auto simp: of_session_def)
  show "q \<notin> set (se_over r)"
  proof
    assume "q \<in> set (se_over r)"
    then obtain s'' where "(q, s'') \<in> set (se_ran r)" using invD(4) [OF inv] by auto
    moreover from this have "s'' = s" using one invD(3) [OF inv] by auto
    ultimately show False using ran by (force simp: of_session_def)
  qed
qed

lemma registry_inv_acquire [step_intros]:
  assumes inv: "registry_inv r" and new: "q \<notin> fst ` set (se_arrived r)"
  shows "registry_inv (acquire q s r)"
proof -
  have q: "q \<notin> set (se_dropped r)" "q \<notin> set (se_over r)"
    using new invD(5) [OF inv] order_trans [OF invD(4) [OF inv] image_mono [OF invD(3) [OF inv]]] by blast+
  have "serial s' (acquire q s r)" for s'
    using invD(2) [OF inv, of s'] q by (auto simp: acquire_def serial_def inside_def Let_def)
  moreover have "set (se_ran r) \<subseteq> set (se_arrived r) \<and> set (se_over r) \<subseteq> fst ` set (se_ran r)"
    using invD(3,4) [OF inv] by blast
  ultimately show ?thesis
    using invD(1,5) [OF inv] new by (auto simp: registry_inv_def acquire_def Let_def)
qed

lemma registry_inv_release [step_intros]:
  assumes inv: "registry_inv r"
  shows "registry_inv (release q s r)"
proof (cases "lk_holder (lock_of s r) = Some q")
  case False
  with inv show ?thesis by (simp add: release_def)
next
  case True
  have ser: "inside s r = [q]" using invD(2) [OF inv, of s] True by (simp add: serial_def)
  then have "q \<in> set (inside s r)" by simp
  then have q: "q \<in> set (of_session s (se_ran r))" by (simp add: inside_def)
  then have qs: "(q, s) \<in> set (se_ran r)" by (auto simp: of_session_def)
  then have qr: "q \<in> fst ` set (se_ran r)" by force
  have other: "q \<notin> set (of_session s' (se_ran r))" if "s' \<noteq> s" for s'
    using that qs invD(1,3) [OF inv] by (auto simp: of_session_def) (metis eq_key_imp_eq_value subsetD)
  have gone: "filter (\<lambda>x. x \<noteq> q \<and> x \<notin> set (se_over r)) (of_session s (se_ran r)) = []"
    using ser unfolding inside_def but_one by simp
  have same: "filter (\<lambda>x. x \<noteq> q \<and> x \<notin> set (se_over r)) (of_session s' (se_ran r)) = inside s' r" if "s' \<noteq> s" for s'
    using other [OF that] unfolding inside_def by (auto intro: filter_cong)
  have "serial s' (release q s r)" for s'
    using invD(2) [OF inv, of s'] True gone same [of s']
    by (auto simp: release_def serial_def inside_def Let_def)
  with inv qr True show ?thesis by (auto simp: registry_inv_def release_def Let_def)
qed

lemma registry_inv_woken [step_intros]:
  assumes inv: "registry_inv r"
  shows "registry_inv (woken s r)"
proof (cases "lk_holder (lock_of s r)")
  case (Some h)
  with inv show ?thesis by (simp add: woken_def)
next
  case None
  show ?thesis
  proof (cases "lk_waiters (lock_of s r)")
    case Nil
    with inv None show ?thesis by (simp add: woken_def)
  next
    case (Cons n ns)
    note n = waiting_facts [OF inv, of n s]
    from Cons n(3) have "n \<notin> set (se_over r)" by auto
    then have "serial s' (woken s r)" for s'
      using invD(2) [OF inv, of s'] None Cons
      by (auto simp: woken_def serial_def inside_def Let_def)
    with inv None Cons n(1) show ?thesis by (auto simp: registry_inv_def woken_def Let_def)
  qed
qed

lemma registry_inv_cancel [step_intros]:
  assumes inv: "registry_inv r"
  shows "registry_inv (cancel_waiting q s r)"
proof (cases "q \<in> set (lk_waiters (lock_of s r))")
  case False
  with inv show ?thesis by (simp add: cancel_waiting_def)
next
  case True
  note w = waiting_facts [OF inv True]
  have eq: "of_session s (se_ran r) @ lk_waiters (lock_of s r) =
      filter (\<lambda>x. x \<notin> set (se_dropped r)) (of_session s (se_arrived r))"
    using invD(2) [OF inv, of s] by (simp add: serial_def)
  have "filter (\<lambda>x. x \<noteq> q) (of_session s (se_ran r)) = of_session s (se_ran r)"
    using w(2) by (auto simp: filter_id_conv)
  moreover have "filter (\<lambda>x. x \<noteq> q) (lk_waiters (lock_of s r)) = removeAll q (lk_waiters (lock_of s r))"
    by (simp add: removeAll_filter_not_eq eq_commute)
  ultimately have left: "filter (\<lambda>x. x \<noteq> q \<and> x \<notin> set (se_dropped r)) (of_session s (se_arrived r)) =
      of_session s (se_ran r) @ removeAll q (lk_waiters (lock_of s r))"
    unfolding but_one eq [symmetric] by simp
  from w(1) have qa: "q \<in> fst ` set (se_arrived r)" by force
  have "serial s' (cancel_waiting q s r)" for s'
  proof (cases "s' = s")
    case same: True
    from invD(2) [OF inv, of s] left True show ?thesis
      unfolding same by (simp add: cancel_waiting_def serial_def inside_def Let_def)
  next
    case False
    from w(4) [OF False] have "filter (\<lambda>x. x \<noteq> q \<and> x \<notin> set (se_dropped r)) (of_session s' (se_arrived r)) =
        filter (\<lambda>x. x \<notin> set (se_dropped r)) (of_session s' (se_arrived r))"
      by (auto intro: filter_cong)
    with invD(2) [OF inv, of s'] False True show ?thesis
      by (simp add: cancel_waiting_def serial_def inside_def Let_def)
  qed
  with inv qa True show ?thesis by (simp add: registry_inv_def cancel_waiting_def Let_def)
qed

interpretation session_locks: event_machine lock_step registry_inv
  by unfold_locales (auto simp: lock_step_def intro: step_intros split: lock_event.split)

section \<open>Properties\<close>

text \<open>
  C33: One query per session at a time, whatever the interleaving of arrivals, ends, wake-ups and
  cancellations: at most one query of a session is inside its body; the queries that ran and then
  those still waiting are exactly the ones that arrived and were not cancelled while waiting, in the
  order of arrival; and when some wait while none is inside, the next wake-up lets the first one in.
\<close>

theorem session_queries_serial:
  "let r = foldl lock_step new_registry es
   in length (inside s r) \<le> 1 \<and>
      of_session s (se_ran r) @ lk_waiters (lock_of s r) =
        filter (\<lambda>q. q \<notin> set (se_dropped r)) (of_session s (se_arrived r)) \<and>
      (lk_waiters (lock_of s r) = [] \<or> length (inside s r) = 1 \<or>
       inside s (lock_step r (Woken s)) = [hd (lk_waiters (lock_of s r))])"
proof -
  define r where "r = foldl lock_step new_registry es"
  have "registry_inv new_registry"
    by (simp add: registry_inv_def new_registry_def serial_def inside_def lock_of_def free_lock_def)
  then have inv: "registry_inv r" unfolding r_def by (rule session_locks.inv_events)
  then have ser: "serial s r" "serial s (woken s r)" by (blast intro: invD(2) registry_inv_woken)+
  show ?thesis
    unfolding r_def [symmetric] Let_def
  proof (intro conjI)
    show "length (inside s r) \<le> 1" using ser(1) by (auto simp: serial_def split: option.splits)
    show "of_session s (se_ran r) @ lk_waiters (lock_of s r) =
        filter (\<lambda>q. q \<notin> set (se_dropped r)) (of_session s (se_arrived r))"
      using ser(1) by (simp add: serial_def)
    show "lk_waiters (lock_of s r) = [] \<or> length (inside s r) = 1 \<or>
        inside s (lock_step r (Woken s)) = [hd (lk_waiters (lock_of s r))]"
    proof (cases "lk_holder (lock_of s r)")
      case (Some h)
      with ser(1) show ?thesis by (simp add: serial_def)
    next
      case None
      then have "lk_holder (lock_of s (woken s r)) = Some (hd (lk_waiters (lock_of s r)))"
        if "lk_waiters (lock_of s r) \<noteq> []"
        using that by (auto simp: woken_def Let_def neq_Nil_conv)
      with ser(2) show ?thesis by (auto simp: serial_def lock_step_def)
    qed
  qed
qed

text \<open>
  A query cancelled while it waits for the one before it is dropped without an entry: its body, where
  a cancellation is answered with \<^verbatim>\<open>Done\<close>, never runs.
\<close>

lemma cancelled_while_waiting_never_runs:
  "let r = foldl lock_step new_registry [Arrives 1 s, Arrives 2 s, Cancelled_waiting 2 s, Body_ends 1 s, Woken s]
   in se_ran r = [(1, s)] \<and> se_over r = [1] \<and> se_dropped r = [2]"
  by (simp add: lock_step_def new_registry_def acquire_def release_def woken_def cancel_waiting_def lock_of_def free_lock_def Let_def)

end
