(* ===== verification/Tray_Desktop.thy ===== *)
theory Tray_Desktop
  imports Tray_Menu Client_Paths
begin

text \<open>
  What the tray shows on the session bus (the two objects of \<^verbatim>\<open>tray/sni.py\<close>), its registration with
  the panel, the jobs its menu starts (\<^verbatim>\<open>tray/main.py\<close>), and the life of the tray as a list of
  events: calls of the desktop, notices of the daemon's connection, and refreshes.
\<close>

section \<open>The objects on the bus\<close>

definition ITEM_PATH :: pystr where "ITEM_PATH = ''/StatusNotifierItem''"
definition MENU_PATH :: pystr where "MENU_PATH = ''/MenuBar''"
definition WATCHER_NAME :: pystr where "WATCHER_NAME = ''org.kde.StatusNotifierWatcher''"

datatype bus_value =
    Text_value pystr | Number int | Flag bool | Path_value pystr | Texts "pystr list"
  | Icons "(nat \<times> nat \<times> int list) list" | Tip pystr "(nat \<times> nat \<times> int list) list" pystr pystr

text \<open>The properties of \<^verbatim>\<open>StatusNotifierItem\<close> and of \<^verbatim>\<open>DBusMenu\<close>.\<close>

definition item_properties :: "tray \<Rightarrow> (pystr \<times> bus_value) list" where
  "item_properties t =
     [(''Category'', Text_value ''SystemServices''), (''Id'', Text_value ''nixadmin''),
      (''Title'', Text_value ''nixadmin''), (''Status'', Text_value (tr_status t)),
      (''WindowId'', Number 0), (''IconName'', Text_value []),
      (''IconPixmap'', Icons (pixmaps (tr_color t))),
      (''OverlayIconName'', Text_value []), (''OverlayIconPixmap'', Icons []),
      (''AttentionIconName'', Text_value []), (''AttentionIconPixmap'', Icons (pixmaps (tr_color t))),
      (''AttentionMovieName'', Text_value []),
      (''ToolTip'', Tip [] [] ''nixadmin'' (tr_tooltip t)),
      (''ItemIsMenu'', Flag True), (''Menu'', Path_value MENU_PATH)]"

definition menu_properties :: "(pystr \<times> bus_value) list" where
  "menu_properties =
     [(''Version'', Number 3), (''Status'', Text_value ''normal''),
      (''TextDirection'', Text_value ''ltr''), (''IconThemePath'', Texts [])]"

text \<open>Their methods; the last argument of a click's data and its time are ignored by the code.\<close>

datatype item_method =
    Context_menu int int | Activate_item int int | Secondary_activate int int | Scroll_item int pystr

datatype desktop_call =
    Item_property pystr
  | Item_method item_method
  | Menu_property pystr
  | Get_layout int int "pystr list"
  | Get_group_properties "int list" "pystr list"
  | Get_property int pystr
  | Menu_event int pystr
  | Event_group "(int \<times> pystr) list"
  | About_to_show int
  | About_to_show_group "int list"

datatype desktop_reply =
    No_such_property
  | Nothing
  | Property bus_value
  | Layout "nat \<times> (int \<times> (pystr \<times> variant) list) list"
  | Entries "(int \<times> (pystr \<times> variant) list) list"
  | Entry_value variant
  | Errors "int list"
  | Needs_update bool
  | Needs_updates "int list" "int list"

definition property_reply :: "(pystr \<times> bus_value) list \<Rightarrow> pystr \<Rightarrow> desktop_reply" where
  "property_reply ps name = (case map_of ps name of None \<Rightarrow> No_such_property | Some v \<Rightarrow> Property v)"

text \<open>
  A call of the desktop, with whether the web view's address and the overlay exist when the menu is
  built. The tray gives the item no \<^verbatim>\<open>on_activate\<close>, so an activation does nothing; the depth and the
  names a layout is asked for are ignored.
\<close>

definition desktop_call :: "bool \<Rightarrow> bool \<Rightarrow> desktop_call \<Rightarrow> tray \<Rightarrow> desktop_reply \<times> tray" where
  "desktop_call web overlay c t =
     (let model = tray_model web overlay t
      in case c of
           Item_property name \<Rightarrow> (property_reply (item_properties t) name, t)
         | Item_method m \<Rightarrow> (Nothing, t)
         | Menu_property name \<Rightarrow> (property_reply menu_properties name, t)
         | Get_layout parent depth names \<Rightarrow> (Layout (build_layout (tr_revision t) model), t)
         | Get_group_properties ids names \<Rightarrow> (Entries (group_properties model ids), t)
         | Get_property i name \<Rightarrow> (Entry_value (get_property model i name), t)
         | Menu_event i ev \<Rightarrow> (Nothing, on_events web overlay [(i, ev)] t)
         | Event_group events \<Rightarrow> (Errors [], on_events web overlay events t)
         | About_to_show i \<Rightarrow> (Needs_update True, t)
         | About_to_show_group ids \<Rightarrow> (Needs_updates [] [], t))"

section \<open>The jobs\<close>

text \<open>
  \<^verbatim>\<open>_open_overlay\<close> and \<^verbatim>\<open>_open_detail\<close>: \<open>exec\<close> starts a process with an argument list and no shell,
  \<open>read_url\<close> reads the discovery file of the web view. Only the first catches a failed start.
\<close>

definition open_overlay :: "(pystr list \<Rightarrow> ('w, unit) act) \<Rightarrow> ('w, unit) act" where
  "open_overlay exec w =
     (case exec [''nixadmin-overlay''] w of
        (Inl e, w') \<Rightarrow> (if is_os_error e then Inr () else Inl e, w')
      | (Inr x, w') \<Rightarrow> (Inr x, w'))"

definition detail_command :: "pystr \<Rightarrow> pystr \<Rightarrow> pystr list option" where
  "detail_command content extra =
     (let url = strip content in if url = [] then None else Some [''xdg-open'', url @ extra])"

definition open_detail ::
  "('w, pystr) act \<Rightarrow> (pystr list \<Rightarrow> ('w, unit) act) \<Rightarrow> pystr \<Rightarrow> ('w, unit) act" where
  "open_detail read_url exec extra w =
     (case read_url w of
        (Inl e, w') \<Rightarrow> (if is_os_error e then Inr () else Inl e, w')
      | (Inr content, w') \<Rightarrow>
          (case detail_command content extra of
             None \<Rightarrow> (Inr (), w')
           | Some argv \<Rightarrow> exec argv w'))"

text \<open>A job as its coroutine runs: \<open>restart\<close> is \<^verbatim>\<open>client.restart_unit\<close>, \<open>poll\<close> is \<^verbatim>\<open>_refresh\<close>.\<close>

definition run_job ::
  "('w, pystr) act \<Rightarrow> (pystr list \<Rightarrow> ('w, unit) act) \<Rightarrow> (pystr \<Rightarrow> pystr \<Rightarrow> ('w, pystr option) act)
   \<Rightarrow> ('w, unit) act \<Rightarrow> tray_job \<Rightarrow> ('w, unit) act" where
  "run_job read_url exec restart poll j =
     (case j of
        Open_overlay \<Rightarrow> open_overlay exec
      | Open_detail extra \<Rightarrow> open_detail read_url exec extra
      | Fix u sc \<Rightarrow> andthen (restart u sc) (\<lambda>_. poll)
      | Refresh \<Rightarrow> poll)"

section \<open>The life of the tray\<close>

datatype tray_event =
    Desktop bool bool desktop_call
  | Daemon_event
  | State_changed bool
  | Refreshed bool "failed list option"

definition tray_step :: "tray \<Rightarrow> tray_event \<Rightarrow> tray" where
  "tray_step t ev =
     (case ev of
        Desktop web overlay c \<Rightarrow> snd (desktop_call web overlay c t)
      | Daemon_event \<Rightarrow> spawn_job Refresh t
      | State_changed online \<Rightarrow> spawn_job Refresh t
      | Refreshed client_online units \<Rightarrow> refresh client_online units t)"

text \<open>The clicks of an event, and what the refreshes of a run reported.\<close>

definition clicks :: "tray_event \<Rightarrow> int list" where
  "clicks ev =
     (case ev of
        Desktop web overlay (Menu_event i name) \<Rightarrow> (if name = ''clicked'' then [i] else [])
      | Desktop web overlay (Event_group events) \<Rightarrow> map fst (filter (\<lambda>(i, name). name = ''clicked'') events)
      | _ \<Rightarrow> [])"

definition reported :: "tray_event list \<Rightarrow> failed list" where
  "reported es = concat (map (\<lambda>e. case e of Refreshed online (Some us) \<Rightarrow> us | _ \<Rightarrow> []) es)"

definition last_report :: "tray_event list \<Rightarrow> (bool \<times> failed list option) option" where
  "last_report es =
     foldl (\<lambda>r e. case e of Refreshed online units \<Rightarrow> Some (online \<and> units \<noteq> None, units) | _ \<Rightarrow> r) None es"

definition job_reported :: "tray_event list \<Rightarrow> tray_job \<Rightarrow> bool" where
  "job_reported es j =
     (case j of
        Fix u sc \<Rightarrow> (u, sc) \<in> set (reported es)
      | Open_detail q \<Rightarrow> q = [] \<or> (\<exists>(u, sc) \<in> set (reported es). q = explain_query u sc)
      | Open_overlay \<Rightarrow> True
      | Refresh \<Rightarrow> True)"

definition displays :: "(bool \<times> failed list option) option \<Rightarrow> tray \<Rightarrow> bool" where
  "displays r t \<longleftrightarrow>
     (case r of
        None \<Rightarrow> \<not> tr_online t \<and> tr_units t = None \<and> tr_color t = UNKNOWN \<and> tr_status t = ''Active''
      | Some (online, units) \<Rightarrow>
          (let n = int (length (the_default [] units))
           in tr_online t = online \<and> tr_units t = units \<and> tr_color t = health_color online n \<and>
              tr_status t = status_word online n \<and> tr_tooltip t = tooltip online units))"

section \<open>Properties\<close>

lemma on_menu_frame:
  "tr_color (on_menu e t) = tr_color t" "tr_status (on_menu e t) = tr_status t"
  "tr_tooltip (on_menu e t) = tr_tooltip t" "tr_revision (on_menu e t) = tr_revision t"
  "tr_online (on_menu e t) = tr_online t" "tr_units (on_menu e t) = tr_units t"
  "length (tr_jobs (on_menu e t)) \<le> length (tr_jobs t) + 1"
  by (auto simp: on_menu_def spawn_job_def split: option.split)

text \<open>A call of the desktop changes nothing but through its clicks, one after the other.\<close>

definition click :: "bool \<Rightarrow> bool \<Rightarrow> tray \<Rightarrow> int \<Rightarrow> tray" where
  "click web overlay t i = (case fire (tray_model web overlay t) i of None \<Rightarrow> t | Some e \<Rightarrow> on_menu e t)"

lemma on_events_clicks:
  "on_events web overlay evs t = foldl (click web overlay) t (map fst (filter (\<lambda>(i, name). name = ''clicked'') evs))"
  unfolding on_events_def by (induction evs arbitrary: t) (auto simp: click_def)

lemma desktop_step:
  "tray_step t (Desktop web overlay c) = foldl (click web overlay) t (clicks (Desktop web overlay c))"
  by (cases c) (simp_all add: tray_step_def desktop_call_def clicks_def Let_def on_events_clicks)

text \<open>What holds of the tray at every point of a run.\<close>

definition follows :: "tray_event list \<Rightarrow> tray \<Rightarrow> bool" where
  "follows es t \<longleftrightarrow>
     list_all (job_reported es) (tr_jobs t) \<and> displays (last_report es) t \<and>
     tr_revision t = Suc (length (filter (\<lambda>e. \<exists>b us. e = Refreshed b us) es)) \<and>
     set (the_default [] (tr_units t)) \<subseteq> set (reported es)"

lemma click_follows:
  assumes "follows es t"
  shows "follows es (click web overlay t i) \<and> (tr_stop (click web overlay t i) \<longleftrightarrow> tr_stop t \<or> i = QUIT_ID) \<and>
     length (tr_jobs (click web overlay t i)) \<le> length (tr_jobs t) + 1"
proof (cases "fire (tray_model web overlay t) i")
  case None
  with assms fire_quit [of web overlay t] show ?thesis by (auto simp: click_def)
next
  case (Some e)
  note effect = on_menu_effect [OF Some]
  have eq: "click web overlay t i = on_menu e t" using Some by (simp add: click_def)
  have sub: "set (the_default [] (tr_units t)) \<subseteq> set (reported es)" using assms by (simp add: follows_def)
  have rep: "job_reported es j" if "job_listed t j" for j
    using that sub by (cases j) (fastforce simp: job_listed_def job_reported_def)+
  obtain js where "tr_jobs (on_menu e t) = tr_jobs t @ js" "list_all (job_listed t) js" using effect(3) by blast
  with rep assms have "list_all (job_reported es) (tr_jobs (on_menu e t))"
    by (auto simp: follows_def list_all_iff)
  moreover have "displays r (on_menu e t) = displays r t" for r
    by (auto simp: displays_def on_menu_frame split: option.split prod.split)
  ultimately have "follows es (on_menu e t)" using assms by (simp add: follows_def on_menu_frame)
  then show ?thesis unfolding eq using effect(4) on_menu_frame(7) by blast
qed

lemma clicks_follow:
  "follows es t \<Longrightarrow> follows es (foldl (click web overlay) t is) \<and>
     (tr_stop (foldl (click web overlay) t is) \<longleftrightarrow> tr_stop t \<or> QUIT_ID \<in> set is) \<and>
     length (tr_jobs (foldl (click web overlay) t is)) \<le> length (tr_jobs t) + length is"
proof (induction "is" arbitrary: t)
  case (Cons i "is")
  from click_follows [OF Cons.prems, of web overlay i] Cons.IH [of "click web overlay t i"] show ?case by auto
qed simp

lemma follows_more:
  assumes "follows es t" and "set (reported es) \<subseteq> set (reported (es @ [e]))"
    "last_report (es @ [e]) = last_report es" "\<nexists>b us. e = Refreshed b us"
  shows "follows (es @ [e]) t"
proof -
  have "job_reported es j \<Longrightarrow> job_reported (es @ [e]) j" for j
    using assms(2) by (cases j) (auto simp: job_reported_def)
  with assms show ?thesis by (auto simp: follows_def list_all_iff)
qed

lemma reported_snoc: "set (reported es) \<subseteq> set (reported (es @ [e]))"
  by (simp add: reported_def)

lemma follows_job: "follows es t \<Longrightarrow> follows es (spawn_job Refresh t)"
  by (auto simp: follows_def spawn_job_def displays_def job_reported_def split: option.split prod.split)

lemma refresh_frame [simp]: "tr_stop (refresh online units t) = tr_stop t" "tr_jobs (refresh online units t) = tr_jobs t"
  by (simp_all add: refresh_def bump_def update_item_def Let_def)

lemma notice_frame [simp]: "tr_stop (spawn_job j t) = tr_stop t" "tr_jobs (spawn_job j t) = tr_jobs t @ [j]"
  by (simp_all add: spawn_job_def)

lemma tray_steps [simp]:
  "tray_step t Daemon_event = spawn_job Refresh t" "tray_step t (State_changed b) = spawn_job Refresh t"
  "tray_step t (Refreshed online units) = refresh online units t"
  by (simp_all add: tray_step_def)

lemma refreshed_follows:
  assumes "follows es t"
  shows "follows (es @ [Refreshed online units]) (refresh online units t)"
proof -
  have "job_reported es j \<Longrightarrow> job_reported (es @ [Refreshed online units]) j" for j
    using reported_snoc [of es "Refreshed online units"] by (cases j) (auto simp: job_reported_def)
  moreover have "set (the_default [] units) \<subseteq> set (reported (es @ [Refreshed online units]))"
    by (cases units) (simp_all add: reported_def)
  ultimately show ?thesis
    using assms by (auto simp: follows_def refresh_def bump_def update_item_def displays_def last_report_def list_all_iff Let_def)
qed

text \<open>
  C37: Over any run of the tray - calls of the desktop, notices of the connection, refreshes - the icon,
  its status and its tooltip are those of the last report of the daemon, and every restart or
  explanation it started is for a unit that a report had listed as failed, with the scope reported; it
  starts at most one job for a click and one refresh for a notice, bumps the menu once for a refresh,
  and stops exactly when its own close entry was clicked.
\<close>

theorem tray_follows_reports:
  "let t = foldl tray_step new_tray es
   in list_all (job_reported es) (tr_jobs t) \<and> displays (last_report es) t \<and>
      tr_revision t = Suc (length (filter (\<lambda>e. \<exists>b us. e = Refreshed b us) es)) \<and>
      (tr_stop t \<longleftrightarrow> QUIT_ID \<in> set (concat (map clicks es))) \<and>
      length (tr_jobs t) \<le> length (concat (map clicks es)) + length (filter (\<lambda>e. e = Daemon_event \<or> (\<exists>b. e = State_changed b)) es)"
proof -
  define noticed where "noticed es = length (filter (\<lambda>e. e = Daemon_event \<or> (\<exists>b. e = State_changed b)) es)" for es
  have "follows es (foldl tray_step new_tray es) \<and>
      (tr_stop (foldl tray_step new_tray es) \<longleftrightarrow> QUIT_ID \<in> set (concat (map clicks es))) \<and>
      length (tr_jobs (foldl tray_step new_tray es)) \<le> length (concat (map clicks es)) + noticed es"
  proof (induction es rule: rev_induct)
    case Nil
    show ?case by (simp add: follows_def new_tray_def displays_def last_report_def)
  next
    case (snoc e es)
    define t where "t = foldl tray_step new_tray es"
    show ?case
    proof (cases e)
      case (Desktop web overlay c)
      with follows_more [of es t e] snoc.IH have "follows (es @ [e]) t"
        by (simp add: t_def last_report_def reported_def)
      from clicks_follow [OF this, of web overlay "clicks e"] snoc.IH show ?thesis
        by (auto simp: Desktop desktop_step noticed_def t_def [symmetric])
    next
      case (Refreshed online units)
      with refreshed_follows [of es t online units] snoc.IH show ?thesis
        by (simp add: clicks_def noticed_def t_def [symmetric])
    qed (use follows_more [of es t e, THEN follows_job] snoc.IH in
      \<open>simp_all add: clicks_def noticed_def t_def [symmetric] last_report_def reported_def\<close>)
  qed
  then show ?thesis by (simp add: Let_def follows_def noticed_def)
qed

section \<open>The link of an explanation\<close>

lemma unquote_plus_url_quote: "unquote_plus (url_quote s) = Some s"
proof -
  have "set (concat (map (quote_char url_safe) s)) \<inter> set ''&=+?#'' = {}"
    by (rule quoted_no_special [of _ "{CHR ''/''}"]) (auto simp: url_safe_def)
  then have "CHR ''+'' \<notin> set (url_quote s)" by (auto simp: url_quote_def)
  then show ?thesis by (simp add: unquote_plus_def plus_to_space_id unquote_url_quote)
qed

lemma url_quote_chars: "set (url_quote s) \<inter> set ''&=?#'' = {}"
  using quoted_no_special [of url_safe "{CHR ''/''}" s] by (auto simp: url_quote_def url_safe_def)

lemma unquote_plus_safe:
  assumes "list_all always_safe s"
  shows "unquote_plus s = Some s"
proof -
  have "url_quote s = s"
    using assms unfolding url_quote_def by (induction s) (simp_all add: quote_char_def url_safe_def)
  then show ?thesis using unquote_plus_url_quote [of s] by simp
qed

lemma show_int_chars: "list_all (\<lambda>c. is_digit c \<or> c = CHR ''-'') (show_int i)"
  using show_nat_digits by (auto simp: show_int_def list_all_iff)

lemma not_digit: "is_digit c \<Longrightarrow> c \<notin> set ''?/:-'' \<and> \<not> is_space c"
  by (auto simp: is_digit_def is_space_def code_def)

lemma always_safe_no_space: "always_safe c \<Longrightarrow> \<not> is_space c"
  by (auto simp: always_safe_def is_digit_def is_alpha_ascii_def is_upper_ascii_def is_lower_ascii_def is_space_def code_def Let_def)

lemma show_int_no_space: "list_all (\<lambda>c. \<not> is_space c) (show_int i)"
proof -
  have "\<not> is_space (CHR ''-'')" by (simp add: is_space_def code_def)
  then show ?thesis using show_int_chars [of i] not_digit by (auto simp: list_all_iff)
qed

lemma server_url_query:
  "partition_at (CHR ''?'') (server_url port token @ rest) =
     (''http://127.0.0.1:'' @ show_int port @ ''/'', True, ''token='' @ token @ rest)"
proof -
  have "CHR ''?'' \<notin> set (show_int port)" using show_int_chars [of port] not_digit by (auto simp: list_all_iff)
  then have "CHR ''?'' \<notin> set (''http://127.0.0.1:'' @ show_int port @ ''/'')" by simp
  from partition_at_found [OF this, of "''token='' @ token @ rest"] show ?thesis
    by (simp add: server_url_def)
qed

lemma server_url_no_space: "list_all always_safe token \<Longrightarrow> list_all (\<lambda>c. \<not> is_space c) (server_url port token)"
proof -
  assume "list_all always_safe token"
  then have "list_all (\<lambda>c. \<not> is_space c) token" using always_safe_no_space by (simp add: list_all_iff)
  moreover have "list_all (\<lambda>c. \<not> is_space c) ''http://127.0.0.1:''" "list_all (\<lambda>c. \<not> is_space c) ''/?token=''"
    by (simp_all add: is_space_def code_def)
  ultimately show ?thesis unfolding server_url_def list_all_append using show_int_no_space by blast
qed

lemma strip_line: "list_all (\<lambda>c. \<not> is_space c) s \<Longrightarrow> s \<noteq> [] \<Longrightarrow> strip (s @ [newline]) = s"
proof -
  assume s: "list_all (\<lambda>c. \<not> is_space c) s" "s \<noteq> []"
  then have "lstrip (s @ [newline]) = s @ [newline]" by (cases s) (auto simp: lstrip_def)
  moreover have "rstrip (s @ [newline]) = rstrip s" by (simp add: rstrip_def is_space_def code_def)
  moreover have "rstrip s = s" "lstrip s = s" using s strip_no_space [of s]
    by (auto simp: strip_def lstrip_id list_all_iff) 
  ultimately show ?thesis by (simp add: strip_def)
qed

lemma parse_pair_raw:
  assumes "unquote_plus k = Some k'" "unquote_plus v = Some v'" "CHR ''='' \<notin> set k"
  shows "parse_pair (k @ ''='' @ v) = Some (k', v')"
  using partition_at_found [OF assms(3), of v] assms(1,2) by (simp add: parse_pair_def)

lemma always_safe_names:
  "list_all always_safe ''token''" "list_all always_safe ''explain''" "list_all always_safe ''scope''"
  by (simp_all add: always_safe_def is_alpha_ascii_def is_lower_ascii_def code_def)

lemma link_query:
  assumes "list_all always_safe token"
  shows "parse_qsl (''token='' @ token @ explain_query unit scope) =
    Some [(''token'', token), (''explain'', unit), (''scope'', scope)]"
proof -
  let ?u = "url_quote unit" and ?s = "url_quote scope"
  have amp: "CHR ''&'' \<notin> set token" "CHR ''&'' \<notin> set ?u" "CHR ''&'' \<notin> set ?s"
    using assms url_quote_chars [of unit] url_quote_chars [of scope] always_safe_plain by (auto simp: list_all_iff)
  have "''token='' @ token @ explain_query unit scope =
      join ''&'' [''token='' @ token, ''explain='' @ ?u, ''scope='' @ ?s]"
    by (simp add: explain_query_def)
  moreover have "split_char (CHR ''&'') (join ''&'' [''token='' @ token, ''explain='' @ ?u, ''scope='' @ ?s]) =
      [''token='' @ token, ''explain='' @ ?u, ''scope='' @ ?s]"
    by (rule split_char_join) (use amp in auto)
  moreover have "parse_pair (''token'' @ ''='' @ token) = Some (''token'', token)"
    "parse_pair (''explain'' @ ''='' @ ?u) = Some (''explain'', unit)"
    "parse_pair (''scope'' @ ''='' @ ?s) = Some (''scope'', scope)"
    using assms always_safe_names
    by (auto intro!: parse_pair_raw simp: unquote_plus_safe unquote_plus_url_quote simp del: append.simps)
  ultimately show ?thesis by (simp add: parse_qsl_def)
qed

text \<open>
  C38: The tray's link for a failed unit: from the discovery file that the web server wrote, "Explain"
  starts \<^verbatim>\<open>xdg-open\<close> on an address of that server whose query string holds exactly the server's token,
  the unit and its scope, whatever characters the unit's name has.
\<close>

theorem explain_link_exact:
  assumes "list_all always_safe token"
  shows "\<exists>url. detail_command (the (write_url_file (server_url port token) old)) (explain_query unit scope) =
      Some [''xdg-open'', url] \<and>
    (let (base, found, query) = partition_at (CHR ''?'') url
     in base = ''http://127.0.0.1:'' @ show_int port @ ''/'' \<and> found \<and>
        parse_qsl query = Some [(''token'', token), (''explain'', unit), (''scope'', scope)])"
proof -
  have "strip (server_url port token @ [newline]) = server_url port token"
    by (rule strip_line [OF server_url_no_space [OF assms]]) (simp add: server_url_def)
  moreover have "server_url port token \<noteq> []" by (simp add: server_url_def)
  ultimately have "detail_command (the (write_url_file (server_url port token) old)) (explain_query unit scope) =
      Some [''xdg-open'', server_url port token @ explain_query unit scope]"
    by (simp add: detail_command_def write_url_file_def Let_def)
  then show ?thesis using link_query [OF assms, of unit scope] by (simp add: server_url_query)
qed

lemma explain_link_exact_witness:
  "\<exists>url. detail_command (the (write_url_file (server_url 7777 ''Ab_1-x'') None)) (explain_query ''a b&c.service'' ''user'') =
      Some [''xdg-open'', url] \<and>
    (let (base, found, query) = partition_at (CHR ''?'') url
     in base = ''http://127.0.0.1:'' @ show_int 7777 @ ''/'' \<and> found \<and>
        parse_qsl query = Some [(''token'', ''Ab_1-x''), (''explain'', ''a b&c.service''), (''scope'', ''user'')])"
  by (rule explain_link_exact) (simp add: always_safe_def is_alpha_ascii_def is_lower_ascii_def is_upper_ascii_def is_digit_def code_def)

end
