(* ===== verification/Tray_Registration.thy ===== *)
theory Tray_Registration
  imports Tray_Desktop
begin

text \<open>
  \<^verbatim>\<open>Registrar\<close> of \<^verbatim>\<open>tray/sni.py\<close>: the tray's icon is registered with the watcher of the panel, and
  again whenever the panel restarts. Attempts are tasks that overlap, so a run is a list of events:
  the next step of \<^verbatim>\<open>start\<close> returned or raised, the bus reported an owner of a name, an attempt
  reached its end. Beside what the tray remembers, the state has what the bus knows: who owns the
  watcher's name, and with which owner the icon is registered.
\<close>

datatype start_phase = Unnamed | Unwatched | First_attempt | Start_done | Start_failed

record registrar =
  rg_phase :: start_phase
  rg_pending :: nat
  rg_begun :: nat
  rg_owner :: "pystr option"
  rg_registered :: "pystr option"
  rg_missed :: bool
  rg_appeared :: nat

definition new_registrar :: "pystr option \<Rightarrow> registrar" where
  "new_registrar owner = \<lparr>rg_phase = Unnamed, rg_pending = 0, rg_begun = 0, rg_owner = owner,
     rg_registered = None, rg_missed = False, rg_appeared = 0\<rparr>"

text \<open>\<^verbatim>\<open>f"org.kde.StatusNotifierItem-{pid}-1"\<close>.\<close>

definition well_known :: "int \<Rightarrow> pystr" where
  "well_known pid = ''org.kde.StatusNotifierItem-'' @ show_int pid @ ''-1''"

definition begin_attempt :: "registrar \<Rightarrow> registrar" where
  "begin_attempt r = r\<lparr>rg_pending := rg_pending r + 1, rg_begun := rg_begun r + 1\<rparr>"

text \<open>\<^verbatim>\<open>start\<close>: request the name, subscribe to the changes of owners, make the first attempt.\<close>

definition start_step :: "bool \<Rightarrow> registrar \<Rightarrow> registrar" where
  "start_step ok r =
     (case rg_phase r of
        Unnamed \<Rightarrow> r\<lparr>rg_phase := (if ok then Unwatched else Start_failed)\<rparr>
      | Unwatched \<Rightarrow> (if ok then begin_attempt (r\<lparr>rg_phase := First_attempt\<rparr>) else r\<lparr>rg_phase := Start_failed\<rparr>)
      | _ \<Rightarrow> r)"

definition subscribed :: "registrar \<Rightarrow> bool" where
  "subscribed r \<longleftrightarrow> rg_phase r = First_attempt \<or> rg_phase r = Start_done"

text \<open>\<^verbatim>\<open>on_change\<close>: a new owner of the watcher's name starts an attempt; no owner starts none.\<close>

definition on_change :: "pystr \<Rightarrow> pystr \<Rightarrow> registrar \<Rightarrow> registrar" where
  "on_change name new_owner r =
     (if name = WATCHER_NAME \<and> new_owner \<noteq> [] then begin_attempt r else r)"

text \<open>What the bus does at the same time; only a subscribed tray is told.\<close>

definition owner_changed :: "pystr \<Rightarrow> pystr \<Rightarrow> registrar \<Rightarrow> registrar" where
  "owner_changed name new_owner r =
     (let r = (if name = WATCHER_NAME
               then r\<lparr>rg_owner := (if new_owner = [] then None else Some new_owner), rg_missed := False,
                      rg_appeared := rg_appeared r + (if new_owner \<noteq> [] \<and> subscribed r then 1 else 0)\<rparr>
               else r)
      in if subscribed r then on_change name new_owner r else r)"

text \<open>
  \<^verbatim>\<open>ensure_registered\<close> ends: \<open>ok\<close> is whether the call reached the watcher of that moment. Every
  exception is caught; nothing is tried again before the next owner.
\<close>

definition end_attempt :: "bool \<Rightarrow> registrar \<Rightarrow> registrar" where
  "end_attempt ok r =
     (if rg_pending r = 0 then r
      else (let r = r\<lparr>rg_pending := rg_pending r - 1,
                      rg_phase := (if rg_phase r = First_attempt then Start_done else rg_phase r)\<rparr>
            in case rg_owner r of
                 None \<Rightarrow> r
               | Some w \<Rightarrow> (if ok then r\<lparr>rg_registered := Some w\<rparr> else r\<lparr>rg_missed := True\<rparr>)))"

datatype registrar_event = Start_returned bool | Owner_reported pystr pystr | Attempt_ended bool

definition registrar_step :: "registrar \<Rightarrow> registrar_event \<Rightarrow> registrar" where
  "registrar_step r ev =
     (case ev of
        Start_returned ok \<Rightarrow> start_step ok r
      | Owner_reported name new_owner \<Rightarrow> owner_changed name new_owner r
      | Attempt_ended ok \<Rightarrow> end_attempt ok r)"

definition registrar_inv :: "registrar \<Rightarrow> bool" where
  "registrar_inv r \<longleftrightarrow>
     (subscribed r \<longrightarrow> rg_begun r = rg_appeared r + 1 \<and>
        (rg_owner r \<noteq> None \<longrightarrow> rg_registered r = rg_owner r \<or> rg_missed r \<or> rg_pending r > 0)) \<and>
     (\<not> subscribed r \<longrightarrow> rg_begun r = 0 \<and> rg_appeared r = 0 \<and> rg_pending r = 0)"

lemma registrar_inv_start [step_intros]: "registrar_inv r \<Longrightarrow> registrar_inv (start_step ok r)"
  by (auto simp: registrar_inv_def start_step_def begin_attempt_def subscribed_def split: start_phase.splits)

lemma registrar_inv_owner [step_intros]: "registrar_inv r \<Longrightarrow> registrar_inv (owner_changed name new_owner r)"
  by (auto simp: registrar_inv_def owner_changed_def on_change_def begin_attempt_def subscribed_def Let_def)

lemma registrar_inv_end [step_intros]: "registrar_inv r \<Longrightarrow> registrar_inv (end_attempt ok r)"
  by (auto simp: registrar_inv_def end_attempt_def subscribed_def Let_def split: option.splits)

interpretation registrar: event_machine registrar_step registrar_inv
  by unfold_locales (auto simp: registrar_step_def intro: step_intros split: registrar_event.split)

section \<open>Properties\<close>

text \<open>
  The icon comes back on its own: once the tray has subscribed, it makes one attempt at the start and one
  for every owner of the watcher's name that appears; and when no attempt is running while a panel is
  there, the icon is registered with that very panel, unless an attempt failed while it was there.
\<close>

lemma icon_comes_back:
  "let r = foldl registrar_step (new_registrar owner) es
   in \<not> subscribed r \<or>
      rg_begun r = rg_appeared r + 1 \<and>
      (rg_pending r > 0 \<or> rg_owner r = None \<or> rg_missed r \<or> rg_registered r = rg_owner r)"
proof -
  have "registrar_inv (new_registrar owner)"
    by (simp add: registrar_inv_def new_registrar_def subscribed_def)
  then have "registrar_inv (foldl registrar_step (new_registrar owner) es)" by (rule registrar.inv_events)
  then show ?thesis by (auto simp: registrar_inv_def Let_def)
qed

text \<open>A panel that restarts is registered with again.\<close>

lemma panel_restart_reregisters:
  "rg_registered (foldl registrar_step (new_registrar (Some '':1.5''))
     [Start_returned True, Start_returned True, Attempt_ended True, Owner_reported WATCHER_NAME [],
      Owner_reported WATCHER_NAME '':1.9'', Attempt_ended True]) = Some '':1.9''"
  by (simp add: registrar_step_def start_step_def owner_changed_def on_change_def begin_attempt_def end_attempt_def
      new_registrar_def subscribed_def Let_def)

end
