(* ===== verification/Overlay.thy ===== *)
theory Overlay
  imports Tray_Desktop
begin

text \<open>
  \<^verbatim>\<open>overlay.py\<close>: the address the overlay opens, and its window as a state machine. GTK, layer-shell
  and WebKit are known by what the code asks of them: whether the window is visible and active, the
  keyboard mode it set, the page it loaded, and the timers it started.
\<close>

section \<open>The address\<close>

text \<open>
  \<^verbatim>\<open>overlay_url\<close> on the outcome of reading the discovery file; \<open>bad\<close> is the text of the \<^verbatim>\<open>ValueError\<close>
  of \<^verbatim>\<open>urlsplit\<close>. No value: the query string decodes to characters outside the alphabet.
\<close>

definition overlay_query :: "pystr \<Rightarrow> pystr option" where
  "overlay_query q = map_option (\<lambda>ps. urlencode (dict_put ''surface'' ''overlay'' (dict ps))) (parse_qsl q)"

definition overlay_url :: "(pystr \<Rightarrow> bool) \<Rightarrow> pystr \<Rightarrow> exn + pystr \<Rightarrow> (exn + pystr option) option" where
  "overlay_url addr bad content =
     (case content of
        Inl e \<Rightarrow> Some (if is_os_error e then Inr None else Inl e)
      | Inr text \<Rightarrow>
          (let url = strip text
           in if url = [] then Some (Inr None)
              else case urlsplit addr url of
                     None \<Rightarrow> Some (Inl (Foreign ''ValueError'' bad))
                   | Some u \<Rightarrow> map_option (\<lambda>q. Inr (Some (unsplit_url (u\<lparr>url_query := q\<rparr>)))) (overlay_query (url_query u))))"

section \<open>The window\<close>

datatype keyboard_mode = Keyboard_none | Keyboard_exclusive

datatype page = Blank | Not_ready | At pystr

record overlay =
  ov_created :: bool
  ov_visible :: bool
  ov_active :: bool
  ov_keyboard :: keyboard_mode
  ov_page :: page
  ov_timers :: nat

definition new_overlay :: overlay where
  "new_overlay = \<lparr>ov_created = False, ov_visible = False, ov_active = False, ov_keyboard = Keyboard_none,
     ov_page = Blank, ov_timers = 0\<rparr>"

text \<open>
  \<^verbatim>\<open>_create_window\<close>: what is asked of GTK, of layer-shell and of the web view, in order; and the window
  is there, hidden. The handlers it connects are the events below.
\<close>

definition OVERLAY_WIDTH :: int where "OVERLAY_WIDTH = 700"
definition OVERLAY_HEIGHT :: int where "OVERLAY_HEIGHT = 520"
definition TOP_MARGIN :: int where "TOP_MARGIN = 96"

datatype setting =
    Title pystr | Decorated bool | Resizable bool | Default_size int int | Namespace pystr | Layer_overlay
  | Anchor_top bool | Margin_top int | Exclusive_zone int | Developer_extras bool | Html5_database bool
  | Html5_local_storage bool | Background "real list"

definition window_settings :: "setting list" where
  "window_settings =
     [Title ''nixadmin'', Decorated False, Resizable False, Default_size OVERLAY_WIDTH OVERLAY_HEIGHT,
      Namespace ''nixadmin-overlay'', Layer_overlay, Anchor_top True, Margin_top TOP_MARGIN, Exclusive_zone 0,
      Developer_extras False, Html5_database False, Html5_local_storage False,
      Background [7 / 100, 8 / 100, 10 / 100, 1]]"

definition create_window :: "overlay \<Rightarrow> overlay" where
  "create_window w = w\<lparr>ov_created := True\<rparr>"

definition hide_overlay :: "overlay \<Rightarrow> overlay" where
  "hide_overlay w = w\<lparr>ov_keyboard := Keyboard_none, ov_visible := False\<rparr>"

text \<open>
  \<^verbatim>\<open>_show\<close> with the result of \<^verbatim>\<open>overlay_url\<close>: its exception leaves the handler before the window is
  presented; the same address is not loaded again.
\<close>

definition shown_page :: "pystr option \<Rightarrow> page \<Rightarrow> page" where
  "shown_page target p = (case target of None \<Rightarrow> Not_ready | Some u \<Rightarrow> if p \<noteq> At u then At u else p)"

definition show_overlay :: "exn + pystr option \<Rightarrow> overlay \<Rightarrow> overlay" where
  "show_overlay target w =
     (case target of
        Inl e \<Rightarrow> w
      | Inr t \<Rightarrow> w\<lparr>ov_page := shown_page t (ov_page w), ov_keyboard := Keyboard_exclusive, ov_visible := True\<rparr>)"

definition do_activate :: "exn + pystr option \<Rightarrow> overlay \<Rightarrow> overlay" where
  "do_activate target w =
     (let w = (if ov_created w then w else create_window w)
      in if ov_visible w then hide_overlay w else show_overlay target w)"

text \<open>\<^verbatim>\<open>_key_pressed\<close>: whether the key was handled.\<close>

definition key_pressed :: "bool \<Rightarrow> overlay \<Rightarrow> bool \<times> overlay" where
  "key_pressed escape w = (if escape then (True, hide_overlay w) else (False, w))"

text \<open>\<^verbatim>\<open>_active_changed\<close> (called when the property changes) and the timer it starts.\<close>

definition active_changed :: "bool \<Rightarrow> overlay \<Rightarrow> overlay" where
  "active_changed active w =
     (let w = w\<lparr>ov_active := active\<rparr>
      in if ov_visible w \<and> \<not> ov_active w then w\<lparr>ov_timers := ov_timers w + 1\<rparr> else w)"

definition hide_if_inactive :: "overlay \<Rightarrow> overlay" where
  "hide_if_inactive w = (if ov_visible w \<and> \<not> ov_active w then hide_overlay w else w)"

datatype overlay_event =
    Activated "exn + pystr option" | Key bool | Active_changed bool | Timer_due | Navigated pystr

definition overlay_step :: "overlay \<Rightarrow> overlay_event \<Rightarrow> overlay" where
  "overlay_step w ev =
     (case ev of
        Activated target \<Rightarrow> do_activate target w
      | Key escape \<Rightarrow> if ov_created w then snd (key_pressed escape w) else w
      | Active_changed active \<Rightarrow> if ov_created w \<and> active \<noteq> ov_active w then active_changed active w else w
      | Timer_due \<Rightarrow> if ov_timers w = 0 then w else hide_if_inactive (w\<lparr>ov_timers := ov_timers w - 1\<rparr>)
      | Navigated u \<Rightarrow> if ov_created w then w\<lparr>ov_page := At u\<rparr> else w)"

definition overlay_inv :: "overlay \<Rightarrow> bool" where
  "overlay_inv w \<longleftrightarrow> (ov_visible w \<longleftrightarrow> ov_keyboard w = Keyboard_exclusive) \<and> (ov_visible w \<longrightarrow> ov_created w \<and> ov_page w \<noteq> Blank)"

interpretation overlay: event_machine overlay_step overlay_inv
proof unfold_locales
  fix w ev
  assume "overlay_inv w"
  then show "overlay_inv (overlay_step w ev)"
    by (cases ev) (auto simp: overlay_step_def overlay_inv_def do_activate_def create_window_def show_overlay_def shown_page_def
        hide_overlay_def key_pressed_def active_changed_def hide_if_inactive_def Let_def split: sum.split option.split)
qed

section \<open>Properties\<close>

text \<open>
  Over any run the overlay holds the keyboard of the desktop exactly while it is visible, and a visible
  overlay has something to show.
\<close>

lemma keyboard_only_while_visible:
  "let w = foldl overlay_step new_overlay es
   in (ov_keyboard w = Keyboard_exclusive \<longleftrightarrow> ov_visible w) \<and> (\<not> ov_visible w \<or> ov_created w \<and> ov_page w \<noteq> Blank)"
proof -
  have "overlay_inv new_overlay" by (simp add: overlay_inv_def new_overlay_def)
  then have "overlay_inv (foldl overlay_step new_overlay es)" by (rule overlay.inv_events)
  then show ?thesis by (auto simp: overlay_inv_def Let_def)
qed

text \<open>An activation toggles; the page it then shows is the one published now. Escape always hides.\<close>

lemma activation_toggles:
  "ov_visible w \<Longrightarrow> \<not> ov_visible (overlay_step w (Activated target))"
  "\<not> ov_visible w \<Longrightarrow> ov_visible (overlay_step w (Activated (Inr t)))"
  "\<not> ov_visible w \<Longrightarrow> ov_page (overlay_step w (Activated (Inr t))) = (case t of None \<Rightarrow> Not_ready | Some u \<Rightarrow> At u)"
  "ov_created w \<Longrightarrow> \<not> ov_visible (overlay_step w (Key True))"
  by (auto simp: overlay_step_def do_activate_def create_window_def show_overlay_def shown_page_def hide_overlay_def key_pressed_def
      split: option.split)

text \<open>A window that has the focus when the timer ends stays.\<close>

lemma focused_window_stays: "ov_active w \<Longrightarrow> ov_visible (overlay_step w Timer_due) = ov_visible w"
  by (simp add: overlay_step_def hide_if_inactive_def)

text \<open>
  The timer of an earlier focus loss is not cancelled: shown again while the desktop has not yet given
  it the focus, the overlay is hidden by it.
\<close>

lemma stale_timer_hides_new_window:
  "\<not> ov_visible (foldl overlay_step new_overlay
     [Activated (Inr (Some u)), Active_changed True, Active_changed False, Key True, Activated (Inr (Some u)), Timer_due])"
  by (simp add: overlay_step_def do_activate_def create_window_def show_overlay_def shown_page_def hide_overlay_def key_pressed_def
      active_changed_def hide_if_inactive_def new_overlay_def Let_def)

section \<open>The overlay opens the page of the running server\<close>

lemma quote_plus_safe: "list_all always_safe s \<Longrightarrow> quote_plus s = s"
  unfolding quote_plus_def using always_safe_plain
  by (induction s) (auto simp: quote_char_def)

lemma safe_clear: "list_all always_safe s \<Longrightarrow> clear_of ''%&=+?#/ '' s"
  using always_safe_plain by (auto simp: clear_of_def list_all_iff)

lemma urlsplit_server:
  assumes "list_all always_safe token"
  shows "urlsplit addr (server_url port token) = Some \<lparr>url_scheme = ''http'', url_netloc = ''127.0.0.1:'' @ show_int port,
     url_path = ''/'', url_query = ''token='' @ token, url_fragment = []\<rparr>"
proof -
  let ?n = "''127.0.0.1:'' @ show_int port" and ?q = "''token='' @ token"
  have url: "server_url port token = ''http:'' @ ''//'' @ ?n @ ''/'' @ ''?'' @ ?q" by (simp add: server_url_def)
  have nospace: "list_all (\<lambda>c. \<not> is_space c) (server_url port token)" by (rule server_url_no_space [OF assms])
  have "is_space (CHR 0x09)" "is_space newline" "is_space carriage_return" by (simp_all add: is_space_def code_def)
  then have "filter (\<lambda>c. c \<notin> {CHR 0x09, newline, carriage_return}) (server_url port token) = server_url port token"
    using nospace by (auto simp: filter_id_conv list_all_iff)
  moreover have "dropWhile (\<lambda>c. code c \<le> 32) (server_url port token) = server_url port token"
    unfolding url by (simp add: code_def)
  ultimately have clean: "clean_url (server_url port token) = ''http:'' @ ''//'' @ ?n @ ''/'' @ ''?'' @ ?q"
    by (simp add: clean_url_def url)
  have scheme: "split_scheme (''http:'' @ rest) = (''http'', rest)" for rest
    by (simp add: split_scheme_def Let_def is_alpha_ascii_def is_lower_ascii_def is_upper_ascii_def
        scheme_char_def code_def lower_def lower_char_def)
  have digits: "c \<notin> set ''/?#[]''" if "c \<in> set (show_int port)" for c
    using that show_int_chars [of port] by (auto simp: list_all_iff is_digit_def code_def)
  then have n: "clear_of ''/?#'' ?n" "CHR ''['' \<notin> set ?n" "CHR '']'' \<notin> set ?n" by (auto simp: clear_of_def)
  have netloc: "split_netloc (''//'' @ ?n @ ''/'' @ ''?'' @ ?q) = (?n, ''/'' @ ''?'' @ ?q)"
    by (rule split_netloc_parts [OF n(1)]) simp
  have "CHR ''#'' \<notin> set (''/'' @ ''?'' @ ?q)" using safe_clear [OF assms] by (auto simp: clear_of_def)
  then have "partition_at (CHR ''#'') (''/'' @ ''?'' @ ?q) = (''/'' @ ''?'' @ ?q, False, [])" by (rule partition_at_absent)
  moreover have "partition_at (CHR ''?'') (''/'' @ ''?'' @ ?q) = (''/'', True, ?q)" by simp
  ultimately show ?thesis
    unfolding urlsplit_def clean scheme using netloc n(2,3) by (simp add: netloc_ok_def)
qed

text \<open>
  From the discovery file of a running server the overlay opens the address of that server, with its
  token and the compact surface selected.
\<close>

lemma overlay_opens_server:
  assumes "list_all always_safe token"
  shows "overlay_url addr bad (Inr (the (write_url_file (server_url port token) old))) =
    Some (Inr (Some (server_url port token @ ''&surface=overlay'')))"
proof -
  have strip: "strip (server_url port token @ [newline]) = server_url port token"
    by (rule strip_line [OF server_url_no_space [OF assms]]) (simp add: server_url_def)
  have ne: "server_url port token \<noteq> []" by (simp add: server_url_def)
  have "CHR ''&'' \<notin> set (''token='' @ token)" using safe_clear [OF assms] by (auto simp: clear_of_def)
  moreover have "parse_pair (''token'' @ ''='' @ token) = Some (''token'', token)"
    using unquote_plus_safe [OF assms] unquote_plus_safe [OF always_safe_names(1)] by (intro parse_pair_raw) simp_all
  ultimately have "parse_qsl (''token='' @ token) = Some [(''token'', token)]"
    by (simp add: parse_qsl_def split_char_none)
  moreover have "urlencode [(''token'', token), (''surface'', ''overlay'')] = ''token='' @ token @ ''&surface=overlay''"
    using always_safe_names
    by (simp add: urlencode_def quote_plus_safe assms always_safe_def is_alpha_ascii_def is_lower_ascii_def code_def)
  ultimately have "overlay_query (''token='' @ token) = Some (''token='' @ token @ ''&surface=overlay'')"
    by (simp add: overlay_query_def dict_def)
  moreover have "unsplit_url \<lparr>url_scheme = ''http'', url_netloc = ''127.0.0.1:'' @ show_int port, url_path = ''/'',
      url_query = ''token='' @ token @ ''&surface=overlay'', url_fragment = []\<rparr> = server_url port token @ ''&surface=overlay''"
    by (simp add: unsplit_url_def urlunsplit_def server_url_def startswith_def Let_def)
  ultimately show ?thesis using strip ne
    by (simp add: overlay_url_def write_url_file_def urlsplit_server [OF assms] Let_def)
qed

end
