(* ===== verification/Logging.thy ===== *)
theory Logging
  imports Config
begin

text \<open>
  \<^verbatim>\<open>log.py\<close>: the set-up of the log from the configuration and the context that is bound to a query's
  lines. structlog itself is not modelled; \<^verbatim>\<open>contextvars\<close> give each task a context of its own, copied
  from the task that started it.
\<close>

section \<open>The set-up\<close>

text \<open>
  \<^verbatim>\<open>getattr(logging, level.upper(), logging.INFO)\<close>: the upper-case names of the module are its levels
  and two values that are none.
\<close>

datatype log_attribute = Level int | No_level

definition LEVELS :: "(pystr \<times> log_attribute) list" where
  "LEVELS = [(''CRITICAL'', Level 50), (''FATAL'', Level 50), (''ERROR'', Level 40), (''WARNING'', Level 30),
     (''WARN'', Level 30), (''INFO'', Level 20), (''DEBUG'', Level 10), (''NOTSET'', Level 0),
     (''BASIC_FORMAT'', No_level), (''_STYLES'', No_level)]"

definition level_to_int :: "pystr \<Rightarrow> log_attribute" where
  "level_to_int level = the_default (Level 20) (map_of LEVELS (upper_ascii level))"

datatype processor = Merge_context | Add_level | Time_stamp | Stack_info | Exception_info | JSON_lines | Console_lines

record log_setup =
  ls_processors :: "processor list"
  ls_threshold :: log_attribute
  ls_cached :: bool

definition configure :: "pystr \<Rightarrow> pystr \<Rightarrow> log_setup" where
  "configure renderer level =
     \<lparr>ls_processors = [Merge_context, Add_level, Time_stamp, Stack_info, Exception_info,
        if renderer = ''json'' then JSON_lines else Console_lines],
      ls_threshold = level_to_int level, ls_cached = True\<rparr>"

section \<open>The context of a query\<close>

type_synonym log_context = "pystr \<rightharpoonup> pystr"

definition bind_context :: "(pystr \<times> pystr) list \<Rightarrow> log_context \<Rightarrow> log_context" where
  "bind_context kvs ctx = ctx ++ map_of kvs"

definition clear_context :: "log_context \<Rightarrow> log_context" where
  "clear_context ctx = Map.empty"

text \<open>
  Tasks by number: one task starts another, a dispatch enters its body and leaves it, a task writes
  a line. A line carries the context of its task.
\<close>

record log_world =
  lw_contexts :: "nat \<Rightarrow> log_context"
  lw_lines :: "(nat \<times> log_context) list"

datatype log_event = Task_started nat nat | Body_entered nat pystr pystr | Body_left nat | Line_written nat

definition quiet_log :: log_world where
  "quiet_log = \<lparr>lw_contexts = (\<lambda>_. Map.empty), lw_lines = []\<rparr>"

definition log_step :: "log_world \<Rightarrow> log_event \<Rightarrow> log_world" where
  "log_step w ev =
     (let cs = lw_contexts w
      in case ev of
           Task_started parent child \<Rightarrow> w\<lparr>lw_contexts := cs(child := cs parent)\<rparr>
         | Body_entered t query session \<Rightarrow>
             w\<lparr>lw_contexts := cs(t := bind_context [(''query_id'', query), (''session'', session)] (cs t))\<rparr>
         | Body_left t \<Rightarrow> w\<lparr>lw_contexts := cs(t := clear_context (cs t))\<rparr>
         | Line_written t \<Rightarrow> w\<lparr>lw_lines := lw_lines w @ [(t, cs t)]\<rparr>)"

section \<open>Properties\<close>

text \<open>
  Every configuration that is accepted gives a log: its level is one of the five, its renderer the one
  that was named, and the context of the query is merged into every line.
\<close>

lemma five_levels:
  "map level_to_int [''DEBUG'', ''INFO'', ''WARNING'', ''ERROR'', ''CRITICAL''] = map Level [10, 20, 30, 40, 50]"
  by code_simp

lemma accepted_configuration_logs:
  assumes "config_ok addr cfg"
  shows "ls_threshold (configure (cfg_log_format cfg) (cfg_log_level cfg)) \<in> Level ` {10, 20, 30, 40, 50}"
    "last (ls_processors (configure (cfg_log_format cfg) (cfg_log_level cfg))) =
       (if cfg_log_format cfg = ''console'' then Console_lines else JSON_lines)"
    "hd (ls_processors (configure (cfg_log_format cfg) (cfg_log_level cfg))) = Merge_context"
proof -
  from assms have "cfg_log_level cfg \<in> {''DEBUG'', ''INFO'', ''WARNING'', ''ERROR'', ''CRITICAL''}"
    by (simp add: config_ok_def)
  then show "ls_threshold (configure (cfg_log_format cfg) (cfg_log_level cfg)) \<in> Level ` {10, 20, 30, 40, 50}"
    using five_levels by (elim insertE) (simp_all add: configure_def)
  show "last (ls_processors (configure (cfg_log_format cfg) (cfg_log_level cfg))) =
      (if cfg_log_format cfg = ''console'' then Console_lines else JSON_lines)"
    using assms by (auto simp: config_ok_def configure_def)
qed (simp add: configure_def)

text \<open>The name of another attribute of \<^verbatim>\<open>logging\<close> is no level; the configuration does not let one through.\<close>

lemma other_attribute_no_level: "level_to_int ''basic_format'' = No_level"
  by code_simp

text \<open>What other tasks do in between does not change what a query's lines carry.\<close>

definition touches :: "nat \<Rightarrow> log_event \<Rightarrow> bool" where
  "touches t ev = (case ev of Task_started p c \<Rightarrow> c = t | Body_entered t' q s \<Rightarrow> t' = t | Body_left t' \<Rightarrow> t' = t
     | Line_written t' \<Rightarrow> False)"

lemma untouched_context:
  "list_all (\<lambda>ev. \<not> touches t ev) es \<Longrightarrow> lw_contexts (foldl log_step w es) t = lw_contexts w t"
  by (induction es arbitrary: w) (auto simp: log_step_def touches_def Let_def split: log_event.splits)

lemma query_lines_labelled:
  assumes "list_all (\<lambda>ev. \<not> touches t ev) es"
  shows "\<exists>ctx. last (lw_lines (foldl log_step w (Body_entered t q s # es @ [Line_written t]))) = (t, ctx) \<and>
    ctx ''query_id'' = Some q \<and> ctx ''session'' = Some s"
  using untouched_context [OF assms, of "log_step w (Body_entered t q s)"]
  by (simp add: log_step_def bind_context_def Let_def)

end
