(* ===== verification/Typed_Consent.thy ===== *)
theory Typed_Consent
  imports Terminal_Client Web_Session Handlers Dispatch_Messages
begin

text \<open>
  A question end to end: the daemon's \<^verbatim>\<open>ClientConn.confirm\<close> and \<^verbatim>\<open>_await_response\<close> on one side, the
  terminal client on the other, every message as the line it is on the socket. The transport of
  \<open>Connections\<close>, elsewhere a parameter, is here the pair of the two models.
\<close>

text \<open>
  The two ends of one connection and the lines the person is going to type; \<open>st_future\<close> is the number
  of the next future.
\<close>

record seat =
  st_terminal :: terminal
  st_typing :: "pystr list"
  st_conn :: server_conn
  st_future :: nat

text \<open>A flushed payload is read by the terminal's reader.\<close>

definition seat_drain :: "py_texts \<Rightarrow> pystr \<Rightarrow> (seat, unit) act" where
  "seat_drain py payload s = (Inr (), s\<lparr>st_terminal := handle_line py payload (st_terminal s)\<rparr>)"

text \<open>
  \<^verbatim>\<open>_await_response\<close>: a new future is registered; meanwhile the person types a line, what the terminal
  sends for it is handled by \<^verbatim>\<open>_on_message\<close> (at the time \<open>tm\<close>), and the future is read off. Without a
  line to come the wait ends cancelled.
\<close>

definition lines_for_daemon :: "(real \<Rightarrow> pystr) \<Rightarrow> terminal \<Rightarrow> terminal \<Rightarrow> pystr list" where
  "lines_for_daemon frepr t t' = map (\<lambda>m. strip (encode frepr m)) (drop (length (tm_sent t)) (tm_sent t'))"

definition await_future ::
  "py_texts \<Rightarrow> real \<Rightarrow> pystr list \<Rightarrow> json \<Rightarrow> nat \<Rightarrow> server_conn \<Rightarrow> json option \<times> server_conn" where
  "await_future py tm lines qid f conn =
     (let conn = conn\<lparr>sc_client := begin_wait qid f (sc_client conn)\<rparr>;
          conn = foldl (\<lambda>c line. snd (on_line py tm line c)) conn lines
      in (case cl_futures (sc_client conn) f of Responded m \<Rightarrow> Some (get_field m ''confirmed'') | _ \<Rightarrow> None,
          conn\<lparr>sc_client := end_wait qid (sc_client conn)\<rparr>))"

definition seat_answer :: "py_texts \<Rightarrow> (real \<Rightarrow> pystr) \<Rightarrow> real \<Rightarrow> json \<Rightarrow> seat \<Rightarrow> json option \<times> seat" where
  "seat_answer py frepr tm qid s =
     (let t = st_terminal s;
          (t', typing) = (case st_typing s of [] \<Rightarrow> (t, []) | line # rest \<Rightarrow> (answer_question (Inr line) None t, rest));
          (r, conn) = await_future py tm (lines_for_daemon frepr t t') qid (st_future s) (st_conn s)
      in (r, s\<lparr>st_terminal := t', st_typing := typing, st_conn := conn, st_future := st_future s + 1\<rparr>))"

definition seat_transport :: "py_texts \<Rightarrow> (real \<Rightarrow> pystr) \<Rightarrow> real \<Rightarrow> seat transport" where
  "seat_transport py frepr tm =
     \<lparr>tr_drain = seat_drain py, tr_answer = seat_answer py frepr tm, tr_float = frepr\<rparr>"

section \<open>A line from the terminal\<close>

lemma wire_ready_respond: "wire_ready (mk_message Respond [JStr qid, JBool b, JNull])"
  by (simp add: wire_ready_def mk_message_def)

lemma wire_ready_confirm: "wire_ready (mk_message Confirm [JStr qid, JStr txt])"
  by (simp add: wire_ready_def mk_message_def)

lemma strip_strip_encode: "strip (encode frepr m) \<noteq> []"
  by (simp add: strip_encode encoded_object_def)

lemma decode_stripped: "wire_ready m \<Longrightarrow> decode py (strip (encode frepr m)) = Inr m"
  by (simp add: strip_encode decode_encoded)

lemma question_shown:
  assumes "tm_reader t = reader_phase.Reading"
  shows "\<exists>shown. tm_shown (handle_line py (encode frepr (mk_message Confirm [JStr qid, JStr txt])) t) =
      shown @ [newline # txt @ '' [y/N] '']"
    "tm_reader (handle_line py (encode frepr (mk_message Confirm [JStr qid, JStr txt])) t) =
      Asking (mk_message Confirm [JStr qid, JStr txt])"
proof -
  let ?q = "mk_message Confirm [JStr qid, JStr txt]"
  have "handle_line py (encode frepr ?q) t = handle_message py ?q t"
    using assms strip_strip_encode [of frepr ?q] by (simp add: handle_line_def decode_stripped wire_ready_confirm)
  then show "\<exists>shown. tm_shown (handle_line py (encode frepr ?q) t) = shown @ [newline # txt @ '' [y/N] '']"
    "tm_reader (handle_line py (encode frepr ?q) t) = Asking ?q"
    by (simp_all add: handle_message_def mk_message_def get_field_def py_str_def write_out_def Let_def)
qed

text \<open>Any reply a client writes is the value of the future that waits for it.\<close>

lemma reply_delivered:
  assumes "wire_ready r" "msg_class r = Respond" "get_field r ''id'' = JStr qid"
  shows "\<exists>conn'. await_future py tm [strip (encode frepr r)] (JStr qid) f conn = (Some (get_field r ''confirmed''), conn')"
proof -
  have "on_line py tm (strip (encode frepr r)) c = on_request r c" for c
    by (simp add: on_line_def decode_stripped assms(1))
  then show ?thesis
    by (simp add: await_future_def)
      (simp add: on_request_def deliver_response_def begin_wait_def unhashable_def assms(2,3) Let_def)
qed

lemma client_confirm_answered:
  assumes "fits_wire (tr_float tr) (mk_message Confirm [qid, JStr txt])"
    and "tr_drain tr (encode (tr_float tr) (mk_message Confirm [qid, JStr txt])) (dm_world d) = (Inr (), w)"
    and "tr_answer tr qid w = (r, w')"
  shows "client_confirm tr qid txt d = (Inr (case r of None \<Rightarrow> False | Some c \<Rightarrow> truthy c),
    d\<lparr>dm_world := w', dm_replies := dm_replies d @ [mk_message Confirm [qid, JStr txt]]\<rparr>)"
  using assms
  by (simp add: client_confirm_def client_send_value await_response_def andthen_def lift_def ret_def Let_def)

section \<open>Properties\<close>

text \<open>
  C7: A question of the daemon to a terminal that is reading: the person sees the question's text with
  "[y/N]", and what \<^verbatim>\<open>confirm\<close> returns to the daemon is whether the line then typed is \<^verbatim>\<open>y\<close> or \<^verbatim>\<open>yes\<close> up
  to case and blanks, through both encodings and both decoders; the terminal reads on afterwards.
\<close>

theorem typed_consent_reaches_daemon:
  assumes "tm_reader (st_terminal (dm_world d)) = reader_phase.Reading" "st_typing (dm_world d) = line # rest"
    and "fits_wire frepr (mk_message Confirm [JStr qid, JStr txt])"
  shows "\<exists>d'. client_confirm (seat_transport py frepr tm) (JStr qid) txt d = (Inr (lower (strip line) \<in> set [''y'', ''yes'']), d') \<and>
    (newline # txt @ '' [y/N] '') \<in> set (tm_shown (st_terminal (dm_world d'))) \<and>
    tm_reader (st_terminal (dm_world d')) = reader_phase.Reading \<and> st_typing (dm_world d') = rest"
proof -
  let ?q = "mk_message Confirm [JStr qid, JStr txt]"
  let ?r = "mk_message Respond [JStr qid, JBool (says_yes line), JNull]"
  define s where "s = dm_world d"
  define t where "t = handle_line py (encode frepr ?q) (st_terminal s)"
  obtain shown where
    t: "tm_shown t = shown @ [newline # txt @ '' [y/N] '']" "tm_reader t = Asking ?q"
    using question_shown [of "st_terminal s" py frepr qid "txt"] assms(1) by (auto simp: t_def s_def)
  have reply: "reply_to ?q line = ?r" by (simp add: reply_to_def mk_message_def get_field_def)
  define t' where "t' = answer_question (Inr line) None t"
  have t': "tm_sent t' = tm_sent t @ [?r]" "tm_reader t' = reader_phase.Reading" "tm_shown t' = tm_shown t"
    using t(2) reply by (simp_all add: t'_def answer_question_def spinner_start_def Let_def)
  have lines: "lines_for_daemon frepr t t' = [strip (encode frepr ?r)]" by (simp add: lines_for_daemon_def t'(1))
  have r: "wire_ready ?r" "msg_class ?r = Respond" "get_field ?r ''id'' = JStr qid" "get_field ?r ''confirmed'' = JBool (says_yes line)"
    by (rule wire_ready_respond) (simp_all add: mk_message_def get_field_def)
  obtain conn' where "await_future py tm [strip (encode frepr ?r)] (JStr qid) (st_future s) (st_conn s) =
      (Some (JBool (says_yes line)), conn')"
    using reply_delivered [OF r(1-3), of py tm frepr "st_future s" "st_conn s"] r(4) by auto
  then have "fst (seat_answer py frepr tm (JStr qid) (s\<lparr>st_terminal := t\<rparr>)) = Some (JBool (says_yes line))"
    "st_terminal (snd (seat_answer py frepr tm (JStr qid) (s\<lparr>st_terminal := t\<rparr>))) = t'"
    "st_typing (snd (seat_answer py frepr tm (JStr qid) (s\<lparr>st_terminal := t\<rparr>))) = rest"
    using assms(2) by (simp_all add: seat_answer_def s_def t'_def [symmetric] lines)
  then obtain s' where s': "seat_answer py frepr tm (JStr qid) (s\<lparr>st_terminal := t\<rparr>) = (Some (JBool (says_yes line)), s')"
    "st_terminal s' = t'" "st_typing s' = rest"
    by (metis prod.collapse)
  have "client_confirm (seat_transport py frepr tm) (JStr qid) txt d = (Inr (says_yes line),
      d\<lparr>dm_world := s', dm_replies := dm_replies d @ [?q]\<rparr>)"
    using client_confirm_answered [of "seat_transport py frepr tm" "JStr qid" "txt" d "s\<lparr>st_terminal := t\<rparr>"] assms(3) s'(1)
    by (simp add: seat_transport_def seat_drain_def s_def t_def)
  with s' t t' show ?thesis by (simp add: says_yes_def)
qed

lemma short_questions_fit:
  assumes "length qid \<le> 1000" "length txt \<le> 1000"
  shows "fits_wire f (mk_message Confirm [JStr qid, JStr txt])"
proof -
  let ?e = "encode f (mk_message Confirm [JStr qid, JStr txt])"
  have "?e = dumps f (JObj [(''type'', JStr ''confirm''), (''id'', JStr qid), (''text'', JStr txt)]) @ [newline]"
    by (simp add: encode_def mk_message_def)
  then have "length ?e \<le> 200 + length (dumps_str qid) + length (dumps_str txt)"
    using length_dumps_str [of "''type''"] length_dumps_str [of "''confirm''"] length_dumps_str [of "''id''"]
      length_dumps_str [of "''text''"] by simp
  with length_dumps_str [of qid] length_dumps_str [of "txt"] assms have "length ?e \<le> 20000" by simp
  then show ?thesis using utf8_length_bound [of ?e] by (simp add: fits_wire_def MAX_WIRE_MESSAGE_BYTES_def)
qed

definition ready_seat :: seat where
  "ready_seat = \<lparr>st_terminal = new_terminal ''term-1'', st_typing = ['' Yes ''],
     st_conn = \<lparr>sc_client = new_client, sc_ops = new_operational_state, sc_spawned = [], sc_cancelled = {}\<rparr>, st_future = 0\<rparr>"

lemma typed_consent_reaches_daemon_witness:
  "\<forall>py. \<exists>d'. client_confirm (seat_transport py (\<lambda>_. []) 0) (JStr ''q1'') ''Restart it?'' (new_daemon ready_seat NullStore) =
      (Inr (lower (strip '' Yes '') \<in> set [''y'', ''yes'']), d') \<and>
    (newline # ''Restart it?'' @ '' [y/N] '') \<in> set (tm_shown (st_terminal (dm_world d'))) \<and>
    tm_reader (st_terminal (dm_world d')) = reader_phase.Reading \<and> st_typing (dm_world d') = []"
proof
  fix py
  have "fits_wire (\<lambda>_. []) (mk_message Confirm [JStr ''q1'', JStr ''Restart it?''])" by (intro short_questions_fit) simp_all
  then show "\<exists>d'. client_confirm (seat_transport py (\<lambda>_. []) 0) (JStr ''q1'') ''Restart it?'' (new_daemon ready_seat NullStore) =
      (Inr (lower (strip '' Yes '') \<in> set [''y'', ''yes'']), d') \<and>
    (newline # ''Restart it?'' @ '' [y/N] '') \<in> set (tm_shown (st_terminal (dm_world d'))) \<and>
    tm_reader (st_terminal (dm_world d')) = reader_phase.Reading \<and> st_typing (dm_world d') = []"
    by (intro typed_consent_reaches_daemon) (simp_all add: ready_seat_def new_terminal_def new_daemon_def)
qed

text \<open>The same for a browser: what \<^verbatim>\<open>confirm\<close> returns is a posted yes.\<close>

lemma posted_consent_reaches_daemon:
  "\<exists>c conn'. await_future py tm [strip (encode frepr (respond_msg qid confirmed value))] (JStr qid) f conn = (Some c, conn') \<and>
     truthy c = (confirmed = Some True)"
proof -
  let ?r = "respond_msg qid confirmed value"
  have r: "wire_ready ?r" "msg_class ?r = Respond" "get_field ?r ''id'' = JStr qid"
    "get_field ?r ''confirmed'' = (case confirmed of None \<Rightarrow> JNull | Some b \<Rightarrow> JBool b)"
    by (auto simp: respond_msg_def wire_ready_def mk_message_def get_field_def split: option.split)
  show ?thesis
    using reply_delivered [OF r(1-3), of py tm frepr f conn] unfolding r(4) by (auto split: option.splits)
qed

end
