(* ===== verification/Background_Loops.thy ===== *)
theory Background_Loops
  imports Lifecycle
begin

text \<open>
  The loops of \<^verbatim>\<open>server.py\<close> that \<open>Lifecycle\<close> starts besides autofix: readiness of the local model,
  expiry of old events, heartbeats; and the subscription of a D-Bus monitor (\<^verbatim>\<open>monitors.py\<close>). The
  loops run until they are cancelled; a list of turns is what they did so far.
\<close>

definition EVENT_PRUNE_INTERVAL :: real where "EVENT_PRUNE_INTERVAL = 24 * 60 * 60"

section \<open>Readiness\<close>

text \<open>
  The flag \<open>local_ready\<close>, the event that queries wait for, what was broadcast, and the pauses.
\<close>

record readiness =
  rd_flag :: bool
  rd_event :: bool
  rd_sent :: "message list"
  rd_pauses :: "real list"

definition not_ready :: readiness where
  "not_ready = \<lparr>rd_flag = False, rd_event = False, rd_sent = [], rd_pauses = []\<rparr>"

definition readiness_turn :: "readiness \<Rightarrow> bool \<Rightarrow> readiness" where
  "readiness_turn r probe =
     (let (flag, rise, pause) = readiness_step probe (rd_flag r);
          fall = (\<not> probe \<and> rd_flag r)
      in \<lparr>rd_flag = flag, rd_event = (if rise then True else if fall then False else rd_event r),
          rd_sent = rd_sent r @ (if rise then [ready_event] else []), rd_pauses = rd_pauses r @ [pause]\<rparr>)"

definition readiness_loop :: "config \<Rightarrow> readiness \<Rightarrow> bool list \<Rightarrow> readiness" where
  "readiness_loop cfg r probes = (if has_local cfg then foldl readiness_turn r probes else r)"

text \<open>How often a sequence of probes turns from not ready to ready.\<close>

fun rises :: "bool \<Rightarrow> bool list \<Rightarrow> nat" where
  "rises b [] = 0"
| "rises b (p # ps) = (if p \<and> \<not> b then 1 else 0) + rises p ps"

lemma readiness_run:
  assumes "rd_event r = rd_flag r"
  shows "foldl readiness_turn r probes =
    \<lparr>rd_flag = last (rd_flag r # probes), rd_event = last (rd_flag r # probes),
     rd_sent = rd_sent r @ replicate (rises (rd_flag r) probes) ready_event,
     rd_pauses = rd_pauses r @ map (\<lambda>p. if p then 30 else 2) probes\<rparr>"
  using assms
proof (induction probes arbitrary: r)
  case (Cons p ps)
  let ?r = "readiness_turn r p"
  from Cons.prems have "rd_event ?r = rd_flag ?r" "rd_flag ?r = p"
    by (auto simp: readiness_turn_def readiness_step_def Let_def)
  with Cons.IH [of ?r] show ?case
    by (simp add: readiness_turn_def readiness_step_def Let_def replicate_app_Cons_same)
qed simp

text \<open>
  After any probes of the local model the flag and the event that queries wait for agree with the last
  of them, clients were told once for every time it became ready, and the next probe comes after
  two seconds while it is not ready and after thirty while it is.
\<close>

lemma readiness_announced:
  "let r = readiness_loop cfg not_ready probes; seen = (if has_local cfg then probes else [])
   in rd_flag r = last (False # seen) \<and> rd_event r = rd_flag r \<and>
      rd_sent r = replicate (rises False seen) ready_event \<and> rd_pauses r = map (\<lambda>p. if p then 30 else 2) seen"
  using readiness_run [of not_ready probes] by (simp add: readiness_loop_def not_ready_def Let_def)

section \<open>Expiry\<close>

definition prune_turn :: "'w services \<Rightarrow> 'w daemon \<Rightarrow> 'w daemon" where
  "prune_turn sv d = prune_events sv (d\<lparr>dm_world := sleep (sv_host sv) EVENT_PRUNE_INTERVAL (dm_world d)\<rparr>)"

text \<open>
  A turn keeps exactly the events younger than the retention at its time, and all of them when the
  database fails or is closed.
\<close>

lemma expiry_exact:
  assumes "dm_store d = EventStore db" "w = sleep (sv_host sv) EVENT_PRUNE_INTERVAL (dm_world d)"
  shows "dm_store (prune_turn sv d) = EventStore (db\<lparr>rows :=
    if closed db \<or> \<not> db_up (sv_host sv) w then rows db
    else filter (\<lambda>r. clock (sv_host sv) w - of_int (cfg_retention_days (sv_config sv)) * 24 * 60 * 60 \<le> row_ts r) (rows db)\<rparr>)"
  using assms by (simp add: prune_turn_def prune_events_def st_prune_def prune_def Let_def not_less)

section \<open>Heartbeats\<close>

definition heartbeat_turn :: "'w host \<Rightarrow> 'w life_calls \<Rightarrow> real \<Rightarrow> ('w, unit) act" where
  "heartbeat_turn h lc interval w =
     (case notify (lc_datagram lc) (lc_env lc) ''WATCHDOG=1'' (sleep h interval w) of
        (Inl e, w') \<Rightarrow> (Inl e, w') | (Inr _, w') \<Rightarrow> (Inr (), w'))"

fun heartbeats :: "nat \<Rightarrow> 'w host \<Rightarrow> 'w life_calls \<Rightarrow> real \<Rightarrow> ('w, unit) act" where
  "heartbeats 0 h lc interval = ret ()"
| "heartbeats (Suc n) h lc interval = andthen (heartbeat_turn h lc interval) (\<lambda>_. heartbeats n h lc interval)"

text \<open>The first \<open>n\<close> turns; without an interval the loop ends at once.\<close>

definition watchdog_loop :: "nat \<Rightarrow> 'w host \<Rightarrow> 'w life_calls \<Rightarrow> ('w, unit) act" where
  "watchdog_loop n h lc =
     (case watchdog_interval (lc_env lc) (lc_pid lc) of None \<Rightarrow> ret () | Some i \<Rightarrow> heartbeats n h lc i)"

text \<open>A failing socket of the service manager does not end the heartbeats.\<close>

lemma heartbeats_go_on:
  assumes "\<And>a w. case fst (lc_datagram lc a ''WATCHDOG=1'' w) of Inl e \<Rightarrow> is_os_error e | Inr _ \<Rightarrow> True"
  shows "fst (watchdog_loop n h lc w) = Inr ()"
proof -
  have turn: "\<exists>w'. heartbeat_turn h lc i w = (Inr (), w')" for i w
  proof -
    have "case fst (notify (lc_datagram lc) (lc_env lc) ''WATCHDOG=1'' v) of Inl e \<Rightarrow> False | Inr _ \<Rightarrow> True" for v
    proof (cases "lc_datagram lc (notify_address (the_default [] (lc_env lc ''NOTIFY_SOCKET''))) ''WATCHDOG=1'' v")
      case (Pair r v')
      with assms [of "notify_address (the_default [] (lc_env lc ''NOTIFY_SOCKET''))" v] show ?thesis
        by (simp add: notify_def Let_def split: sum.splits)
    qed
    from this [of "sleep h i w"] show ?thesis
      by (auto simp: heartbeat_turn_def split: prod.split sum.splits)
  qed
  have "fst (heartbeats n h lc i w) = Inr ()" for i
  proof (induction n arbitrary: w)
    case (Suc n)
    from turn [of i w] obtain w' where "heartbeat_turn h lc i w = (Inr (), w')" by blast
    with Suc.IH [of w'] show ?case by (simp add: andthen_def)
  qed (simp add: ret_def)
  then show ?thesis by (simp add: watchdog_loop_def ret_def split: option.split)
qed

section \<open>Subscribing to a signal\<close>

text \<open>
  \<^verbatim>\<open>_dbus_subscribe\<close> up to its endless wait: connecting to the bus the monitor names and adding the
  match rule. A failure is only logged, a cancellation is passed on.
\<close>

datatype bus_kind = System_bus | Session_bus

definition bus_of :: "watcher \<Rightarrow> bus_kind" where
  "bus_of m = (if mn_bus (wt_decl m) = ''system'' then System_bus else Session_bus)"

definition dbus_subscribe ::
  "(bus_kind \<Rightarrow> ('w, unit) act) \<Rightarrow> (pystr \<Rightarrow> ('w, unit) act) \<Rightarrow> watcher \<Rightarrow> ('w, bool) act" where
  "dbus_subscribe connect add_match m w =
     (case andthen (connect (bus_of m)) (\<lambda>_. add_match (match_rule (wt_decl m))) w of
        (Inr _, w') \<Rightarrow> (Inr True, w')
      | (Inl e, w') \<Rightarrow> (if is_cancelled e then Inl e else Inr False, w'))"

text \<open>An unavailable bus costs one monitor its signals and nothing else.\<close>

lemma subscription_failure_contained:
  "case fst (dbus_subscribe connect add_match m w) of Inl e \<Rightarrow> is_cancelled e | Inr _ \<Rightarrow> True"
  by (auto simp: dbus_subscribe_def split: prod.split sum.split)

end
