(* ===== verification/Programs.thy ===== *)
theory Programs
  imports Tray_Desktop Logging Helper
begin

text \<open>
  The entry points: the \<^verbatim>\<open>main\<close> functions of the daemon, the web server, the tray and the root helper,
  and the discovery file under several web servers. What a program does once it runs is modelled in
  the other theories and is an argument here.
\<close>

definition is_interrupt :: "exn \<Rightarrow> bool" where
  "is_interrupt e \<longleftrightarrow> (case e of Foreign cls msg \<Rightarrow> cls = ''KeyboardInterrupt'' | _ \<Rightarrow> False)"

text \<open>\<^verbatim>\<open>try: \<dots> except KeyboardInterrupt: pass\<close>.\<close>

definition until_interrupt :: "exn + unit \<Rightarrow> exn + unit" where
  "until_interrupt r = (case r of Inl e \<Rightarrow> if is_interrupt e then Inr () else Inl e | Inr _ \<Rightarrow> Inr ())"

section \<open>The daemon\<close>

text \<open>
  \<^verbatim>\<open>main\<close> of \<^verbatim>\<open>server.py\<close>: the log set up and the daemon started with the configuration, or nothing
  at all when the configuration is refused; \<open>serve\<close> is \<^verbatim>\<open>_serve\<close>.
\<close>

definition daemon_main ::
  "(pystr \<Rightarrow> bool) \<Rightarrow> environment \<Rightarrow> pystr \<Rightarrow> (config \<Rightarrow> exn + unit) \<Rightarrow> (exn + unit) \<times> log_setup option" where
  "daemon_main addr os_env home serve =
     (case from_env addr os_env home None of
        Inl e \<Rightarrow> (Inl e, None)
      | Inr cfg \<Rightarrow> (until_interrupt (serve cfg), Some (configure (cfg_log_format cfg) (cfg_log_level cfg))))"

text \<open>A daemon that served had an accepted configuration, and its log a proper level.\<close>

lemma daemon_runs_configured:
  "case daemon_main addr os_env home serve of
     (Inl e, None) \<Rightarrow> from_env addr os_env home None = Inl e
   | (r, Some setup) \<Rightarrow> (\<exists>cfg. from_env addr os_env home None = Inr cfg \<and> config_ok addr cfg \<and>
        r = until_interrupt (serve cfg) \<and> ls_threshold setup \<in> Level ` {10, 20, 30, 40, 50})
   | _ \<Rightarrow> False"
proof (cases "from_env addr os_env home None")
  case (Inr cfg)
  then have cfg: "cfg = read_config os_env home os_env" "config_errors addr os_env cfg = []"
    by (simp_all add: from_env_def Let_def split: if_splits)
  then have "config_ok addr cfg" by (intro config_errors_Nil) (simp_all add: read_config_def)
  moreover from accepted_configuration_logs(1) [OF this]
  have "ls_threshold (configure (cfg_log_format cfg) (cfg_log_level cfg)) \<in> Level ` {10, 20, 30, 40, 50}" .
  ultimately show ?thesis using Inr by (auto simp: daemon_main_def split: sum.split)
qed (simp add: daemon_main_def)

section \<open>The web server\<close>

definition DEFAULT_PORT :: int where "DEFAULT_PORT = 7677"

definition web_port :: "environment \<Rightarrow> int option" where
  "web_port os_env = py_int (the_default (show_int DEFAULT_PORT) (os_env ''NIXADMIN_WEB_PORT''))"

text \<open>
  \<^verbatim>\<open>main\<close> of \<^verbatim>\<open>web/server.py\<close> over the discovery file: \<open>bind\<close> gives the port in the end (the configured
  one may be zero) or fails, \<open>publish\<close> is what the writing of the file raises, \<open>serve\<close> the end of
  \<^verbatim>\<open>serve_forever\<close> with the file at that time, which another server may have replaced.
\<close>

definition web_main ::
  "environment \<Rightarrow> pystr \<Rightarrow> (int \<Rightarrow> exn + int) \<Rightarrow> exn option \<Rightarrow> (pystr option \<Rightarrow> (exn + unit) \<times> pystr option) \<Rightarrow>
     pystr option \<Rightarrow> (exn + unit) \<times> pystr option" where
  "web_main os_env token bind publish serve file =
     (case web_port os_env of
        None \<Rightarrow> (Inl (Foreign ''ValueError'' ''invalid literal for int() with base 10''), file)
      | Some port \<Rightarrow>
          (case bind port of
             Inl e \<Rightarrow> (Inl e, file)
           | Inr actual \<Rightarrow>
               (let url = server_url actual token
                in case publish of
                     Some e \<Rightarrow> (Inl e, file)
                   | None \<Rightarrow> (let (r, file') = serve (write_url_file url file)
                              in (until_interrupt r, remove_url_file url file')))))"

section \<open>Several web servers\<close>

text \<open>
  The file over the starts and ends of servers, each known by its port and token (tokens are random,
  so a second server with both the same does not occur); \<open>dv_live\<close> are the running ones, the one
  that published last first.
\<close>

record discovery =
  dv_file :: "pystr option"
  dv_live :: "(int \<times> pystr) list"
  dv_used :: "(int \<times> pystr) list"

definition no_servers :: discovery where
  "no_servers = \<lparr>dv_file = None, dv_live = [], dv_used = []\<rparr>"

definition url_of :: "int \<times> pystr \<Rightarrow> pystr" where
  "url_of s = server_url (fst s) (snd s)"

datatype discovery_event = Published "int \<times> pystr" | Server_left "int \<times> pystr"

definition discovery_step :: "discovery \<Rightarrow> discovery_event \<Rightarrow> discovery" where
  "discovery_step v ev =
     (case ev of
        Published s \<Rightarrow>
          (if url_of s \<in> url_of ` set (dv_used v) \<or> \<not> list_all always_safe (snd s) then v
           else \<lparr>dv_file = write_url_file (url_of s) (dv_file v), dv_live = s # dv_live v, dv_used = s # dv_used v\<rparr>)
      | Server_left s \<Rightarrow>
          (if s \<notin> set (dv_live v) then v
           else v\<lparr>dv_file := remove_url_file (url_of s) (dv_file v), dv_live := removeAll s (dv_live v)\<rparr>))"

definition newest_live :: "discovery \<Rightarrow> bool" where
  "newest_live v \<longleftrightarrow> dv_used v \<noteq> [] \<and> hd (dv_used v) \<in> set (dv_live v)"

definition discovery_inv :: "discovery \<Rightarrow> bool" where
  "discovery_inv v \<longleftrightarrow>
     set (dv_live v) \<subseteq> set (dv_used v) \<and> distinct (map url_of (dv_used v)) \<and>
     list_all (\<lambda>s. list_all always_safe (snd s)) (dv_used v) \<and>
     dv_file v = (if newest_live v then Some (url_of (hd (dv_used v)) @ [newline]) else None)"

lemma strip_published: "list_all always_safe (snd s) \<Longrightarrow> strip (url_of s @ [newline]) = url_of s"
  unfolding url_of_def by (rule strip_line [OF server_url_no_space]) (simp_all add: server_url_def)

lemma discovery_inv_published [step_intros]: "discovery_inv v \<Longrightarrow> discovery_inv (discovery_step v (Published s))"
  by (auto simp: discovery_inv_def discovery_step_def write_url_file_def newest_live_def)

lemma discovery_inv_left [step_intros]:
  assumes inv: "discovery_inv v"
  shows "discovery_inv (discovery_step v (Server_left s))"
proof (cases "s \<in> set (dv_live v)")
  case False
  with inv show ?thesis by (simp add: discovery_step_def)
next
  case True
  show ?thesis
  proof (cases "newest_live v")
    case False
    with inv True show ?thesis
      by (auto simp: discovery_inv_def discovery_step_def remove_url_file_def newest_live_def)
  next
    case newest: True
    define h where "h = hd (dv_used v)"
    from inv newest have h: "h \<in> set (dv_used v)" "dv_file v = Some (url_of h @ [newline])"
      "list_all always_safe (snd h)" "s \<in> set (dv_used v)" "inj_on url_of (set (dv_used v))"
      using True by (auto simp: discovery_inv_def newest_live_def h_def list_all_iff distinct_map)
    then have "strip (url_of h @ [newline]) = url_of h" "url_of h = url_of s \<longleftrightarrow> h = s"
      by (simp add: strip_published, auto dest: inj_onD)
    with h(2) have "remove_url_file (url_of s) (dv_file v) = (if h = s then None else Some (url_of h @ [newline]))"
      by (simp add: remove_url_file_def)
    with inv True newest show ?thesis
      by (auto simp: discovery_inv_def discovery_step_def newest_live_def h_def)
  qed
qed

interpretation discovery: event_machine discovery_step discovery_inv
proof unfold_locales
  fix v ev
  assume "discovery_inv v"
  then show "discovery_inv (discovery_step v ev)" by (cases ev) (auto intro: step_intros)
qed

text \<open>
  Whatever servers start and end in whatever order: while the server that started last runs, the
  discovery file has its address and token, and otherwise there is no file. The address of a server
  that ended is never left behind.
\<close>

lemma discovery_names_newest_server:
  "let v = foldl discovery_step no_servers es
   in dv_file v = (if newest_live v then Some (url_of (hd (dv_used v)) @ [newline]) else None)"
proof -
  have "discovery_inv no_servers" by (simp add: discovery_inv_def no_servers_def newest_live_def)
  then have "discovery_inv (foldl discovery_step no_servers es)" by (rule discovery.inv_events)
  then show ?thesis by (simp add: discovery_inv_def Let_def)
qed

text \<open>An older server that is still running is then no longer found.\<close>

lemma older_server_unpublished:
  "let v = foldl discovery_step no_servers [Published (1, ''a''), Published (2, ''b''), Server_left (2, ''b'')]
   in dv_live v = [(1, ''a'')] \<and> dv_file v = None"
  by code_simp

section \<open>The handshake with a deadline\<close>

definition HANDSHAKE_TIMEOUT_S :: real where "HANDSHAKE_TIMEOUT_S = 5"

text \<open>
  \<^verbatim>\<open>negotiate_async\<close> on the outcome of the timed read: a line with its length in bytes (\<open>None\<close> where it
  is no UTF-8), or an exception. The \<^verbatim>\<open>ValueError\<close> of an overlong line is a protocol error; the
  \<^verbatim>\<open>TimeoutError\<close> is passed on.
\<close>

definition negotiate_async :: "py_texts \<Rightarrow> exn + (nat \<times> pystr option) \<Rightarrow> exn + message" where
  "negotiate_async py outcome =
     (case outcome of
        Inl (Foreign cls msg) \<Rightarrow>
          Inl (if cls = ''ValueError'' then ProtocolError ''wire message exceeds size limit'' else Foreign cls msg)
      | Inl e \<Rightarrow> Inl e
      | Inr (nbytes, raw) \<Rightarrow> (case decode_line py nbytes raw of Inl e \<Rightarrow> Inl e | Inr m \<Rightarrow> validate_hello m))"

lemma negotiated_is_compatible:
  "case negotiate_async py outcome of
     Inr m \<Rightarrow> msg_class m = Hello \<and> require_compatible m VERSION = Inr () \<and> (\<exists>n raw. outcome = Inr (n, raw) \<and> n \<le> MAX_LINE_BYTES)
   | Inl e \<Rightarrow> True"
  by (auto simp: negotiate_async_def validate_hello_def decode_line_def
      split: sum.splits exn.splits prod.splits if_splits option.splits)

section \<open>The tray\<close>

datatype tray_act = Bus_connected | Icon_registered | Client_started | Poll_started | Tasks_closed | Bus_closed

text \<open>
  \<^verbatim>\<open>Tray.run\<close>: what was done when it ended. Only from the first task on is the end cleaned up.
\<close>

definition tray_run :: "exn + unit \<Rightarrow> exn + unit \<Rightarrow> exn + unit \<Rightarrow> (exn + unit) \<times> tray_act list" where
  "tray_run connect register waited =
     (case connect of
        Inl e \<Rightarrow> (Inl e, [])
      | Inr _ \<Rightarrow>
          (case register of
             Inl e \<Rightarrow> (Inl e, [Bus_connected])
           | Inr _ \<Rightarrow> (waited, [Bus_connected, Icon_registered, Client_started, Poll_started, Tasks_closed, Bus_closed])))"

definition tray_main :: "exn + unit \<Rightarrow> exn + unit" where
  "tray_main ended = until_interrupt ended"

section \<open>The root helper\<close>

definition SOCKET_PATH :: pystr where "SOCKET_PATH = ''/run/nixadmin-helper.sock''"

datatype boot_call =
    Remove_socket pystr | Create_socket | Bind_socket pystr | Find_group pystr | Chown_socket pystr int int
  | Chmod_socket pystr nat | Listen_on int | Accept_on

text \<open>The calls of \<^verbatim>\<open>main\<close> in order, the mode being octal 660; the first that fails ends the program.\<close>

definition boot_plan :: "bool \<Rightarrow> int \<Rightarrow> boot_call list" where
  "boot_plan present gid =
     (if present then [Remove_socket SOCKET_PATH] else []) @
     [Create_socket, Bind_socket SOCKET_PATH, Find_group ''nixadmin'', Chown_socket SOCKET_PATH 0 gid,
      Chmod_socket SOCKET_PATH 432, Listen_on 4]"

fun perform_calls :: "(boot_call \<Rightarrow> exn option) \<Rightarrow> boot_call list \<Rightarrow> boot_call list \<times> exn option" where
  "perform_calls fails [] = ([], None)"
| "perform_calls fails (c # cs) =
     (case fails c of
        Some e \<Rightarrow> ([], Some e)
      | None \<Rightarrow> (let (made, e) = perform_calls fails cs in (c # made, e)))"

text \<open>
  \<^verbatim>\<open>main\<close>: the stale units are cleaned up, the socket is set up, and then connections are accepted,
  each handled in a thread of its own (here one after the other).
\<close>

definition helper_main ::
  "'w helper_host \<Rightarrow> bool \<Rightarrow> int \<Rightarrow> (boot_call \<Rightarrow> exn option) \<Rightarrow> ('w helper \<Rightarrow> 'w helper) list \<Rightarrow> 'w helper \<Rightarrow>
     exn option \<times> boot_call list \<times> 'w helper" where
  "helper_main h present gid fails connections s =
     (let s = cleanup_stale h s; (made, e) = perform_calls fails (boot_plan present gid)
      in (e, made, case e of Some _ \<Rightarrow> s | None \<Rightarrow> foldl (\<lambda>s handled. handled s) s connections))"

lemma perform_calls_prefix:
  "case perform_calls fails cs of (made, None) \<Rightarrow> made = cs | (made, Some e) \<Rightarrow> \<exists>c rest. cs = made @ c # rest \<and> fails c = Some e"
  by (induction cs) (auto split: option.splits prod.splits)

text \<open>
  No request is served before the socket belongs to root and the group and is closed to everyone
  else: when any call fails, nothing listens.
\<close>

lemma nobody_served_unrestricted:
  "case helper_main h present gid fails connections s of
     (None, made, s') \<Rightarrow> made = boot_plan present gid
   | (Some e, made, s') \<Rightarrow> s' = cleanup_stale h s \<and> Listen_on 4 \<notin> set made"
proof (cases "perform_calls fails (boot_plan present gid)")
  case (Pair made e)
  show ?thesis
  proof (cases e)
    case None
    with Pair perform_calls_prefix [where fails = fails and cs = "boot_plan present gid"] show ?thesis
      by (simp add: helper_main_def)
  next
    case (Some x)
    with Pair perform_calls_prefix [where fails = fails and cs = "boot_plan present gid"]
    obtain c rest where plan: "boot_plan present gid = made @ c # rest" by auto
    have "Listen_on 4 \<notin> set (butlast (boot_plan present gid))" by (simp add: boot_plan_def)
    then have "Listen_on 4 \<notin> set made" unfolding plan by (simp add: butlast_append)
    with Pair Some show ?thesis by (simp add: helper_main_def)
  qed
qed

end
