(* ===== verification/Spec2Isabelle.thy ===== *)
theory Spec2Isabelle
  imports Observability Store Remediation Protocol Autofix Ledger_Model Timeline_Service Helper
    Safety Module_Registry Routing Prefetch Redact App_Protocol Local_LLM Remote_LLM
    Config Consent Handler_Properties
    Web_Properties Client_Paths Tray_Client Builtin_Modules Terminal_Client Lifecycle Session_Locks
    Tray_Registration Overlay Logging Typed_Consent
    Background_Loops Programs
begin

text \<open>
  A verification development for nixadmin, a systems agent for NixOS: an unprivileged daemon
  that answers questions about the machine with a local or remote language model and takes a
  few deterministic actions; a helper that runs as root; and clients (terminal, tray, web view)
  that speak JSON lines over a Unix socket. Models read and explain; what the program does to
  the machine is decided by ordinary code, and that code is what is modelled here.

  \<^bold>\<open>How the program is modelled.\<close> Python text is a list of characters (\<open>Py_String\<close>: the Latin-1
  range and five reserved characters for the program's dashes, quotes and ellipsis); Python
  integers are \<open>int\<close>; floats are exact reals. JSON, \<^verbatim>\<open>re\<close>, \<^verbatim>\<open>difflib\<close>, \<^verbatim>\<open>pathlib\<close> and \<^verbatim>\<open>urlsplit\<close>
  are modelled as far as the program uses them (\<open>Py_Json\<close>, \<open>Py_Regex\<close>, \<open>Py_Difflib\<close>, \<open>Py_Path\<close>,
  \<open>Config\<close>). An operation with effects is a function from a world to a result and a new world
  (\<open>Host.act\<close>); a result is an exception of \<^verbatim>\<open>errors.py\<close> or a value, and effects made before an
  exception stay. The machine is a record of calls over an arbitrary type of worlds: processes,
  sleeping, the clock, files, sockets, the HTTP and LiteLLM libraries and the person at the
  client are fields of such records, so that a theorem holds whatever they answer. A flow that
  need not return is a \<open>partial_function (option)\<close>: the agent loop, and the dispatch built on it.

  \<^bold>\<open>The parts.\<close>

  \<^item> Base: \<open>Nixadmin_Prelude\<close> (contracts of state machines, shared lemmas), \<open>Host\<close>
    (\<^verbatim>\<open>errors.py\<close>, \<^verbatim>\<open>util.py\<close>), \<open>Act_Rules\<close> and \<open>Frames\<close> (rules to follow an order on states
    through any flow).
  \<^item> Events: \<open>Store\<close> (\<^verbatim>\<open>store.py\<close>, the table as a list of rows), \<open>Timeline_Service\<close>, \<open>Ledger_Model\<close>,
    \<open>Observability\<close>. Shown: what a read returns, that the failures on the timeline replay to the
    failed set, that pages cover the timeline, what the ledger's numbers mean.
  \<^item> Remediation: \<open>Remediation\<close> (recognising a request, matching a unit, the verified restart),
    \<open>Autofix\<close> (policy, loop guard, one poll). Shown: a restart is reported as it was, needs a yes,
    and is repeated at most as often as configured.
  \<^item> Root helper: \<open>Helper\<close> (\<^verbatim>\<open>nixadmin-helper.py\<close>). Shown: the commands a request can cause, and the
    lock over all threads as a step relation. \<open>Safety\<close> is the daemon's side (\<^verbatim>\<open>safety.py\<close>).
  \<^item> Models: \<open>Local_LLM\<close>, \<open>Remote_LLM\<close>, \<open>Redact\<close>, \<open>Prefetch\<close>, \<open>Routing\<close>, \<open>Module_Registry\<close>,
    \<open>Context_History\<close>. Shown: what a misbehaving model can and cannot cause, that redaction
    depends on the scrubbed text only, and when the agent loop returns.
  \<^item> App actions: \<open>Package_Editor\<close> (the edit of a Nix list), \<open>Actions\<close> (the flow), \<open>App_Protocol\<close>
    (an abstract protocol of what may happen in which order, which every run refines).
  \<^item> The daemon: \<open>Config\<close>, \<open>Protocol\<close> (\<^verbatim>\<open>protocol.py\<close>, \<^verbatim>\<open>transport.py\<close>), \<open>Connections\<close>,
    \<open>Daemon_State\<close>, \<open>Services\<close>, \<open>Dispatch\<close> (the life of a query in \<^verbatim>\<open>server.py\<close>), \<open>Handlers\<close> (every
    other request). \<open>Query_Frames\<close> is the interface through which \<open>Dispatch_Messages\<close> shows that
    a query ends exactly once and \<open>Consent\<close> that nothing leaves a local-default machine before
    a yes; \<open>Handler_Properties\<close> treats the other requests.
    \<open>Session_Locks\<close> is the lock that runs the queries of one session one after another,
    \<open>Task_Sets\<close> (\<^verbatim>\<open>tasks.py\<close>, \<^verbatim>\<open>supervision.py\<close>) the owner of background tasks, \<open>Monitors\<close>
    (\<^verbatim>\<open>monitors.py\<close>) the polling loops, \<open>Lifecycle\<close> and \<open>Background_Loops\<close> the start, the shutdown and the
    loops of \<^verbatim>\<open>server.py\<close>, \<open>Logging\<close> the set-up of the log. \<open>Builtin_Modules\<close> is the content of the modules of
    \<^verbatim>\<open>builtins/\<close> and \<^verbatim>\<open>contrib/\<close>. Shown: how many run at once and how often, that queries of a session
    are serial and in order, that a daemon that ends leaves nothing open.
  \<^item> The web view: \<open>Web_Guard\<close> (\<^verbatim>\<open>web/security.py\<close>, \<^verbatim>\<open>web/requests.py\<close>), \<open>Web_Client\<close> (\<^verbatim>\<open>web/dclient.py\<close>),
    \<open>Web_Session\<close> (\<^verbatim>\<open>web/session.py\<close>, the threads of one streamed query), \<open>Web_Server\<close> (every route of
    \<^verbatim>\<open>web/server.py\<close>) and \<open>Web_Properties\<close>. Shown: what a request without the token, from another
    host or origin can cause (nothing), what a page load can send, that answers go to their
    questions, and the bound on running streams.
  \<^item> The other clients: \<open>Terminal_Client\<close> (\<^verbatim>\<open>cli.py\<close>); the tray in \<open>Tray_Icons\<close>, \<open>Tray_Menu\<close>, \<open>Tray_Client\<close>
    (its connection), \<open>Tray_Desktop\<close> (what it serves on the session bus, its jobs, its life) and
    \<open>Tray_Registration\<close>; \<open>Overlay\<close> (\<^verbatim>\<open>overlay.py\<close>); \<open>Client_Paths\<close> (where they find the daemon and the
    web server), \<open>Py_Url\<close> (the parts of \<^verbatim>\<open>urllib.parse\<close> they use). Shown: that a client acts only on
    what its user typed or clicked, and shows what the daemon reported last.
  \<^item> The whole: \<open>Programs\<close> has the \<^verbatim>\<open>main\<close> functions and the discovery file under several web servers;
    \<open>Typed_Consent\<close> joins the models of the daemon and of the terminal into one connection and shows
    that what the daemon takes for a yes is a yes the person typed.

  \<^bold>\<open>Interleavings.\<close> Where several tasks or threads share a state, the steps between two waits are
  the events of a machine, a run is a list of events, and a property holds for every list: the
  locale \<open>event_machine\<close> of \<open>Nixadmin_Prelude\<close> carries an invariant over it. What the outside world
  answers (a reply, an exception, a click, a timer) is part of the event.

  \<^bold>\<open>Bounds and fuel.\<close> The regular-expression matcher recurses on the expression and, under a
  star, on the length of the remaining text, which is enough since a star's round consumes a
  character (\<open>matches_complete\<close>). The JSON parser's fuel is the length of the text
  (\<open>loads_dumps\<close>). No property rests on a bound that the code does not have.

  \<^bold>\<open>Simplifications.\<close> Requests carry typed fields where Python would let any JSON value through;
  the places where the code then misbehaves are findings of the manifest. Flags another task
  may set at any time (whether the local model is ready) are part of the world, so every flow
  is sound for any interleaving with that task. Properties of traces speak of runs that return;
  that the agent loop returns is a property of its own. Log calls are left out except where
  they are rate limited (\<open>Observability\<close>).

  \<^bold>\<open>Not modelled.\<close> The D-Bus, GTK, layer-shell and WebKit libraries beyond the calls made to them,
  with the lazy import of their bindings; the parsing of HTTP by the standard library; structlog's
  rendering; SQLite's journal and threads; the packaged pages and scripts of the web view, which
  are no Python; \<^verbatim>\<open>notify\<close> of \<^verbatim>\<open>tray/sni.py\<close>, which nothing calls; the animation of the terminal's
  spinner. What is left of the sources beyond that is documentation, imports and type
  declarations.
\<close>

end
